theory Spec2Isabelle
  imports Complex_Main
begin

section \<open>Python values used by the training engine\<close>

text \<open>
  Exceptions of the source are values of \<open>error\<close>; a function of the source that can raise
  returns \<open>error + 'a\<close>, with \<open>Inl\<close> the exception that propagates.
\<close>

datatype error =
  IndexError | KeyError | ZeroDivisionError | TypeError | RuntimeError | NameError
  | UnboundLocalError | AttributeError | LoadError | FileError | NotANumber

text \<open>
  \<open>v[:stop]\<close> of Python for a list \<open>v\<close> and an integer \<open>stop\<close>: a negative \<open>stop\<close>
  counts from the end and is cut at the start of the list.
\<close>

definition py_slice_to :: "'a list \<Rightarrow> int \<Rightarrow> 'a list" where
  "py_slice_to v stop =
     (if stop < 0 then take (nat (max 0 (int (length v) + stop))) v
      else take (nat stop) v)"

text \<open>\<open>collections.deque(maxlen=m).append(x)\<close>: the oldest entries drop silently.\<close>

definition deque_append :: "nat \<Rightarrow> 'a list \<Rightarrow> 'a \<Rightarrow> 'a list" where
  "deque_append m q x = (let q' = q @ [x] in drop (length q' - m) q')"

section \<open>DRRN agent: data\<close>

datatype State = State "int list"

record 'r transition =
  t_state :: State
  t_act :: "int list"
  t_reward :: 'r
  t_next_state :: State
  t_next_acts :: "int list list"
  t_done :: bool

record 'r logs_dict =
  return_per_episode :: "'r list"
  reshaped_return_per_episode :: "'r list"
  reshaped_return_bonus_per_episode :: "'r list"
  num_frames_per_episode :: "int list"
  num_frames :: int
  episodes_done :: int
  entropy :: 'r
  policy_loss :: 'r
  value_loss :: 'r
  grad_norm :: 'r
  loss :: 'r

text \<open>
  What one batched \<open>env.step\<close> returns: \<open>missions\<close> is \<open>obs[j]['mission']\<close> and
  \<open>descriptions\<close> is \<open>infos[j]['descriptions']\<close>, per environment slot.
\<close>

record 'r step_result =
  missions :: "string list"
  rewards :: "'r list"
  dones :: "bool list"
  descriptions :: "string list list"

section \<open>Replay memory\<close>

text \<open>
  Modelled from the spec: \<open>PrioritizedReplayMemory\<close> (utils/memory.py) is not among the
  sources. The spec gives it two pools, each bounded by its own capacity; \<open>push\<close> inserts
  into the pool the flag selects and, when that pool is at capacity, evicts its oldest
  entry first; \<open>len\<close> counts both pools.
\<close>

record 'r replay_memory =
  priority_pool :: "'r transition list"
  normal_pool :: "'r transition list"
  priority_capacity :: nat
  normal_capacity :: nat

definition fifo_insert :: "nat \<Rightarrow> 'a list \<Rightarrow> 'a \<Rightarrow> 'a list" where
  "fifo_insert cap pool t = (if cap \<le> length pool then tl pool else pool) @ [t]"

definition push :: "bool \<Rightarrow> 'r transition \<Rightarrow> 'r replay_memory \<Rightarrow> 'r replay_memory" where
  "push is_priority t m =
     (if is_priority
      then m\<lparr>priority_pool := fifo_insert (priority_capacity m) (priority_pool m) t\<rparr>
      else m\<lparr>normal_pool := fifo_insert (normal_capacity m) (normal_pool m) t\<rparr>)"

definition len :: "'r replay_memory \<Rightarrow> nat" where
  "len m = length (priority_pool m) + length (normal_pool m)"

section \<open>DRRN agent: state and collaborators\<close>

text \<open>
  The fields of \<open>DRRNAgent\<close>. \<open>env\<close> stands for \<open>self.env\<close>: the environment batch is an
  external object, and its state is the list of index arrays sent to \<open>step\<close> so far.
  \<open>obs\<close> holds the missions of \<open>self.obs\<close>, the only part of an observation that is read.
  \<open>'w\<close> is the type of the network's parameters (and of their gradients), \<open>'o\<close> the
  optimizer's state.
\<close>

record ('r, 'w, 'o) agent =
  subgoals :: "string list list"
  gamma :: 'r
  batch_size :: int
  memory :: "'r replay_memory"
  clip :: 'r
  network :: 'w
  optimizer :: 'o
  max_steps :: int
  env :: "nat list list"
  obs :: "string list"
  n_envs :: nat
  obs_queue :: "string list list list"
  acts_queue :: "string list list"
  states :: "State list"
  encoded_actions :: "int list list list"
  logs :: "'r logs_dict"
  returns :: "'r list"
  reshaped_returns :: "'r list"
  frames_per_episode :: "int list"
  save_frequency :: int
  inner_counter :: int

text \<open>
  What the agent calls and the sources do not define: the tokenizer (\<open>sp.EncodeAsIds\<close>),
  \<open>generate_prompt\<close>, \<open>generate_prompt_french\<close>, \<open>prompt_modifier\<close> and
  \<open>dict_translation_actions\<close> of \<open>BaseAgent\<close>, the reward reshaping function passed to the
  constructor,
  the environment batch (its answer to the latest \<open>step\<close>, given all index arrays sent so
  far), the network's forward pass (one list of values per state, one value per candidate),
  and torch's differentiation, gradient clipping and optimizer step.
\<close>

record ('r, 'w, 'o) collab =
  encode :: "string \<Rightarrow> int list"
  generate_prompt :: "string \<Rightarrow> string list \<Rightarrow> string list list \<Rightarrow> string list \<Rightarrow> string"
  generate_prompt_french ::
    "string \<Rightarrow> string list \<Rightarrow> string list list \<Rightarrow> string list \<Rightarrow> string"
  prompt_modifier :: "string \<Rightarrow> (string \<times> string) list \<Rightarrow> string"
  dict_translation_actions :: "(string \<times> string) list"
  reshape_reward :: "'r \<Rightarrow> 'r \<times> 'r"
  env_step :: "nat list list \<Rightarrow> 'r step_result"
  forward :: "'w \<Rightarrow> State list \<Rightarrow> int list list list \<Rightarrow> 'r list list"
  autograd :: "('w \<Rightarrow> 'r) \<Rightarrow> 'w \<Rightarrow> 'w"
  clip_grad_norm :: "'r \<Rightarrow> 'w \<Rightarrow> 'w"
  optimizer_step :: "'o \<Rightarrow> 'w \<Rightarrow> 'w \<Rightarrow> 'o \<times> 'w"

section \<open>DRRN agent: the rollout driver\<close>

text \<open>\<open>DRRNAgent.observe\<close>: the priority flag is the constant \<open>False\<close>.\<close>

definition observe ::
  "State \<Rightarrow> int list \<Rightarrow> 'r \<Rightarrow> State \<Rightarrow> int list list \<Rightarrow> bool \<Rightarrow> ('r, 'w, 'o) agent \<Rightarrow> ('r, 'w, 'o) agent" where
  "observe st a rew nst nacts dn s =
     s\<lparr>memory := push False
          \<lparr>t_state = st, t_act = a, t_reward = rew, t_next_state = nst,
           t_next_acts = nacts, t_done = dn\<rparr> (memory s)\<rparr>"

definition build_state :: "('r, 'w, 'o) collab \<Rightarrow> string list \<Rightarrow> State list" where
  "build_state c prompts = map (\<lambda>p. State (encode c p)) prompts"

text \<open>
  \<open>DRRNAgent.act\<close> with \<open>sample=True\<close>. The indices drawn by \<open>torch.multinomial\<close> are the
  argument \<open>idxs\<close>; \<open>poss_acts[batch][idx]\<close> raises when an index is out of range. The
  result is \<open>(act_ids, act_idxs)\<close>; the values are not used by the callers.
\<close>

definition act :: "nat list \<Rightarrow> int list list list \<Rightarrow> error + (int list list \<times> nat list)" where
  "act idxs poss_acts =
     (if list_all (\<lambda>(b, idx). b < length poss_acts \<and> idx < length (poss_acts ! b))
           (enumerate 0 idxs)
      then Inr (map (\<lambda>(b, idx). poss_acts ! b ! idx) (enumerate 0 idxs), idxs)
      else Inl IndexError)"

text \<open>\<open>[_subgoals[idx] for _subgoals, idx in zip(self.subgoals, action_idxs)]\<close>\<close>

definition chosen_actions :: "string list list \<Rightarrow> nat list \<Rightarrow> error + string list" where
  "chosen_actions sgs idxs =
     (if list_all (\<lambda>(sg, idx). idx < length sg) (zip sgs idxs)
      then Inr (map (\<lambda>(sg, idx). sg ! idx) (zip sgs idxs))
      else Inl IndexError)"

text \<open>
  The index array handed to \<open>env.step\<close>: with more than 6 candidate actions in slot 0,
  \<open>real_a[real_a > 6] = 6\<close> on a copy; the sampled indices otherwise.
\<close>

definition env_indices :: "string list list \<Rightarrow> nat list \<Rightarrow> error + nat list" where
  "env_indices sgs idxs =
     (case sgs of
        [] \<Rightarrow> Inl IndexError
      | sg0 # _ \<Rightarrow>
          if length sg0 > 6 then Inr (map (\<lambda>a. if a > 6 then 6 else a) idxs)
          else Inr idxs)"

text \<open>
  The body of \<open>for j in range(self.n_envs)\<close> (the same text in \<open>update_parameters\<close> and in
  \<open>generate_trajectories\<close>), for one slot \<open>j\<close>. The second component of the state is the
  local counter \<open>episodes_done\<close>; \<open>rr\<close> is \<open>reshaped_rewards\<close>, \<open>acts\<close> is \<open>actions\<close>.
\<close>

definition slot_bookkeeping ::
  "nat \<Rightarrow> ('r::{zero,plus}) step_result \<Rightarrow> 'r list \<Rightarrow> string list \<Rightarrow>
   ('r, 'w, 'o) agent \<times> int \<Rightarrow> error + (('r, 'w, 'o) agent \<times> int)" where
  "slot_bookkeeping j r rr acts st =
     (let s = fst st; ed = snd st in
      if \<not> (j < length (returns s) \<and> j < length (rewards r)
            \<and> j < length (reshaped_returns s) \<and> j < length rr
            \<and> j < length (frames_per_episode s) \<and> j < length (dones r))
      then Inl IndexError
      else
        let ret = returns s ! j + rewards r ! j;
            rret = reshaped_returns s ! j + rr ! j;
            fr = frames_per_episode s ! j + 1
        in if dones r ! j then
             if \<not> (j < length (obs_queue s) \<and> j < length (acts_queue s)) then Inl IndexError
             else Inr
               (s\<lparr>logs := (logs s)
                     \<lparr>num_frames_per_episode := num_frames_per_episode (logs s) @ [fr],
                      return_per_episode := return_per_episode (logs s) @ [ret],
                      reshaped_return_per_episode :=
                        reshaped_return_per_episode (logs s) @ [rret],
                      reshaped_return_bonus_per_episode :=
                        reshaped_return_bonus_per_episode (logs s) @ [rret]\<rparr>,
                  frames_per_episode := (frames_per_episode s)[j := 0],
                  returns := (returns s)[j := 0],
                  reshaped_returns := (reshaped_returns s)[j := 0],
                  obs_queue := (obs_queue s)[j := []],
                  acts_queue := (acts_queue s)[j := []]\<rparr>,
                ed + 1)
           else
             if \<not> (j < length (acts_queue s) \<and> j < length acts
                   \<and> j < length (obs_queue s) \<and> j < length (descriptions r))
             then Inl IndexError
             else Inr
               (s\<lparr>frames_per_episode := (frames_per_episode s)[j := fr],
                  returns := (returns s)[j := ret],
                  reshaped_returns := (reshaped_returns s)[j := rret],
                  acts_queue := (acts_queue s)[j := deque_append 2 (acts_queue s ! j) (acts ! j)],
                  obs_queue :=
                    (obs_queue s)[j := deque_append 3 (obs_queue s ! j) (descriptions r ! j)]\<rparr>,
                ed))"

fun bookkeeping_loop ::
  "nat list \<Rightarrow> ('r::{zero,plus}) step_result \<Rightarrow> 'r list \<Rightarrow> string list \<Rightarrow>
   ('r, 'w, 'o) agent \<times> int \<Rightarrow> error + (('r, 'w, 'o) agent \<times> int)" where
  "bookkeeping_loop [] r rr acts st = Inr st"
| "bookkeeping_loop (j # js) r rr acts st =
     (case slot_bookkeeping j r rr acts st of
        Inl e \<Rightarrow> Inl e
      | Inr st' \<Rightarrow> bookkeeping_loop js r rr acts st')"

text \<open>
  Lines 152 to 171 of drrn.py: the rewards are reshaped, then every slot is visited in
  order.
\<close>

definition bookkeeping ::
  "('r::{zero,plus}, 'w, 'o) collab \<Rightarrow> 'r step_result \<Rightarrow> string list \<Rightarrow>
   ('r, 'w, 'o) agent \<times> int \<Rightarrow> error + (('r, 'w, 'o) agent \<times> int)" where
  "bookkeeping c r acts st =
     bookkeeping_loop [0..<n_envs (fst st)] r
       (map (\<lambda>x. fst (reshape_reward c x)) (rewards r)) acts st"

text \<open>
  The raw rewards slot \<open>j\<close> received since its last reset, oldest first, after the
  environment answered \<open>rs\<close> (oldest first): a tick whose done flag is set empties the list.
\<close>

definition rewards_since_reset :: "nat \<Rightarrow> 'r step_result list \<Rightarrow> 'r list" where
  "rewards_since_reset j rs =
     foldl (\<lambda>acc r. if dones r ! j then [] else acc @ [rewards r ! j]) [] rs"

text \<open>What \<open>+=\<close> from 0 accumulates over a list of rewards, in the order received.\<close>

definition accumulate :: "('r::{zero,plus}) list \<Rightarrow> 'r" where
  "accumulate xs = foldl (+) 0 xs"

text \<open>
  The prompts of the next states:
  \<open>generate_prompt(goal=obs[j]['mission'], subgoals=self.subgoals[j], deque_obs=..., deque_actions=...)\<close>
  for \<open>j in range(self.n_envs)\<close>.
\<close>

definition next_prompts ::
  "('r, 'w, 'o) collab \<Rightarrow> string list \<Rightarrow> ('r, 'w, 'o) agent \<Rightarrow> error + string list" where
  "next_prompts c ms s =
     (let n = n_envs s in
      if n \<le> length ms \<and> n \<le> length (subgoals s) \<and> n \<le> length (obs_queue s)
         \<and> n \<le> length (acts_queue s)
      then Inr (map (\<lambda>j. generate_prompt c (ms ! j) (subgoals s ! j) (obs_queue s ! j)
                          (acts_queue s ! j)) [0..<n])
      else Inl IndexError)"

text \<open>
  The loop over \<open>zip(self.states, action_ids, reshaped_rewards, next_states,
  self.encoded_actions, dones)\<close> calling \<open>observe\<close>; \<open>zip\<close> stops at the shortest list.
\<close>

definition observe_all ::
  "State list \<Rightarrow> int list list \<Rightarrow> 'r list \<Rightarrow> State list \<Rightarrow> int list list list \<Rightarrow> bool list \<Rightarrow>
   ('r, 'w, 'o) agent \<Rightarrow> ('r, 'w, 'o) agent" where
  "observe_all sts ids rr nsts nacts dns s =
     fold (\<lambda>(st, a, rew, nst, na, dn). observe st a rew nst na dn)
       (zip sts (zip ids (zip rr (zip nsts (zip nacts dns))))) s"

text \<open>
  One pass of the body of \<open>for i in range(self.max_steps // self.n_envs)\<close> in
  \<open>update_parameters\<close>, with the sampled indices \<open>idxs\<close>.
\<close>

definition tick ::
  "('r::{zero,plus}, 'w, 'o) collab \<Rightarrow> nat list \<Rightarrow> ('r, 'w, 'o) agent \<times> int \<Rightarrow>
   error + (('r, 'w, 'o) agent \<times> int)" where
  "tick c idxs st =
     (let s = fst st in
      case act idxs (encoded_actions s) of
        Inl e \<Rightarrow> Inl e
      | Inr (action_ids, action_idxs) \<Rightarrow>
      (case chosen_actions (subgoals s) action_idxs of
        Inl e \<Rightarrow> Inl e
      | Inr actions \<Rightarrow>
      (case env_indices (subgoals s) action_idxs of
        Inl e \<Rightarrow> Inl e
      | Inr real_a \<Rightarrow>
          let calls = env s @ [real_a];
              r = env_step c calls;
              reshaped_rewards = map (\<lambda>x. fst (reshape_reward c x)) (rewards r)
          in (case bookkeeping c r actions (s\<lparr>env := calls\<rparr>, snd st) of
                Inl e \<Rightarrow> Inl e
              | Inr st2 \<Rightarrow>
              (case next_prompts c (missions r) (fst st2) of
                Inl e \<Rightarrow> Inl e
              | Inr ps \<Rightarrow>
                  let next_states = build_state c ps;
                      s3 = observe_all (states s) action_ids reshaped_rewards next_states
                             (encoded_actions s) (dones r) (fst st2)
                  in Inr (s3\<lparr>states := next_states\<rparr>, snd st2))))))"

fun tick_loop ::
  "('r::{zero,plus}, 'w, 'o) collab \<Rightarrow> (nat \<Rightarrow> nat list) \<Rightarrow> nat list \<Rightarrow>
   ('r, 'w, 'o) agent \<times> int \<Rightarrow> error + (('r, 'w, 'o) agent \<times> int)" where
  "tick_loop c sampler [] st = Inr st"
| "tick_loop c sampler (i # is) st =
     (case tick c (sampler i) st of
        Inl e \<Rightarrow> Inl e
      | Inr st' \<Rightarrow> tick_loop c sampler is st')"

section \<open>DRRN agent: generating test trajectories\<close>

text \<open>
  The head of \<open>generate_trajectories\<close>: the prompt function and the candidate actions in
  the chosen language. For any other language both names stay unbound.
\<close>

type_synonym prompt_setup =
  "((string \<Rightarrow> string list \<Rightarrow> string list list \<Rightarrow> string list \<Rightarrow> string) \<times> string list list) option"

definition language_setup ::
  "('r, 'w, 'o) collab \<Rightarrow> string \<Rightarrow> ('r, 'w, 'o) agent \<Rightarrow> prompt_setup" where
  "language_setup c language s =
     (if language = ''english'' then Some (generate_prompt c, subgoals s)
      else if language = ''french'' then
        Some (generate_prompt_french c,
              map (map (\<lambda>sg. prompt_modifier c sg (dict_translation_actions c))) (subgoals s))
      else None)"

text \<open>
  The prompts of \<open>generate_trajectories\<close>, before and after the step:
  \<open>prompt_modifier(generate_prompt(goal=obs[j]['mission'], subgoals=subgoals[j], ...), dict_modifier)\<close>
  for \<open>j in range(self.n_envs)\<close>; \<open>ms\<close> are the missions of the observations used.
\<close>

definition trajectory_prompts ::
  "('r, 'w, 'o) collab \<Rightarrow> prompt_setup \<Rightarrow> (string \<times> string) list \<Rightarrow> string list \<Rightarrow>
   ('r, 'w, 'o) agent \<Rightarrow> error + string list" where
  "trajectory_prompts c lsetup dict_modifier ms s =
     (let n = n_envs s in
      if n = 0 then Inr []
      else
        case lsetup of
          None \<Rightarrow> Inl NameError
        | Some (gen, sgl) \<Rightarrow>
            if n \<le> length ms \<and> n \<le> length sgl \<and> n \<le> length (obs_queue s)
               \<and> n \<le> length (acts_queue s)
            then Inr (map (\<lambda>j. prompt_modifier c
                                 (gen (ms ! j) (sgl ! j) (obs_queue s ! j) (acts_queue s ! j))
                                 dict_modifier) [0..<n])
            else Inl IndexError)"

text \<open>
  One pass of the body of \<open>while episodes_done < n_tests\<close> in \<open>generate_trajectories\<close>,
  with the sampled indices \<open>idxs\<close>. Nothing is stored in the memory here.
\<close>

definition trajectory_pass ::
  "('r::{zero,plus}, 'w, 'o) collab \<Rightarrow> prompt_setup \<Rightarrow> (string \<times> string) list \<Rightarrow> nat list \<Rightarrow>
   ('r, 'w, 'o) agent \<times> int \<Rightarrow> error + (('r, 'w, 'o) agent \<times> int)" where
  "trajectory_pass c lsetup dict_modifier idxs st =
     (let s = fst st in
      case trajectory_prompts c lsetup dict_modifier (obs s) s of
        Inl e \<Rightarrow> Inl e
      | Inr ps \<Rightarrow>
      (let s1 = s\<lparr>states := build_state c ps\<rparr> in
       case act idxs (encoded_actions s1) of
        Inl e \<Rightarrow> Inl e
      | Inr (action_ids, action_idxs) \<Rightarrow>
      (case chosen_actions (subgoals s1) action_idxs of
        Inl e \<Rightarrow> Inl e
      | Inr actions \<Rightarrow>
      (case env_indices (subgoals s1) action_idxs of
        Inl e \<Rightarrow> Inl e
      | Inr real_a \<Rightarrow>
          let calls = env s1 @ [real_a];
              r = env_step c calls
          in (case bookkeeping c r actions (s1\<lparr>env := calls\<rparr>, snd st) of
                Inl e \<Rightarrow> Inl e
              | Inr st2 \<Rightarrow>
                  let s3 = (fst st2)\<lparr>obs := missions r\<rparr> in
                  (case trajectory_prompts c lsetup dict_modifier (missions r) s3 of
                     Inl e \<Rightarrow> Inl e
                   | Inr nps \<Rightarrow> Inr (s3\<lparr>states := build_state c nps\<rparr>, snd st2)))))))"

text \<open>
  The \<open>while\<close> loop, which ends only when enough episodes are done: the result \<open>None\<close>
  stands for a loop that runs forever. \<open>sampler k\<close> are the indices sampled in pass \<open>k\<close>.
\<close>

partial_function (option) trajectory_loop ::
  "('r::{zero,plus}, 'w, 'o) collab \<Rightarrow> prompt_setup \<Rightarrow> (string \<times> string) list \<Rightarrow>
   (nat \<Rightarrow> nat list) \<Rightarrow> int \<Rightarrow> nat \<Rightarrow> ('r, 'w, 'o) agent \<times> int \<Rightarrow>
   (error + (('r, 'w, 'o) agent \<times> int)) option" where
  "trajectory_loop c lsetup dict_modifier sampler n_tests k st =
     (if snd st < n_tests then
        (case trajectory_pass c lsetup dict_modifier (sampler k) st of
           Inl e \<Rightarrow> Some (Inl e)
         | Inr st' \<Rightarrow> trajectory_loop c lsetup dict_modifier sampler n_tests (Suc k) st')
      else Some (Inr st))"

text \<open>
  \<open>DRRNAgent.generate_trajectories\<close>: the returned logs are a full copy of \<open>self.logs\<close>
  with the local counter as \<open>episodes_done\<close>.
\<close>

definition generate_trajectories ::
  "('r::{zero,plus}, 'w, 'o) collab \<Rightarrow> (string \<times> string) list \<Rightarrow> int \<Rightarrow> string \<Rightarrow>
   (nat \<Rightarrow> nat list) \<Rightarrow> ('r, 'w, 'o) agent \<Rightarrow>
   (error + ('r logs_dict \<times> ('r, 'w, 'o) agent)) option" where
  "generate_trajectories c dict_modifier n_tests language sampler s =
     (case trajectory_loop c (language_setup c language s) dict_modifier sampler n_tests 0
             (s, 0) of
        None \<Rightarrow> None
      | Some (Inl e) \<Rightarrow> Some (Inl e)
      | Some (Inr st) \<Rightarrow> Some (Inr ((logs (fst st))\<lparr>episodes_done := snd st\<rparr>, fst st)))"

section \<open>DRRN agent: the update engine\<close>

text \<open>
  Elementwise operations of torch on one-dimensional tensors: equal sizes go pairwise, a
  tensor of size 1 is broadcast, any other pair of sizes raises.
\<close>

definition broadcast2 :: "('a \<Rightarrow> 'b \<Rightarrow> 'c) \<Rightarrow> 'a list \<Rightarrow> 'b list \<Rightarrow> error + 'c list" where
  "broadcast2 f xs ys =
     (if length xs = length ys then Inr (map (\<lambda>(x, y). f x y) (zip xs ys))
      else if length xs = 1 then Inr (map (\<lambda>y. f (hd xs) y) ys)
      else if length ys = 1 then Inr (map (\<lambda>x. f x (hd ys)) xs)
      else Inl RuntimeError)"

text \<open>\<open>vals.max()\<close>: raises on an empty tensor.\<close>

definition tensor_max :: "('r::linorder) list \<Rightarrow> error + 'r" where
  "tensor_max vals = (case vals of [] \<Rightarrow> Inl RuntimeError | v # vs \<Rightarrow> Inr (fold max vs v))"

fun those_ok :: "(error + 'a) list \<Rightarrow> error + 'a list" where
  "those_ok [] = Inr []"
| "those_ok (x # xs) =
     (case x of
        Inl e \<Rightarrow> Inl e
      | Inr v \<Rightarrow> (case those_ok xs of Inl e \<Rightarrow> Inl e | Inr vs \<Rightarrow> Inr (v # vs)))"

text \<open>
  \<open>F.smooth_l1_loss\<close> with torch's defaults (\<open>beta = 1\<close>, mean reduction). Numbers are
  the elements of an ordered field; the mean of an empty tensor is NaN in torch, which a
  field does not have, so the model stops there with \<open>NotANumber\<close>.
\<close>

definition huber :: "('r::linordered_field) \<Rightarrow> 'r" where
  "huber d = (if \<bar>d\<bar> < 1 then d * d / 2 else \<bar>d\<bar> - 1 / 2)"

definition mean :: "('r::linordered_field) list \<Rightarrow> error + 'r" where
  "mean xs = (if xs = [] then Inl NotANumber else Inr (sum_list xs / of_nat (length xs)))"

definition smooth_l1_loss :: "('r::linordered_field) list \<Rightarrow> 'r list \<Rightarrow> error + 'r" where
  "smooth_l1_loss xs ys =
     (case broadcast2 (\<lambda>x y. huber (x - y)) xs ys of
        Inl e \<Rightarrow> Inl e
      | Inr ls \<Rightarrow> mean ls)"

text \<open>
  The targets of \<open>DRRNAgent.update\<close> for the sampled transitions: lines 117 to 122.
\<close>

definition targets ::
  "('r::linordered_field, 'w, 'o) collab \<Rightarrow> 'w \<Rightarrow> 'r \<Rightarrow> 'r transition list \<Rightarrow> error + 'r list" where
  "targets c w g batch =
     (case those_ok (map tensor_max
             (forward c w (map t_next_state batch) (map t_next_acts batch))) of
        Inl e \<Rightarrow> Inl e
      | Inr next_qvals \<Rightarrow>
      (case broadcast2 (\<lambda>q d. q * (1 - d)) next_qvals
              (map (\<lambda>t. if t_done t then 1 else 0) batch) of
        Inl e \<Rightarrow> Inl e
      | Inr zeroed \<Rightarrow>
          broadcast2 (\<lambda>r q. r + q) (map t_reward batch) (map (\<lambda>q. g * q) zeroed)))"

text \<open>
  \<open>Q(s, a)\<close> of the taken actions, each nested in a list of its own, under the
  parameters \<open>w\<close>: lines 126 to 129.
\<close>

definition qvals_taken ::
  "('r, 'w, 'o) collab \<Rightarrow> 'w \<Rightarrow> 'r transition list \<Rightarrow> 'r list" where
  "qvals_taken c w batch =
     concat (forward c w (map t_state batch) (map (\<lambda>t. [t_act t]) batch))"

text \<open>
  \<open>DRRNAgent.update\<close>. \<open>sampled\<close> is what \<open>self.memory.sample(self.batch_size)\<close> returned;
  \<open>Transition(*zip(*transitions))\<close> raises on an empty sample. The loss is differentiated
  in the parameters with the targets held fixed, the gradient is clipped with bound
  \<open>self.clip\<close>, and the optimizer steps with the clipped gradient.
\<close>

definition update ::
  "('r::linordered_field, 'w, 'o) collab \<Rightarrow> 'r transition list \<Rightarrow> ('r, 'w, 'o) agent \<Rightarrow>
   error + ('r option \<times> ('r, 'w, 'o) agent)" where
  "update c sampled s =
     (if int (len (memory s)) < batch_size s then Inr (None, s)
      else if sampled = [] then Inl TypeError
      else
        case targets c (network s) (gamma s) sampled of
          Inl e \<Rightarrow> Inl e
        | Inr tg \<Rightarrow>
            let loss_of = (\<lambda>w. smooth_l1_loss (qvals_taken c w sampled) tg) in
            (case loss_of (network s) of
               Inl e \<Rightarrow> Inl e
             | Inr l \<Rightarrow>
                 let grad = autograd c (\<lambda>w. case loss_of w of Inl e \<Rightarrow> 0 | Inr v \<Rightarrow> v) (network s);
                     clipped = clip_grad_norm c (clip s) grad;
                     stepped = optimizer_step c (optimizer s) clipped (network s)
                 in Inr (Some l, s\<lparr>network := snd stepped, optimizer := fst stepped\<rparr>)))"

section \<open>DRRN agent: checkpoints and the training cycle\<close>

text \<open>
  The files under \<open>saving_path\<close>: \<open>None\<close> is a file that is missing or cannot be read back.
  Writing a file is taken to succeed.
\<close>

record ('r, 'w, 'o) disk =
  model_checkpoint :: "'w option"
  optimizer_checkpoint :: "'o option"
  memory_pkl :: "'r replay_memory option"

definition save :: "('r, 'w, 'o) agent \<Rightarrow> ('r, 'w, 'o) disk \<Rightarrow> ('r, 'w, 'o) disk" where
  "save s d =
     d\<lparr>model_checkpoint := Some (network s),
       optimizer_checkpoint := Some (optimizer s),
       memory_pkl := Some (memory s)\<rparr>"

text \<open>
  \<open>DRRNAgent.load\<close>. The \<open>try\<close> block reads the memory, assigns it, then restores the
  optimizer; \<open>except Exception\<close> prints a message and goes on. The network is restored
  outside the \<open>try\<close>. The second component of the result is what was printed.
\<close>

definition load_message :: string where
  "load_message = ''Encountered the following exception when trying to load the memory, an empty memory will be used instead''"

definition load ::
  "('r, 'w, 'o) disk \<Rightarrow> ('r, 'w, 'o) agent \<Rightarrow> error + (('r, 'w, 'o) agent \<times> string list)" where
  "load d s =
     (let tried =
        (case memory_pkl d of
           None \<Rightarrow> (s, [load_message])
         | Some m \<Rightarrow>
             (case optimizer_checkpoint d of
                None \<Rightarrow> (s\<lparr>memory := m\<rparr>, [load_message])
              | Some ost \<Rightarrow> (s\<lparr>memory := m, optimizer := ost\<rparr>, [])))
      in case model_checkpoint d of
           None \<Rightarrow> Inl LoadError
         | Some w \<Rightarrow> Inr ((fst tried)\<lparr>network := w\<rparr>, snd tried))"

text \<open>
  The copy of \<open>self.logs\<close> that \<open>update_parameters\<close> returns: every list-valued entry is
  \<open>v[:-episodes_done]\<close>, and \<open>episodes_done\<close> is the local counter.
\<close>

definition returned_logs :: "'r logs_dict \<Rightarrow> int \<Rightarrow> 'r logs_dict" where
  "returned_logs lg ed =
     lg\<lparr>return_per_episode := py_slice_to (return_per_episode lg) (- ed),
        reshaped_return_per_episode := py_slice_to (reshaped_return_per_episode lg) (- ed),
        reshaped_return_bonus_per_episode :=
          py_slice_to (reshaped_return_bonus_per_episode lg) (- ed),
        num_frames_per_episode := py_slice_to (num_frames_per_episode lg) (- ed),
        episodes_done := ed\<rparr>"

text \<open>
  \<open>DRRNAgent.update_parameters\<close>. \<open>sampler i\<close> are the indices drawn in pass \<open>i\<close> of the
  rollout loop, \<open>sampled\<close> the batch drawn in \<open>update\<close>. The result is the returned logs,
  the agent and the files.
\<close>

definition update_parameters ::
  "('r::linordered_field, 'w, 'o) collab \<Rightarrow> (nat \<Rightarrow> nat list) \<Rightarrow> 'r transition list \<Rightarrow>
   ('r, 'w, 'o) disk \<Rightarrow> ('r, 'w, 'o) agent \<Rightarrow>
   error + ('r logs_dict \<times> ('r, 'w, 'o) agent \<times> ('r, 'w, 'o) disk)" where
  "update_parameters c sampler sampled d s =
     (if n_envs s = 0 then Inl ZeroDivisionError
      else
        case tick_loop c sampler [0..<nat (max_steps s div int (n_envs s))] (s, 0) of
          Inl e \<Rightarrow> Inl e
        | Inr st1 \<Rightarrow>
        (case update c sampled (fst st1) of
          Inl e \<Rightarrow> Inl e
        | Inr (l, s2) \<Rightarrow>
            let s3 = s2\<lparr>inner_counter := inner_counter s2 + 1\<rparr> in
            if save_frequency s3 = 0 then Inl ZeroDivisionError
            else
              let d' = (if inner_counter s3 mod save_frequency s3 = 0 then save s3 d else d);
                  s4 = (case l of
                          None \<Rightarrow> s3
                        | Some v \<Rightarrow> s3\<lparr>logs := (logs s3)\<lparr>loss := v\<rparr>\<rparr>)
              in Inr (returned_logs (logs s4) (snd st1), s4, d')))"

text \<open>
  \<open>DRRNAgent.__init__\<close>. \<open>ms\<close> and \<open>ds\<close> are the missions and the descriptions that
  \<open>env.reset()\<close> returned; \<open>pc\<close> and \<open>nc\<close> are the capacities of the two pools of the new
  memory; \<open>w0\<close> and \<open>o0\<close> are the new network and optimizer.
\<close>

definition DRRNAgent_init ::
  "('r::{zero,plus}, 'w, 'o) collab \<Rightarrow> string list list \<Rightarrow> 'r \<Rightarrow> int \<Rightarrow> nat \<Rightarrow> nat \<Rightarrow> 'r \<Rightarrow> 'w \<Rightarrow> 'o \<Rightarrow>
   int \<Rightarrow> int \<Rightarrow> string list \<Rightarrow> string list list \<Rightarrow> error + ('r, 'w, 'o) agent" where
  "DRRNAgent_init c sgs g bs pc nc cl w0 o0 ms_max sf ms ds =
     (let n = length ms in
      if \<not> (n \<le> length ds \<and> n \<le> length sgs) then Inl IndexError
      else
        let oq = map (\<lambda>j. deque_append 3 [] (ds ! j)) [0..<n];
            aq = replicate n []
        in Inr
          \<lparr>subgoals = sgs, gamma = g, batch_size = bs,
           memory = \<lparr>priority_pool = [], normal_pool = [],
                     priority_capacity = pc, normal_capacity = nc\<rparr>,
           clip = cl, network = w0, optimizer = o0, max_steps = ms_max,
           env = [], obs = ms, n_envs = n, obs_queue = oq, acts_queue = aq,
           states = build_state c
             (map (\<lambda>j. generate_prompt c (ms ! j) (sgs ! j) (oq ! j) (aq ! j)) [0..<n]),
           encoded_actions = map (map (encode c)) sgs,
           logs = \<lparr>return_per_episode = [], reshaped_return_per_episode = [],
                   reshaped_return_bonus_per_episode = [], num_frames_per_episode = [],
                   num_frames = ms_max, episodes_done = 0, entropy = 0, policy_loss = 0,
                   value_loss = 0, grad_norm = 0, loss = 0\<rparr>,
           returns = replicate n 0, reshaped_returns = replicate n 0,
           frames_per_episode = replicate n 0,
           save_frequency = sf, inner_counter = 0\<rparr>)"

section \<open>PPO updater: data\<close>

text \<open>
  The two checkpoint generations of the PPO path are directories of files; a file holds
  the state of the model, the state of the optimizer, or bytes that cannot be read back.
\<close>

datatype ('w, 'o) ckpt_file = ModelState 'w | OptimizerState 'o | Corrupted

type_synonym ('w, 'o) directory = "string \<rightharpoonup> ('w, 'o) ckpt_file"

record ('w, 'o, 'e) ppo_files =
  last_dir :: "('w, 'o) directory option"
  backup_dir :: "('w, 'o) directory option"
  pretrained_bin :: "'e option"
  distrib_csv :: "real list list"

text \<open>
  \<open>PPOUpdater\<close>: the model, and the attributes that \<open>hasattr\<close> tests (\<open>optimizer\<close> is
  \<open>None\<close> until it is first assigned; the three flags are absent until set).
\<close>

record ('w, 'o) updater =
  llm_module :: 'w
  ppo_optimizer :: "'o option"
  is_embedding_loaded :: bool
  is_loaded :: bool
  save_first_last_set :: bool

text \<open>A tensor of log-probabilities: one per sample, or one row per sample.\<close>

datatype tensor = Vec "real list" | Mat "real list list"

text \<open>\<open>sb\<close>: the columns of \<open>kwargs["exps"]\<close> at \<open>_current_batch_ids\<close>.\<close>

record batch =
  sb_action :: "nat list"
  sb_value :: "real list"
  sb_log_prob :: "real list"
  sb_advantage :: "real list"
  sb_returnn :: "real list"

text \<open>The keys of \<open>kwargs\<close> that a training call reads.\<close>

record train_args =
  lm_server_update_first_call :: bool
  number_updates :: int
  template_test :: int
  clip_eps :: real
  entropy_coef :: real
  value_loss_coef :: real
  max_grad_norm :: real
  exps :: batch

record kwargs =
  kw_load_embedding :: "bool option"
  kw_load_fine_tuned_version :: "bool option"
  kw_save_first_last :: "bool option"
  kw_lr :: "real option"
  kw_beta1 :: "real option"
  kw_beta2 :: "real option"
  kw_adam_eps :: "real option"
  kw_train :: "train_args option"

text \<open>
  What the language model returns for a batch, read through \<open>Categorical\<close>: the mean
  entropy, the log-probabilities of the stored actions, and the stacked values, one per
  sample.
\<close>

record llm_output =
  out_entropy :: real
  out_log_prob :: tensor
  out_values :: "real list"

text \<open>
  What the updater calls and the sources do not define: \<open>accelerator.process_index\<close>, the
  constructors of Adam, the language model on a batch (as a function of its parameters),
  the scores written to distrib.csv, the embedding weights read into the model, and
  torch's differentiation, gradient norm, clipping and optimizer step.
\<close>

record ('w, 'o, 'e) ppo_collab =
  process_index :: nat
  new_adam :: "'w \<Rightarrow> real \<Rightarrow> real \<Rightarrow> real \<Rightarrow> real \<Rightarrow> 'o"
  default_adam :: "'w \<Rightarrow> 'o"
  load_optimizer_state :: "'o \<Rightarrow> 'o \<Rightarrow> 'o"
  llm_forward :: "'w \<Rightarrow> string list \<Rightarrow> string list list option \<Rightarrow> nat list \<Rightarrow> llm_output"
  test_scores :: "'w \<Rightarrow> string list \<Rightarrow> int \<Rightarrow> real list"
  load_embedding_weights :: "'e \<Rightarrow> 'w \<Rightarrow> 'w"
  ppo_autograd :: "('w \<Rightarrow> real) \<Rightarrow> 'w \<Rightarrow> 'w"
  ppo_grad_norm :: "'w \<Rightarrow> real"
  ppo_clip_grad_norm :: "real \<Rightarrow> 'w \<Rightarrow> 'w"
  ppo_optimizer_step :: "'o \<Rightarrow> 'w \<Rightarrow> 'w \<Rightarrow> 'o \<times> 'w"

datatype losses = Losses (l_loss: real) (l_entropy: real) (l_policy_loss: real)
  (l_value_loss: real) (l_grad_norm: real)

section \<open>PPO updater: files\<close>

text \<open>
  \<open>distutils.dir_util.copy_tree(src, dest)\<close>: raises when \<open>src\<close> is not a directory,
  creates \<open>dest\<close> when it is missing, and copies every file of \<open>src\<close> over \<open>dest\<close>.
\<close>

definition copy_tree ::
  "('w, 'o) directory option \<Rightarrow> ('w, 'o) directory option \<Rightarrow> error + ('w, 'o) directory option" where
  "copy_tree src dest =
     (case src of
        None \<Rightarrow> Inl FileError
      | Some sd \<Rightarrow> Inr (Some ((case dest of None \<Rightarrow> Map.empty | Some dd \<Rightarrow> dd) ++ sd)))"

text \<open>\<open>torch.save(x, dir + "/" + name)\<close>: raises when the directory is missing.\<close>

definition torch_save ::
  "string \<Rightarrow> ('w, 'o) ckpt_file \<Rightarrow> ('w, 'o) directory option \<Rightarrow> error + ('w, 'o) directory option" where
  "torch_save name x dir =
     (case dir of None \<Rightarrow> Inl FileError | Some d \<Rightarrow> Inr (Some (d(name \<mapsto> x))))"

text \<open>\<open>torch.load\<close> followed by \<open>load_state_dict\<close>, for the model and for the optimizer.\<close>

definition load_model :: "('w, 'o) directory option \<Rightarrow> error + 'w" where
  "load_model dir =
     (case dir of
        None \<Rightarrow> Inl LoadError
      | Some d \<Rightarrow>
          (case d ''model.checkpoint'' of
             Some (ModelState w) \<Rightarrow> Inr w
           | _ \<Rightarrow> Inl LoadError))"

definition load_optimizer :: "('w, 'o) directory option \<Rightarrow> error + 'o" where
  "load_optimizer dir =
     (case dir of
        None \<Rightarrow> Inl LoadError
      | Some d \<Rightarrow>
          (case d ''optimizer.checkpoint'' of
             Some (OptimizerState ost) \<Rightarrow> Inr ost
           | _ \<Rightarrow> Inl LoadError))"

text \<open>
  The four statements that restore one generation (lines 201 to 206, and again 210 to
  215): the model, a default Adam on its parameters, the optimizer's state, the flag.
\<close>

definition load_generation ::
  "('w, 'o, 'e) ppo_collab \<Rightarrow> ('w, 'o) directory option \<Rightarrow> ('w, 'o) updater \<Rightarrow>
   error + ('w, 'o) updater" where
  "load_generation c dir u =
     (case load_model dir of
        Inl e \<Rightarrow> Inl e
      | Inr w \<Rightarrow>
          (case load_optimizer dir of
             Inl e \<Rightarrow> Inl e
           | Inr ost \<Rightarrow>
               Inr (u\<lparr>llm_module := w,
                      ppo_optimizer := Some (load_optimizer_state c (default_adam c w) ost),
                      is_loaded := True\<rparr>)))"

text \<open>
  The branch of \<open>load_fine_tuned_version\<close>: \<open>try\<close> the generation \<open>last\<close>; on any exception
  restore \<open>backup\<close> (an exception there propagates) and copy \<open>backup\<close> over \<open>last\<close>.
\<close>

definition load_fine_tuned ::
  "('w, 'o, 'e) ppo_collab \<Rightarrow> ('w, 'o) updater \<Rightarrow> ('w, 'o, 'e) ppo_files \<Rightarrow>
   error + (('w, 'o) updater \<times> ('w, 'o, 'e) ppo_files)" where
  "load_fine_tuned c u fs =
     (case load_generation c (last_dir fs) u of
        Inr u' \<Rightarrow> Inr (u', fs)
      | Inl _ \<Rightarrow>
          (case load_generation c (backup_dir fs) u of
             Inl e \<Rightarrow> Inl e
           | Inr u' \<Rightarrow>
               (case copy_tree (backup_dir fs) (last_dir fs) of
                  Inl e \<Rightarrow> Inl e
                | Inr l \<Rightarrow> Inr (u', fs\<lparr>last_dir := l\<rparr>))))"

text \<open>
  The two \<open>torch.save\<close> calls that write \<open>last/model.checkpoint\<close> and then
  \<open>last/optimizer.checkpoint\<close>; \<open>self.optimizer\<close> raises when the attribute is absent.
\<close>

definition save_last ::
  "('w, 'o) updater \<Rightarrow> ('w, 'o, 'e) ppo_files \<Rightarrow> error + ('w, 'o, 'e) ppo_files" where
  "save_last u fs =
     (case torch_save ''model.checkpoint'' (ModelState (llm_module u)) (last_dir fs) of
        Inl e \<Rightarrow> Inl e
      | Inr l1 \<Rightarrow>
          (case ppo_optimizer u of
             None \<Rightarrow> Inl AttributeError
           | Some ost \<Rightarrow>
               (case torch_save ''optimizer.checkpoint'' (OptimizerState ost) l1 of
                  Inl e \<Rightarrow> Inl e
                | Inr l2 \<Rightarrow> Inr (fs\<lparr>last_dir := l2\<rparr>))))"

text \<open>
  The checkpoint block that ends a training step (lines 290 to 301): on process 1 and on
  the first call of the update, \<open>last\<close> is copied to \<open>backup\<close> and then written.
  \<open>number_updates % 1 == 0\<close> holds for every integer.
\<close>

definition save_checkpoint ::
  "('w, 'o, 'e) ppo_collab \<Rightarrow> train_args \<Rightarrow> ('w, 'o) updater \<Rightarrow> ('w, 'o, 'e) ppo_files \<Rightarrow>
   error + ('w, 'o, 'e) ppo_files" where
  "save_checkpoint c ta u fs =
     (if process_index c = 1 \<and> lm_server_update_first_call ta then
        if number_updates ta mod 1 = 0 then
          (case copy_tree (last_dir fs) (backup_dir fs) of
             Inl e \<Rightarrow> Inl e
           | Inr b \<Rightarrow> save_last u (fs\<lparr>backup_dir := b\<rparr>))
        else Inr fs
      else Inr fs)"

section \<open>PPO updater: the training step\<close>

definition bind_err :: "error + 'a \<Rightarrow> ('a \<Rightarrow> error + 'b) \<Rightarrow> error + 'b" where
  "bind_err m f = (case m of Inl e \<Rightarrow> Inl e | Inr v \<Rightarrow> f v)"

text \<open>\<open>torch.clamp(x, lo, hi)\<close>\<close>

definition clamp :: "real \<Rightarrow> real \<Rightarrow> real \<Rightarrow> real" where
  "clamp x lo hi = min (max x lo) hi"

text \<open>\<open>if len(log_prob.shape) > 1: log_prob = log_prob.sum(dim=-1)\<close>\<close>

definition sum_last_dim :: "tensor \<Rightarrow> real list" where
  "sum_last_dim t = (case t of Vec v \<Rightarrow> v | Mat m \<Rightarrow> map sum_list m)"

text \<open>\<open>ratio\<close>, \<open>surr1\<close> and \<open>surr2\<close> of lines 263 to 265.\<close>

definition ratio :: "tensor \<Rightarrow> batch \<Rightarrow> error + real list" where
  "ratio log_prob sb =
     broadcast2 (\<lambda>a b. exp (a - b)) (sum_last_dim log_prob) (sb_log_prob sb)"

definition surr1 :: "tensor \<Rightarrow> batch \<Rightarrow> error + real list" where
  "surr1 log_prob sb =
     bind_err (ratio log_prob sb) (\<lambda>r. broadcast2 (\<lambda>x a. x * a) r (sb_advantage sb))"

definition surr2 :: "real \<Rightarrow> tensor \<Rightarrow> batch \<Rightarrow> error + real list" where
  "surr2 eps log_prob sb =
     bind_err (ratio log_prob sb)
       (\<lambda>r. broadcast2 (\<lambda>x a. x * a) (map (\<lambda>x. clamp x (1 - eps) (1 + eps)) r)
               (sb_advantage sb))"

text \<open>\<open>policy_loss = -torch.min(surr1, surr2).mean()\<close>\<close>

definition policy_loss_of :: "real \<Rightarrow> tensor \<Rightarrow> batch \<Rightarrow> error + real" where
  "policy_loss_of eps log_prob sb =
     bind_err (surr1 log_prob sb) (\<lambda>s1.
     bind_err (surr2 eps log_prob sb) (\<lambda>s2.
     bind_err (broadcast2 min s1 s2) (\<lambda>m.
     bind_err (mean m) (\<lambda>v. Inr (- v)))))"

text \<open>Lines 268 to 271: the clipped value loss.\<close>

definition value_loss_of :: "real \<Rightarrow> real list \<Rightarrow> batch \<Rightarrow> error + real" where
  "value_loss_of eps vals sb =
     bind_err (broadcast2 (\<lambda>v old. v - old) vals (sb_value sb)) (\<lambda>diff.
     bind_err (broadcast2 (\<lambda>old d. old + d) (sb_value sb) (map (\<lambda>x. clamp x (- eps) eps) diff))
       (\<lambda>value_clipped.
     bind_err (broadcast2 (\<lambda>v r. (v - r)\<^sup>2) vals (sb_returnn sb)) (\<lambda>surr_v1.
     bind_err (broadcast2 (\<lambda>v r. (v - r)\<^sup>2) value_clipped (sb_returnn sb)) (\<lambda>surr_v2.
     bind_err (broadcast2 max surr_v1 surr_v2) mean))))"

text \<open>
  The losses of one batch under the parameters \<open>w\<close>:
  \<open>(loss, entropy, policy_loss, value_loss)\<close>.
\<close>

definition ppo_losses ::
  "('w, 'o, 'e) ppo_collab \<Rightarrow> train_args \<Rightarrow> string list \<Rightarrow> string list list option \<Rightarrow> 'w \<Rightarrow>
   error + (real \<times> real \<times> real \<times> real)" where
  "ppo_losses c ta contexts candidates w =
     (let sb = exps ta; out = llm_forward c w contexts candidates (sb_action sb) in
      bind_err (policy_loss_of (clip_eps ta) (out_log_prob out) sb) (\<lambda>pl.
      bind_err (value_loss_of (clip_eps ta) (out_values out) sb) (\<lambda>vl.
        Inr (pl - entropy_coef ta * out_entropy out + value_loss_coef ta * vl,
             out_entropy out, pl, vl))))"

text \<open>Lines 232 to 245: the scores of the test prompts go to distrib.csv.\<close>

definition write_distrib ::
  "('w, 'o, 'e) ppo_collab \<Rightarrow> train_args \<Rightarrow> string list list option \<Rightarrow> ('w, 'o) updater \<Rightarrow>
   ('w, 'o, 'e) ppo_files \<Rightarrow> error + ('w, 'o, 'e) ppo_files" where
  "write_distrib c ta candidates u fs =
     (if process_index c = 1 \<and> lm_server_update_first_call ta then
        if number_updates ta mod 1 = 0 \<and> candidates \<noteq> None then
          (case candidates of
             Some (c0 # _) \<Rightarrow>
               if template_test ta = 1 \<or> template_test ta = 2
               then Inr (fs\<lparr>distrib_csv := distrib_csv fs @
                              [test_scores c (llm_module u) c0 (template_test ta)]\<rparr>)
               else Inl UnboundLocalError
           | _ \<Rightarrow> Inl IndexError)
        else Inr fs
      else Inr fs)"

text \<open>The \<open>else\<close> branch of \<open>perform_update\<close>: one PPO step, then the checkpoint block.\<close>

definition training_step ::
  "('w, 'o, 'e) ppo_collab \<Rightarrow> string list \<Rightarrow> string list list option \<Rightarrow> train_args \<Rightarrow>
   ('w, 'o) updater \<Rightarrow> ('w, 'o, 'e) ppo_files \<Rightarrow>
   error + (losses option \<times> ('w, 'o) updater \<times> ('w, 'o, 'e) ppo_files)" where
  "training_step c contexts candidates ta u fs =
     bind_err (write_distrib c ta candidates u fs) (\<lambda>fs1.
     bind_err (ppo_losses c ta contexts candidates (llm_module u)) (\<lambda>(l, en, pl, vl).
       case ppo_optimizer u of
         None \<Rightarrow> Inl AttributeError
       | Some ost \<Rightarrow>
           let grad = ppo_autograd c
                 (\<lambda>w. case ppo_losses c ta contexts candidates w of
                         Inl e \<Rightarrow> 0 | Inr x \<Rightarrow> fst x) (llm_module u);
               gn = ppo_grad_norm c grad;
               clipped = ppo_clip_grad_norm c (max_grad_norm ta) grad;
               stepped = ppo_optimizer_step c ost clipped (llm_module u);
               u' = u\<lparr>llm_module := snd stepped, ppo_optimizer := Some (fst stepped)\<rparr>
           in bind_err (save_checkpoint c ta u' fs1) (\<lambda>fs2.
                Inr (Some (Losses l en pl vl gn), u', fs2))))"

text \<open>
  \<open>PPOUpdater.perform_update\<close>. The result \<open>None\<close> is the empty dictionary that the
  loading and saving branches return.
\<close>

definition init_optimizer ::
  "('w, 'o, 'e) ppo_collab \<Rightarrow> kwargs \<Rightarrow> ('w, 'o) updater \<Rightarrow> error + ('w, 'o) updater" where
  "init_optimizer c kw u =
     (if ppo_optimizer u = None \<and> kw_load_fine_tuned_version kw = None then
        (case (kw_lr kw, kw_beta1 kw, kw_beta2 kw, kw_adam_eps kw) of
           (Some lr, Some b1, Some b2, Some ae) \<Rightarrow>
             Inr (u\<lparr>ppo_optimizer := Some (new_adam c (llm_module u) lr b1 b2 ae)\<rparr>)
         | _ \<Rightarrow> Inl KeyError)
      else Inr u)"

definition perform_update ::
  "('w, 'o, 'e) ppo_collab \<Rightarrow> string list \<Rightarrow> string list list option \<Rightarrow> kwargs \<Rightarrow>
   ('w, 'o) updater \<Rightarrow> ('w, 'o, 'e) ppo_files \<Rightarrow>
   error + (losses option \<times> ('w, 'o) updater \<times> ('w, 'o, 'e) ppo_files)" where
  "perform_update c contexts candidates kw u0 fs =
     bind_err (init_optimizer c kw u0) (\<lambda>u.
       if kw_load_embedding kw \<noteq> None \<or> kw_load_fine_tuned_version kw \<noteq> None
          \<or> kw_save_first_last kw \<noteq> None
       then
         if kw_load_embedding kw = Some True \<and> \<not> is_embedding_loaded u then
           (case pretrained_bin fs of
              None \<Rightarrow> Inl LoadError
            | Some e \<Rightarrow>
                let u' = u\<lparr>llm_module := load_embedding_weights c e (llm_module u),
                           is_embedding_loaded := True\<rparr>
                in bind_err (save_last u' fs) (\<lambda>fs'. Inr (None, u', fs')))
         else if kw_load_fine_tuned_version kw = Some True \<and> \<not> is_loaded u then
           bind_err (load_fine_tuned c u fs) (\<lambda>(u', fs'). Inr (None, u', fs'))
         else if kw_save_first_last kw = Some True \<and> \<not> save_first_last_set u then
           bind_err (save_last u fs) (\<lambda>fs'. Inr (None, u\<lparr>save_first_last_set := True\<rparr>, fs'))
         else Inr (None, u, fs)
       else
         (case kw_train kw of
            None \<Rightarrow> Inl KeyError
          | Some ta \<Rightarrow> training_step c contexts candidates ta u fs))"

section \<open>Auxiliary notions for the proofs\<close>

text \<open>
  \<open>stats_only s s'\<close>: the agent \<open>s'\<close> differs from \<open>s\<close> at most in the rollout statistics
  (the accumulators, the history deques and the log); \<open>lists_only lg lg'\<close>: the log \<open>lg'\<close>
  differs from \<open>lg\<close> at most in its four per-episode lists.
\<close>

definition stats_only :: "('r, 'w, 'o) agent \<Rightarrow> ('r, 'w, 'o) agent \<Rightarrow> bool" where
  "stats_only s s' \<longleftrightarrow>
     s' = s\<lparr>logs := logs s', frames_per_episode := frames_per_episode s',
            returns := returns s', reshaped_returns := reshaped_returns s',
            obs_queue := obs_queue s', acts_queue := acts_queue s'\<rparr>"

definition lists_only :: "'r logs_dict \<Rightarrow> 'r logs_dict \<Rightarrow> bool" where
  "lists_only lg lg' \<longleftrightarrow>
     lg' = lg\<lparr>num_frames_per_episode := num_frames_per_episode lg',
              return_per_episode := return_per_episode lg',
              reshaped_return_per_episode := reshaped_return_per_episode lg',
              reshaped_return_bonus_per_episode := reshaped_return_bonus_per_episode lg'\<rparr>"

text \<open>The slots of \<open>js\<close> whose done flag is set in the answer \<open>r\<close>, in the order of \<open>js\<close>.\<close>

definition finished :: "'r step_result \<Rightarrow> nat list \<Rightarrow> nat list" where
  "finished r js = filter (\<lambda>k. dones r ! k) js"

text \<open>
  \<open>slots_post js r rr acts s ed s' ed'\<close>: what visiting the slots \<open>js\<close> once each, with the
  answer \<open>r\<close>, makes of the agent \<open>s\<close> and the counter \<open>ed\<close>.
\<close>

definition slots_post ::
  "nat list \<Rightarrow> ('r::{zero,plus}) step_result \<Rightarrow> 'r list \<Rightarrow> string list \<Rightarrow>
   ('r, 'w, 'o) agent \<Rightarrow> int \<Rightarrow> ('r, 'w, 'o) agent \<Rightarrow> int \<Rightarrow> bool" where
  "slots_post js r rr acts s ed s' ed' \<longleftrightarrow>
     stats_only s s' \<and> lists_only (logs s) (logs s')
     \<and> length (returns s') = length (returns s)
     \<and> length (reshaped_returns s') = length (reshaped_returns s)
     \<and> length (frames_per_episode s') = length (frames_per_episode s)
     \<and> length (obs_queue s') = length (obs_queue s)
     \<and> length (acts_queue s') = length (acts_queue s)
     \<and> (\<forall>k. returns s' ! k =
            (if k \<in> set js then (if dones r ! k then 0 else returns s ! k + rewards r ! k)
             else returns s ! k))
     \<and> (\<forall>k. reshaped_returns s' ! k =
            (if k \<in> set js then (if dones r ! k then 0 else reshaped_returns s ! k + rr ! k)
             else reshaped_returns s ! k))
     \<and> (\<forall>k. frames_per_episode s' ! k =
            (if k \<in> set js then (if dones r ! k then 0 else frames_per_episode s ! k + 1)
             else frames_per_episode s ! k))
     \<and> (\<forall>k. obs_queue s' ! k =
            (if k \<in> set js
             then (if dones r ! k then []
                   else deque_append 3 (obs_queue s ! k) (descriptions r ! k))
             else obs_queue s ! k))
     \<and> (\<forall>k. acts_queue s' ! k =
            (if k \<in> set js
             then (if dones r ! k then [] else deque_append 2 (acts_queue s ! k) (acts ! k))
             else acts_queue s ! k))
     \<and> return_per_episode (logs s') =
         return_per_episode (logs s) @ map (\<lambda>k. returns s ! k + rewards r ! k) (finished r js)
     \<and> reshaped_return_per_episode (logs s') =
         reshaped_return_per_episode (logs s)
         @ map (\<lambda>k. reshaped_returns s ! k + rr ! k) (finished r js)
     \<and> reshaped_return_bonus_per_episode (logs s') =
         reshaped_return_bonus_per_episode (logs s)
         @ map (\<lambda>k. reshaped_returns s ! k + rr ! k) (finished r js)
     \<and> num_frames_per_episode (logs s') =
         num_frames_per_episode (logs s)
         @ map (\<lambda>k. frames_per_episode s ! k + 1) (finished r js)
     \<and> ed' = ed + int (length (finished r js))
     \<and> (\<forall>k \<in> set js. k < length (returns s) \<and> k < length (rewards r)
           \<and> k < length (reshaped_returns s) \<and> k < length rr
           \<and> k < length (frames_per_episode s) \<and> k < length (dones r)
           \<and> k < length (obs_queue s) \<and> k < length (acts_queue s))"

text \<open>
  \<open>acc_inv rs s\<close>: after the environment answered \<open>rs\<close>, the accumulators of every slot of
  \<open>s\<close> hold what the slot received since its last reset.
\<close>

definition acc_inv :: "('r::{zero,plus}) step_result list \<Rightarrow> ('r, 'w, 'o) agent \<Rightarrow> bool" where
  "acc_inv rs s \<longleftrightarrow>
     (\<forall>k < n_envs s. returns s ! k = accumulate (rewards_since_reset k rs)
        \<and> frames_per_episode s ! k = int (length (rewards_since_reset k rs)))"

section \<open>The reward function of the training script\<close>

text \<open>
  \<open>reward_function\<close> of train_language_agent.py, the reshaping that \<open>main\<close> hands to the
  agent: \<open>[20 * reward, 0]\<close> for a positive reward, \<open>[0, 0]\<close> otherwise.
\<close>

definition reward_function :: "('r::linordered_idom) \<Rightarrow> 'r \<times> 'r" where
  "reward_function reward = (if reward > 0 then (20 * reward, 0) else (0, 0))"

section \<open>A small run\<close>

text \<open>
  Two environment slots with the candidate actions \<open>go forward\<close> and \<open>turn left\<close>. The
  environment pays slot 0 a reward of 1/2 on the first step and 1 on the second, where it
  reports the slot done. The tokenizer, the prompt and the network are toy ones; every
  gradient is 1 and a step of the optimizer adds it to the parameters.
\<close>

definition answer_ex :: "nat list list \<Rightarrow> real step_result" where
  "answer_ex calls =
     \<lparr>missions = [''m0'', ''m1''],
      rewards = [if length calls = 1 then 1/2 else 1, 0],
      dones = [length calls = 2, False],
      descriptions = [[''x''], [''y'']]\<rparr>"

definition c_ex :: "(real, nat, nat) collab" where
  "c_ex =
     \<lparr>encode = (\<lambda>txt. [int (length txt)]),
      generate_prompt = (\<lambda>goal sgs ds acts. goal @ concat (concat ds) @ concat acts),
      generate_prompt_french = (\<lambda>goal sgs ds acts. goal @ concat (concat ds) @ concat acts),
      prompt_modifier = (\<lambda>txt d. txt),
      dict_translation_actions = [],
      reshape_reward = reward_function,
      env_step = answer_ex,
      forward = (\<lambda>w sts cands. map (map (\<lambda>a. 0)) cands),
      autograd = (\<lambda>f w. 1),
      clip_grad_norm = (\<lambda>bound g. g),
      optimizer_step = (\<lambda>ost g w. (ost + 1, w + g))\<rparr>"

definition sgs_ex :: "string list list" where
  "sgs_ex = [[''go forward'', ''turn left''], [''go forward'', ''turn left'']]"

definition s0_ex :: "(real, nat, nat) agent" where
  "s0_ex =
     \<lparr>subgoals = sgs_ex, gamma = 9/10, batch_size = 64,
      memory = \<lparr>priority_pool = [], normal_pool = [], priority_capacity = 0,
                normal_capacity = 100\<rparr>,
      clip = 5, network = 0, optimizer = 0, max_steps = 4,
      env = [], obs = [''m0'', ''m1''], n_envs = 2, obs_queue = [[[''x'']], [[''y'']]],
      acts_queue = [[], []],
      states = [State [3], State [3]],
      encoded_actions = [[[10], [9]], [[10], [9]]],
      logs = \<lparr>return_per_episode = [], reshaped_return_per_episode = [],
              reshaped_return_bonus_per_episode = [], num_frames_per_episode = [],
              num_frames = 4, episodes_done = 0, entropy = 0, policy_loss = 0,
              value_loss = 0, grad_norm = 0, loss = 0\<rparr>,
      returns = [0, 0], reshaped_returns = [0, 0], frames_per_episode = [0, 0],
      save_frequency = 1, inner_counter = 0\<rparr>"

text \<open>The accumulators after the first step.\<close>

definition s1_ex :: "(real, nat, nat) agent" where
  "s1_ex =
     s0_ex\<lparr>frames_per_episode := [1, 1], returns := [1/2, 0], reshaped_returns := [10, 0],
           acts_queue := [[''go forward''], [''turn left'']],
           obs_queue := [[[''x''], [''x'']], [[''y''], [''y'']]]\<rparr>"

text \<open>
  The transitions that the loop over \<open>zip(...)\<close> hands to \<open>observe\<close>, in order.
\<close>

definition stored_transitions ::
  "State list \<Rightarrow> int list list \<Rightarrow> 'r list \<Rightarrow> State list \<Rightarrow> int list list list \<Rightarrow> bool list \<Rightarrow>
   'r transition list" where
  "stored_transitions sts ids rr nsts nacts dns =
     map (\<lambda>(st, a, rew, nst, na, dn).
            \<lparr>t_state = st, t_act = a, t_reward = rew, t_next_state = nst,
             t_next_acts = na, t_done = dn\<rparr>)
       (zip sts (zip ids (zip rr (zip nsts (zip nacts dns)))))"

text \<open>
  \<open>grown lg ed lg' ed'\<close>: from \<open>lg\<close> to \<open>lg'\<close> each per-episode list got \<open>ed' - ed\<close> new
  entries at its end and nothing else changed in the log.
  \<open>kept s s'\<close>: the parts of the agent that the rollout never writes are the same in \<open>s\<close>
  and \<open>s'\<close>, and so is the priority pool of the memory.
\<close>

definition grown :: "'r logs_dict \<Rightarrow> int \<Rightarrow> 'r logs_dict \<Rightarrow> int \<Rightarrow> bool" where
  "grown lg ed lg' ed' \<longleftrightarrow>
     lists_only lg lg' \<and> ed \<le> ed'
     \<and> (\<exists>xs. return_per_episode lg' = return_per_episode lg @ xs
              \<and> length xs = nat (ed' - ed))
     \<and> (\<exists>xs. reshaped_return_per_episode lg' = reshaped_return_per_episode lg @ xs
              \<and> length xs = nat (ed' - ed))
     \<and> (\<exists>xs. reshaped_return_bonus_per_episode lg' =
                reshaped_return_bonus_per_episode lg @ xs
              \<and> length xs = nat (ed' - ed))
     \<and> (\<exists>xs. num_frames_per_episode lg' = num_frames_per_episode lg @ xs
              \<and> length xs = nat (ed' - ed))"

definition kept :: "('r, 'w, 'o) agent \<Rightarrow> ('r, 'w, 'o) agent \<Rightarrow> bool" where
  "kept s s' \<longleftrightarrow>
     network s' = network s \<and> optimizer s' = optimizer s \<and> batch_size s' = batch_size s
     \<and> gamma s' = gamma s \<and> clip s' = clip s \<and> max_steps s' = max_steps s
     \<and> save_frequency s' = save_frequency s \<and> inner_counter s' = inner_counter s
     \<and> n_envs s' = n_envs s \<and> subgoals s' = subgoals s
     \<and> encoded_actions s' = encoded_actions s
     \<and> priority_pool (memory s') = priority_pool (memory s)"

text \<open>
  One call of \<open>update_parameters\<close> on this run: two passes of the rollout loop with the
  sampled indices \<open>[0, 1]\<close> and \<open>[0, 0]\<close>, no files yet. The memory afterwards holds four
  transitions, the agent is \<open>s3_ex\<close>, the returned logs are \<open>lg_ex\<close> and the files
  \<open>d3_ex\<close>.
\<close>

definition sampler_ex :: "nat \<Rightarrow> nat list" where
  "sampler_ex i = (if i = 0 then [0, 1] else [0, 0])"

definition d_ex :: "(real, nat, nat) disk" where
  "d_ex = \<lparr>model_checkpoint = None, optimizer_checkpoint = None, memory_pkl = None\<rparr>"

definition mem1_ex :: "real replay_memory" where
  "mem1_ex =
     \<lparr>priority_pool = [],
      normal_pool =
        [\<lparr>t_state = State [3], t_act = [10], t_reward = 10, t_next_state = State [14],
          t_next_acts = [[10], [9]], t_done = False\<rparr>,
         \<lparr>t_state = State [3], t_act = [9], t_reward = 0, t_next_state = State [13],
          t_next_acts = [[10], [9]], t_done = False\<rparr>],
      priority_capacity = 0, normal_capacity = 100\<rparr>"

definition mem_ex :: "real replay_memory" where
  "mem_ex =
     mem1_ex\<lparr>normal_pool := normal_pool mem1_ex @
        [\<lparr>t_state = State [14], t_act = [10], t_reward = 20, t_next_state = State [2],
          t_next_acts = [[10], [9]], t_done = True\<rparr>,
         \<lparr>t_state = State [13], t_act = [10], t_reward = 0, t_next_state = State [24],
          t_next_acts = [[10], [9]], t_done = False\<rparr>]\<rparr>"

definition t1_ex :: "(real, nat, nat) agent" where
  "t1_ex = s1_ex\<lparr>memory := mem1_ex, env := [[0, 1]], states := [State [14], State [13]]\<rparr>"

definition t2_ex :: "(real, nat, nat) agent" where
  "t2_ex =
     t1_ex\<lparr>logs := (logs t1_ex)
              \<lparr>num_frames_per_episode := [2], return_per_episode := [3/2],
               reshaped_return_per_episode := [30],
               reshaped_return_bonus_per_episode := [30]\<rparr>,
           frames_per_episode := [0, 2], returns := [0, 0], reshaped_returns := [0, 0],
           obs_queue := [[], [[''y''], [''y''], [''y'']]],
           acts_queue := [[], [''turn left'', ''go forward'']],
           memory := mem_ex, env := [[0, 1], [0, 0]], states := [State [2], State [24]]\<rparr>"

definition s3_ex :: "(real, nat, nat) agent" where
  "s3_ex = t2_ex\<lparr>inner_counter := 1\<rparr>"

definition lg_ex :: "real logs_dict" where
  "lg_ex = (logs s0_ex)\<lparr>episodes_done := 1\<rparr>"

definition d3_ex :: "(real, nat, nat) disk" where
  "d3_ex = \<lparr>model_checkpoint = Some 0, optimizer_checkpoint = Some 0, memory_pkl = Some mem_ex\<rparr>"

text \<open>
  Any number of training cycles: \<open>run_agent\<close> calls \<open>algo.update_parameters()\<close> once per
  pass of its \<open>while\<close> loop; each cycle has its own sampled indices and sampled batch.
\<close>

fun cycles ::
  "('r::linordered_field, 'w, 'o) collab \<Rightarrow> ((nat \<Rightarrow> nat list) \<times> 'r transition list) list \<Rightarrow>
   ('r, 'w, 'o) agent \<times> ('r, 'w, 'o) disk \<Rightarrow>
   error + (('r, 'w, 'o) agent \<times> ('r, 'w, 'o) disk)" where
  "cycles c [] sd = Inr sd"
| "cycles c (x # xs) sd =
     (case update_parameters c (fst x) (snd x) (snd sd) (fst sd) of
        Inl e \<Rightarrow> Inl e
      | Inr res \<Rightarrow> cycles c xs (snd res))"

text \<open>
  A cycle without rollout steps on the agent \<open>s3_ex\<close>, whose log already holds an episode;
  and one slot with eight candidate actions, where the index 7 is sampled.
\<close>

definition s4_ex :: "(real, nat, nat) agent" where
  "s4_ex = s3_ex\<lparr>max_steps := 0\<rparr>"

definition lg4_ex :: "real logs_dict" where
  "lg4_ex = (logs s0_ex)\<lparr>episodes_done := 0\<rparr>"

definition sgs8_ex :: "string list list" where
  "sgs8_ex = [[''a'', ''bb'', ''ccc'', ''dddd'', ''eeeee'', ''ffffff'', ''ggggggg'', ''hhhhhhhh'']]"

definition s8_ex :: "(real, nat, nat) agent" where
  "s8_ex =
     s0_ex\<lparr>subgoals := sgs8_ex, n_envs := 1, obs_queue := [[[''x'']]], acts_queue := [[]],
           states := [State [3]],
           encoded_actions := [[[1], [2], [3], [4], [5], [6], [7], [8]]],
           returns := [0], reshaped_returns := [0], frames_per_episode := [0],
           obs := [''m0'']\<rparr>"

definition s9_ex :: "(real, nat, nat) agent" where
  "s9_ex =
     s8_ex\<lparr>env := [[6]],
           memory := (memory s8_ex)\<lparr>normal_pool :=
             [\<lparr>t_state = State [3], t_act = [8], t_reward = 10, t_next_state = State [12],
               t_next_acts = [[1], [2], [3], [4], [5], [6], [7], [8]], t_done = False\<rparr>]\<rparr>,
           states := [State [12]],
           obs_queue := [[[''x''], [''x'']]], acts_queue := [[''hhhhhhhh'']],
           returns := [1/2], reshaped_returns := [10], frames_per_episode := [1]\<rparr>"

text \<open>
  Files for \<open>DRRNAgent.load\<close>: the memory file unreadable; the model file unreadable; and
  the optimizer file unreadable.
\<close>

definition da_ex :: "(real, nat, nat) disk" where
  "da_ex = \<lparr>model_checkpoint = Some 7, optimizer_checkpoint = Some 3, memory_pkl = None\<rparr>"

definition db_ex :: "(real, nat, nat) disk" where
  "db_ex = \<lparr>model_checkpoint = None, optimizer_checkpoint = Some 3, memory_pkl = Some mem_ex\<rparr>"

definition dc_ex :: "(real, nat, nat) disk" where
  "dc_ex = \<lparr>model_checkpoint = Some 7, optimizer_checkpoint = None, memory_pkl = Some mem_ex\<rparr>"

section \<open>A small PPO updater\<close>

text \<open>
  Parameters and optimizer states are numbers; a step of the optimizer adds one to each.
  The language model returns the stored log-probabilities of \<open>sb_ex\<close>.
\<close>

text \<open>A batch of two samples.\<close>

definition sb_ex :: batch where
  "sb_ex = \<lparr>sb_action = [0, 1], sb_value = [0, 0], sb_log_prob = [-1, -2],
            sb_advantage = [3, -1], sb_returnn = [1, 1]\<rparr>"

definition pc_ex :: "(nat, nat, nat) ppo_collab" where
  "pc_ex =
     \<lparr>process_index = 1,
      new_adam = (\<lambda>w lr b1 b2 ae. 0),
      default_adam = (\<lambda>w. 0),
      load_optimizer_state = (\<lambda>fresh st. st),
      llm_forward = (\<lambda>w contexts candidates actions.
         \<lparr>out_entropy = 0, out_log_prob = Vec [-1, -2], out_values = [0, 0]\<rparr>),
      test_scores = (\<lambda>w sg t. [0]),
      load_embedding_weights = (\<lambda>e w. e),
      ppo_autograd = (\<lambda>f w. w),
      ppo_grad_norm = (\<lambda>g. 0),
      ppo_clip_grad_norm = (\<lambda>bound g. g),
      ppo_optimizer_step = (\<lambda>ost g w. (ost + 1, w + 1))\<rparr>"

definition u_ex :: "(nat, nat) updater" where
  "u_ex = \<lparr>llm_module = 0, ppo_optimizer = None, is_embedding_loaded = False,
           is_loaded = False, save_first_last_set = False\<rparr>"

text \<open>A \<open>last\<close> generation whose model file is corrupted, with a sound \<open>backup\<close>.\<close>

definition fs_bad_ex :: "(nat, nat, nat) ppo_files" where
  "fs_bad_ex =
     \<lparr>last_dir = Some [''model.checkpoint'' \<mapsto> Corrupted,
                       ''optimizer.checkpoint'' \<mapsto> OptimizerState 4],
      backup_dir = Some [''model.checkpoint'' \<mapsto> ModelState 5,
                         ''optimizer.checkpoint'' \<mapsto> OptimizerState 6],
      pretrained_bin = None, distrib_csv = []\<rparr>"

text \<open>Neither generation can be read.\<close>

definition fs_lost_ex :: "(nat, nat, nat) ppo_files" where
  "fs_lost_ex = fs_bad_ex\<lparr>backup_dir := None\<rparr>"

definition kw_load_ex :: kwargs where
  "kw_load_ex =
     \<lparr>kw_load_embedding = None, kw_load_fine_tuned_version = Some True,
      kw_save_first_last = None, kw_lr = None, kw_beta1 = None, kw_beta2 = None,
      kw_adam_eps = None, kw_train = None\<rparr>"

text \<open>A training call on the coordinator, with both generations in place.\<close>

definition ta_ex :: train_args where
  "ta_ex =
     \<lparr>lm_server_update_first_call = True, number_updates = 3, template_test = 1,
      clip_eps = 1/5, entropy_coef = 1/100, value_loss_coef = 1/2, max_grad_norm = 1,
      exps = sb_ex\<rparr>"

definition kw_train_ex :: kwargs where
  "kw_train_ex =
     \<lparr>kw_load_embedding = None, kw_load_fine_tuned_version = None,
      kw_save_first_last = None, kw_lr = Some (1/1000), kw_beta1 = Some (9/10),
      kw_beta2 = Some (999/1000), kw_adam_eps = Some (1/100000), kw_train = Some ta_ex\<rparr>"

definition u_tr_ex :: "(nat, nat) updater" where
  "u_tr_ex = \<lparr>llm_module = 5, ppo_optimizer = Some 6, is_embedding_loaded = False,
              is_loaded = True, save_first_last_set = False\<rparr>"

definition fs_tr_ex :: "(nat, nat, nat) ppo_files" where
  "fs_tr_ex =
     \<lparr>last_dir = Some [''model.checkpoint'' \<mapsto> ModelState 5,
                       ''optimizer.checkpoint'' \<mapsto> OptimizerState 6],
      backup_dir = Some [''model.checkpoint'' \<mapsto> ModelState 3,
                         ''optimizer.checkpoint'' \<mapsto> OptimizerState 2],
      pretrained_bin = None, distrib_csv = []\<rparr>"

text \<open>The updater and the files after that training call.\<close>

definition u_tr2_ex :: "(nat, nat) updater" where
  "u_tr2_ex = u_tr_ex\<lparr>llm_module := 6, ppo_optimizer := Some 7\<rparr>"

definition fs_tr2_ex :: "(nat, nat, nat) ppo_files" where
  "fs_tr2_ex =
     \<lparr>last_dir = Some [''model.checkpoint'' \<mapsto> ModelState 6,
                       ''optimizer.checkpoint'' \<mapsto> OptimizerState 7],
      backup_dir = Some [''model.checkpoint'' \<mapsto> ModelState 5,
                         ''optimizer.checkpoint'' \<mapsto> OptimizerState 6],
      pretrained_bin = None, distrib_csv = [[0]]\<rparr>"

section \<open>The update of the DRRN engine in the words of the specification\<close>

text \<open>
  The spec's \<open>update()\<close>: per transition, \<open>next_Q_max\<close> is the maximum of the network's
  values over the candidate next actions, zeroed where \<open>done\<close> is true; the target is
  \<open>reward + gamma * next_Q_max\<close>; the prediction is the network's value for the taken
  action presented as the sole candidate; the loss is the smoothed-L1 (Huber) loss
  between predictions and targets, averaged over the batch.
\<close>

definition spec_next_Q_max :: "('r::linorder) list \<Rightarrow> 'r" where
  "spec_next_Q_max vals = Max (set vals)"

definition spec_targets ::
  "('r::linordered_field, 'w, 'o) collab \<Rightarrow> 'w \<Rightarrow> 'r \<Rightarrow> 'r transition list \<Rightarrow> 'r list" where
  "spec_targets c w g batch =
     map (\<lambda>(t, vals). t_reward t + g * (if t_done t then 0 else spec_next_Q_max vals))
       (zip batch (forward c w (map t_next_state batch) (map t_next_acts batch)))"

definition spec_predictions ::
  "('r, 'w, 'o) collab \<Rightarrow> 'w \<Rightarrow> 'r transition list \<Rightarrow> 'r list" where
  "spec_predictions c w batch =
     map hd (forward c w (map t_state batch) (map (\<lambda>t. [t_act t]) batch))"

definition spec_huber_loss :: "('r::linordered_field) list \<Rightarrow> 'r list \<Rightarrow> 'r" where
  "spec_huber_loss preds tgts =
     sum_list (map (\<lambda>(p, t). if \<bar>p - t\<bar> < 1 then (p - t)\<^sup>2 / 2 else \<bar>p - t\<bar> - 1 / 2)
                 (zip preds tgts))
     / of_nat (length preds)"

text \<open>
  Modelled from the spec: the network class \<open>DRRN\<close> (model.py) is not among the sources.
  The spec has it map a state and its candidate actions to one scalar value per
  candidate; for a batch, one list of values per state.
\<close>

definition network_contract :: "('r, 'w, 'o) collab \<Rightarrow> bool" where
  "network_contract c \<longleftrightarrow>
     (\<forall>w sts cands. length sts = length cands \<longrightarrow>
        length (forward c w sts cands) = length cands
        \<and> (\<forall>i < length cands. length (forward c w sts cands ! i) = length (cands ! i)))"

text \<open>
  The agent \<open>t2_ex\<close> with a batch size of 2, a batch of two of its stored transitions, and
  the agent after the update.
\<close>

definition s_up_ex :: "(real, nat, nat) agent" where
  "s_up_ex = t2_ex\<lparr>batch_size := 2\<rparr>"

definition batch_ex :: "real transition list" where
  "batch_ex =
     [\<lparr>t_state = State [14], t_act = [10], t_reward = 20, t_next_state = State [2],
       t_next_acts = [[10], [9]], t_done = True\<rparr>,
      \<lparr>t_state = State [3], t_act = [10], t_reward = 10, t_next_state = State [14],
       t_next_acts = [[10], [9]], t_done = False\<rparr>]"

text \<open>
  \<open>same_accumulators s s'\<close>: the per-slot accumulators and history deques of \<open>s\<close> and \<open>s'\<close>
  are the same. \<open>reached c s rs\<close>: the agent \<open>s\<close> comes from \<open>__init__\<close> by passes of the
  rollout loop of \<open>update_parameters\<close>, passes of the loop of \<open>generate_trajectories\<close>, and
  changes that leave the accumulators alone (the update of the network, the counters, the
  loss in the log), and \<open>rs\<close> are the answers of the environment on the way, oldest first.
\<close>

definition same_accumulators :: "('r, 'w, 'o) agent \<Rightarrow> ('r, 'w, 'o) agent \<Rightarrow> bool" where
  "same_accumulators s s' \<longleftrightarrow>
     n_envs s' = n_envs s \<and> returns s' = returns s
     \<and> reshaped_returns s' = reshaped_returns s
     \<and> frames_per_episode s' = frames_per_episode s
     \<and> obs_queue s' = obs_queue s \<and> acts_queue s' = acts_queue s"

inductive reached ::
  "('r::{zero,plus}, 'w, 'o) collab \<Rightarrow> ('r, 'w, 'o) agent \<Rightarrow> 'r step_result list \<Rightarrow> bool"
  for c :: "('r::{zero,plus}, 'w, 'o) collab" where
  reached_init:
    "DRRNAgent_init c sgs g bs pc nc cl w0 o0 ms_max sf ms ds = Inr s \<Longrightarrow> reached c s []"
| reached_tick:
    "reached c s rs \<Longrightarrow> tick c idxs (s, ed) = Inr (s', ed') \<Longrightarrow>
     reached c s' (rs @ [env_step c (env s')])"
| reached_pass:
    "reached c s rs \<Longrightarrow> trajectory_pass c lsetup dict_modifier idxs (s, ed) = Inr (s', ed') \<Longrightarrow>
     reached c s' (rs @ [env_step c (env s')])"
| reached_other:
    "reached c s rs \<Longrightarrow> same_accumulators s s' \<Longrightarrow> reached c s' rs"

section \<open>The clipped surrogate at ratio one\<close>

lemma broadcast2_same:
  "length xs = length ys \<Longrightarrow> broadcast2 f xs ys = Inr (map (\<lambda>(x, y). f x y) (zip xs ys))"
  by (simp add: broadcast2_def)

lemma ratio_one:
  assumes "sum_last_dim log_prob = sb_log_prob sb"
  shows "ratio log_prob sb = Inr (replicate (length (sb_log_prob sb)) 1)"
proof -
  have "map (\<lambda>(x, y). exp (x - y)) (zip xs xs) = replicate (length xs) (1::real)"
    for xs :: "real list"
    by (induction xs) simp_all
  then show ?thesis using assms by (simp add: ratio_def broadcast2_same)
qed

lemma mult_one_zip:
  "length ys = n \<Longrightarrow> map (\<lambda>(x, a). x * a) (zip (replicate n (1::real)) ys) = ys"
  by (induction ys arbitrary: n) auto

lemma min_self_zip: "map (\<lambda>(x, y). min x y) (zip xs xs) = (xs :: real list)"
  by (induction xs) simp_all

lemma clamp_one: "0 \<le> eps \<Longrightarrow> clamp 1 (1 - eps) (1 + eps) = 1"
  by (simp add: clamp_def)

text \<open>
  Claim C4. In the training branch of \<open>PPOUpdater.perform_update\<close>, when the recomputed
  log-probabilities (summed over the last dimension when they have two) equal the stored
  ones, the ratio is 1 for every sample; then for every \<open>clip_eps \<ge> 0\<close> the unclipped
  surrogate \<open>surr1\<close> and the clipped surrogate \<open>surr2\<close> are the same tensor, namely the
  stored advantages, and the policy loss is minus the mean of the stored advantages. The
  columns of the batch have one entry per sample, and the batch is not empty.
\<close>

theorem ppo_ratio_one:
  assumes "sum_last_dim log_prob = sb_log_prob sb"
    and "length (sb_advantage sb) = length (sb_log_prob sb)"
    and "sb_advantage sb \<noteq> []"
    and "0 \<le> eps"
  shows "ratio log_prob sb = Inr (replicate (length (sb_log_prob sb)) 1)
       \<and> surr1 log_prob sb = Inr (sb_advantage sb)
       \<and> surr2 eps log_prob sb = surr1 log_prob sb
       \<and> policy_loss_of eps log_prob sb
           = Inr (- (sum_list (sb_advantage sb) / real (length (sb_advantage sb))))"
proof -
  have r: "ratio log_prob sb = Inr (replicate (length (sb_log_prob sb)) 1)"
    by (rule ratio_one [OF assms(1)])
  have s1: "surr1 log_prob sb = Inr (sb_advantage sb)"
    using assms(2) by (simp add: surr1_def r bind_err_def broadcast2_same mult_one_zip)
  have s2: "surr2 eps log_prob sb = Inr (sb_advantage sb)"
    using assms(2,4)
    by (simp add: surr2_def r bind_err_def broadcast2_same mult_one_zip clamp_one)
  have pl: "policy_loss_of eps log_prob sb
           = Inr (- (sum_list (sb_advantage sb) / real (length (sb_advantage sb))))"
    using assms(3)
    by (simp add: policy_loss_of_def s1 s2 bind_err_def broadcast2_same min_self_zip mean_def)
  show ?thesis using r s1 s2 pl by simp
qed

theorem ppo_ratio_one_witness:
  "sum_last_dim (Mat [[-1/2, -1/2], [-2, 0]]) = sb_log_prob sb_ex
   \<and> length (sb_advantage sb_ex) = length (sb_log_prob sb_ex)
   \<and> sb_advantage sb_ex \<noteq> [] \<and> (0::real) \<le> 1/5
   \<and> surr1 (Mat [[-1/2, -1/2], [-2, 0]]) sb_ex = Inr [3, -1]
   \<and> surr2 (1/5) (Mat [[-1/2, -1/2], [-2, 0]]) sb_ex = Inr [3, -1]
   \<and> policy_loss_of (1/5) (Mat [[-1/2, -1/2], [-2, 0]]) sb_ex = Inr (- 1)"
proof -
  have h1: "sum_last_dim (Mat [[-1/2, -1/2], [-2, 0]]) = sb_log_prob sb_ex"
    by (simp add: sum_last_dim_def sb_ex_def)
  have h2: "length (sb_advantage sb_ex) = length (sb_log_prob sb_ex)" by (simp add: sb_ex_def)
  have h3: "sb_advantage sb_ex \<noteq> []" by (simp add: sb_ex_def)
  have h4: "(0::real) \<le> 1/5" by simp
  show ?thesis using ppo_ratio_one [OF h1 h2 h3 h4] h1 h2 h3 by (simp add: sb_ex_def)
qed

section \<open>The bookkeeping loop\<close>

lemma slot_done:
  assumes "slot_bookkeeping j r rr acts (s, ed) = Inr (s', ed')" and "dones r ! j"
  shows "s' = s\<lparr>logs := (logs s)
                     \<lparr>num_frames_per_episode := num_frames_per_episode (logs s) @ [frames_per_episode s ! j + 1],
                      return_per_episode := return_per_episode (logs s) @ [returns s ! j + rewards r ! j],
                      reshaped_return_per_episode :=
                        reshaped_return_per_episode (logs s) @ [reshaped_returns s ! j + rr ! j],
                      reshaped_return_bonus_per_episode :=
                        reshaped_return_bonus_per_episode (logs s) @ [reshaped_returns s ! j + rr ! j]\<rparr>,
                  frames_per_episode := (frames_per_episode s)[j := 0],
                  returns := (returns s)[j := 0],
                  reshaped_returns := (reshaped_returns s)[j := 0],
                  obs_queue := (obs_queue s)[j := []],
                  acts_queue := (acts_queue s)[j := []]\<rparr>"
    and "ed' = ed + 1"
  using assms by (simp_all add: slot_bookkeeping_def Let_def split: if_splits)

lemma slot_running:
  assumes "slot_bookkeeping j r rr acts (s, ed) = Inr (s', ed')" and "\<not> dones r ! j"
  shows "s' = s\<lparr>frames_per_episode := (frames_per_episode s)[j := frames_per_episode s ! j + 1],
                  returns := (returns s)[j := returns s ! j + rewards r ! j],
                  reshaped_returns := (reshaped_returns s)[j := reshaped_returns s ! j + rr ! j],
                  acts_queue := (acts_queue s)[j := deque_append 2 (acts_queue s ! j) (acts ! j)],
                  obs_queue :=
                    (obs_queue s)[j := deque_append 3 (obs_queue s ! j) (descriptions r ! j)]\<rparr>"
    and "ed' = ed"
  using assms by (simp_all add: slot_bookkeeping_def Let_def split: if_splits)

lemma slot_bounds:
  assumes "slot_bookkeeping j r rr acts (s, ed) = Inr (s', ed')"
  shows "j < length (returns s)" "j < length (rewards r)" "j < length (reshaped_returns s)"
    "j < length rr" "j < length (frames_per_episode s)" "j < length (dones r)"
    "j < length (obs_queue s)" "j < length (acts_queue s)"
  using assms by (simp_all add: slot_bookkeeping_def Let_def split: if_splits)

lemma stats_only_refl: "stats_only s s"
  by (simp add: stats_only_def)

lemma stats_only_trans:
  assumes "stats_only s s1" and "stats_only s1 s2"
  shows "stats_only s s2"
proof -
  have a: "s1 = s\<lparr>logs := logs s1, frames_per_episode := frames_per_episode s1,
            returns := returns s1, reshaped_returns := reshaped_returns s1,
            obs_queue := obs_queue s1, acts_queue := acts_queue s1\<rparr>"
    using assms(1) by (simp add: stats_only_def)
  have b: "s2 = s1\<lparr>logs := logs s2, frames_per_episode := frames_per_episode s2,
            returns := returns s2, reshaped_returns := reshaped_returns s2,
            obs_queue := obs_queue s2, acts_queue := acts_queue s2\<rparr>"
    using assms(2) by (simp add: stats_only_def)
  show ?thesis
    unfolding stats_only_def by (subst b, subst a) simp
qed

lemma lists_only_refl: "lists_only lg lg"
  by (simp add: lists_only_def)

lemma lists_only_trans:
  assumes "lists_only a b" and "lists_only b c"
  shows "lists_only a c"
proof -
  have x: "b = a\<lparr>num_frames_per_episode := num_frames_per_episode b,
              return_per_episode := return_per_episode b,
              reshaped_return_per_episode := reshaped_return_per_episode b,
              reshaped_return_bonus_per_episode := reshaped_return_bonus_per_episode b\<rparr>"
    using assms(1) by (simp add: lists_only_def)
  have y: "c = b\<lparr>num_frames_per_episode := num_frames_per_episode c,
              return_per_episode := return_per_episode c,
              reshaped_return_per_episode := reshaped_return_per_episode c,
              reshaped_return_bonus_per_episode := reshaped_return_bonus_per_episode c\<rparr>"
    using assms(2) by (simp add: lists_only_def)
  show ?thesis
    unfolding lists_only_def by (subst y, subst x) simp
qed

lemma slot_stats_only:
  assumes "slot_bookkeeping j r rr acts (s, ed) = Inr (s', ed')"
  shows "stats_only s s'" and "lists_only (logs s) (logs s')"
proof -
  show "stats_only s s'"
  proof (cases "dones r ! j")
    case True
    show ?thesis unfolding stats_only_def by (subst slot_done(1) [OF assms True])+ simp
  next
    case False
    show ?thesis unfolding stats_only_def by (subst slot_running(1) [OF assms False])+ simp
  qed
  show "lists_only (logs s) (logs s')"
  proof (cases "dones r ! j")
    case True
    show ?thesis unfolding lists_only_def by (subst slot_done(1) [OF assms True])+ simp
  next
    case False
    show ?thesis unfolding lists_only_def by (subst slot_running(1) [OF assms False])+ simp
  qed
qed


lemma slots_post_nil: "slots_post [] r rr acts s ed s ed"
  by (simp add: slots_post_def stats_only_refl lists_only_refl finished_def)

lemma slots_post_slot:
  assumes "slot_bookkeeping j r rr acts (s, ed) = Inr (s', ed')"
  shows "slots_post [j] r rr acts s ed s' ed'"
proof (cases "dones r ! j")
  case True
  note b = slot_bounds [OF assms]
  note st = slot_done(1) [OF assms True]
  have e: "ed' = ed + 1" by (rule slot_done(2) [OF assms True])
  have f: "returns s' = (returns s)[j := 0]"
    "reshaped_returns s' = (reshaped_returns s)[j := 0]"
    "frames_per_episode s' = (frames_per_episode s)[j := 0]"
    "obs_queue s' = (obs_queue s)[j := []]"
    "acts_queue s' = (acts_queue s)[j := []]"
    "return_per_episode (logs s') = return_per_episode (logs s) @ [returns s ! j + rewards r ! j]"
    "reshaped_return_per_episode (logs s') = reshaped_return_per_episode (logs s) @ [reshaped_returns s ! j + rr ! j]"
    "reshaped_return_bonus_per_episode (logs s') = reshaped_return_bonus_per_episode (logs s) @ [reshaped_returns s ! j + rr ! j]"
    "num_frames_per_episode (logs s') = num_frames_per_episode (logs s) @ [frames_per_episode s ! j + 1]"
    by (subst st, simp)+
  show ?thesis
    unfolding slots_post_def
    using True b e slot_stats_only [OF assms]
    by (simp add: f finished_def nth_list_update)
next
  case False
  note b = slot_bounds [OF assms]
  note st = slot_running(1) [OF assms False]
  have e: "ed' = ed" by (rule slot_running(2) [OF assms False])
  have f: "returns s' = (returns s)[j := returns s ! j + rewards r ! j]"
    "reshaped_returns s' = (reshaped_returns s)[j := reshaped_returns s ! j + rr ! j]"
    "frames_per_episode s' = (frames_per_episode s)[j := frames_per_episode s ! j + 1]"
    "obs_queue s' = (obs_queue s)[j := deque_append 3 (obs_queue s ! j) (descriptions r ! j)]"
    "acts_queue s' = (acts_queue s)[j := deque_append 2 (acts_queue s ! j) (acts ! j)]"
    "return_per_episode (logs s') = return_per_episode (logs s)"
    "reshaped_return_per_episode (logs s') = reshaped_return_per_episode (logs s)"
    "reshaped_return_bonus_per_episode (logs s') = reshaped_return_bonus_per_episode (logs s)"
    "num_frames_per_episode (logs s') = num_frames_per_episode (logs s)"
    by (subst st, simp)+
  show ?thesis
    unfolding slots_post_def
    using False b e slot_stats_only [OF assms]
    by (simp add: f finished_def nth_list_update)
qed

lemma map_finished_cong:
  assumes "\<forall>k \<in> set js. f k = g k"
  shows "map f (finished r js) = map g (finished r js)"
  using assms by (simp add: finished_def)

lemma finished_Nil: "finished r [] = []"
  by (simp add: finished_def)

lemma finished_Cons:
  "finished r (j # js) = (if dones r ! j then [j] else []) @ finished r js"
  by (simp add: finished_def)

lemma slots_postD:
  assumes "slots_post js r rr acts s ed s' ed'"
  shows "stats_only s s'" and "lists_only (logs s) (logs s')"
    and "length (returns s') = length (returns s)"
    and "length (reshaped_returns s') = length (reshaped_returns s)"
    and "length (frames_per_episode s') = length (frames_per_episode s)"
    and "length (obs_queue s') = length (obs_queue s)"
    and "length (acts_queue s') = length (acts_queue s)"
    and "\<And>k. returns s' ! k =
            (if k \<in> set js then (if dones r ! k then 0 else returns s ! k + rewards r ! k)
             else returns s ! k)"
    and "\<And>k. reshaped_returns s' ! k =
            (if k \<in> set js then (if dones r ! k then 0 else reshaped_returns s ! k + rr ! k)
             else reshaped_returns s ! k)"
    and "\<And>k. frames_per_episode s' ! k =
            (if k \<in> set js then (if dones r ! k then 0 else frames_per_episode s ! k + 1)
             else frames_per_episode s ! k)"
    and "\<And>k. obs_queue s' ! k =
            (if k \<in> set js
             then (if dones r ! k then []
                   else deque_append 3 (obs_queue s ! k) (descriptions r ! k))
             else obs_queue s ! k)"
    and "\<And>k. acts_queue s' ! k =
            (if k \<in> set js
             then (if dones r ! k then [] else deque_append 2 (acts_queue s ! k) (acts ! k))
             else acts_queue s ! k)"
    and "return_per_episode (logs s') =
         return_per_episode (logs s) @ map (\<lambda>k. returns s ! k + rewards r ! k) (finished r js)"
    and "reshaped_return_per_episode (logs s') =
         reshaped_return_per_episode (logs s)
         @ map (\<lambda>k. reshaped_returns s ! k + rr ! k) (finished r js)"
    and "reshaped_return_bonus_per_episode (logs s') =
         reshaped_return_bonus_per_episode (logs s)
         @ map (\<lambda>k. reshaped_returns s ! k + rr ! k) (finished r js)"
    and "num_frames_per_episode (logs s') =
         num_frames_per_episode (logs s)
         @ map (\<lambda>k. frames_per_episode s ! k + 1) (finished r js)"
    and "ed' = ed + int (length (finished r js))"
    and "\<And>k. k \<in> set js \<Longrightarrow> k < length (returns s) \<and> k < length (rewards r)
           \<and> k < length (reshaped_returns s) \<and> k < length rr
           \<and> k < length (frames_per_episode s) \<and> k < length (dones r)
           \<and> k < length (obs_queue s) \<and> k < length (acts_queue s)"
  using assms unfolding slots_post_def by blast+

lemma slots_post_Cons:
  assumes a: "slots_post [j] r rr acts s ed s1 ed1"
    and b: "slots_post js r rr acts s1 ed1 s' ed'"
    and n: "j \<notin> set js"
  shows "slots_post (j # js) r rr acts s ed s' ed'"
proof -
  note A = slots_postD [OF a]
  note B = slots_postD [OF b]
  have k1: "\<forall>k \<in> set js. returns s1 ! k = returns s ! k"
    "\<forall>k \<in> set js. reshaped_returns s1 ! k = reshaped_returns s ! k"
    "\<forall>k \<in> set js. frames_per_episode s1 ! k = frames_per_episode s ! k"
    using n by (auto simp: A(8) A(9) A(10))
  have m: "map (\<lambda>k. returns s1 ! k + rewards r ! k) (finished r js)
         = map (\<lambda>k. returns s ! k + rewards r ! k) (finished r js)"
    "map (\<lambda>k. reshaped_returns s1 ! k + rr ! k) (finished r js)
         = map (\<lambda>k. reshaped_returns s ! k + rr ! k) (finished r js)"
    "map (\<lambda>k. frames_per_episode s1 ! k + 1) (finished r js)
         = map (\<lambda>k. frames_per_episode s ! k + 1) (finished r js)"
    by (rule map_finished_cong, simp add: k1)+
  have fj: "finished r [j] = (if dones r ! j then [j] else [])"
    by (simp add: finished_def)
  have c1: "stats_only s s'" by (rule stats_only_trans [OF A(1) B(1)])
  have c2: "lists_only (logs s) (logs s')" by (rule lists_only_trans [OF A(2) B(2)])
  have c3: "length (returns s') = length (returns s)"
    "length (reshaped_returns s') = length (reshaped_returns s)"
    "length (frames_per_episode s') = length (frames_per_episode s)"
    "length (obs_queue s') = length (obs_queue s)"
    "length (acts_queue s') = length (acts_queue s)"
    by (simp_all add: A(3-7) B(3-7))
  have c8: "returns s' ! k =
            (if k \<in> set (j # js) then (if dones r ! k then 0 else returns s ! k + rewards r ! k)
             else returns s ! k)" for k
    using n by (auto simp: B(8) A(8))
  have c9: "reshaped_returns s' ! k =
            (if k \<in> set (j # js) then (if dones r ! k then 0 else reshaped_returns s ! k + rr ! k)
             else reshaped_returns s ! k)" for k
    using n by (auto simp: B(9) A(9))
  have c10: "frames_per_episode s' ! k =
            (if k \<in> set (j # js) then (if dones r ! k then 0 else frames_per_episode s ! k + 1)
             else frames_per_episode s ! k)" for k
    using n by (auto simp: B(10) A(10))
  have c11: "obs_queue s' ! k =
            (if k \<in> set (j # js)
             then (if dones r ! k then []
                   else deque_append 3 (obs_queue s ! k) (descriptions r ! k))
             else obs_queue s ! k)" for k
    using n by (auto simp: B(11) A(11))
  have c12: "acts_queue s' ! k =
            (if k \<in> set (j # js)
             then (if dones r ! k then [] else deque_append 2 (acts_queue s ! k) (acts ! k))
             else acts_queue s ! k)" for k
    using n by (auto simp: B(12) A(12))
  have c13: "return_per_episode (logs s') =
         return_per_episode (logs s) @ map (\<lambda>k. returns s ! k + rewards r ! k) (finished r (j # js))"
    by (simp add: B(13) A(13) m finished_Nil finished_Cons)
  have c14: "reshaped_return_per_episode (logs s') =
         reshaped_return_per_episode (logs s)
         @ map (\<lambda>k. reshaped_returns s ! k + rr ! k) (finished r (j # js))"
    by (simp add: B(14) A(14) m finished_Nil finished_Cons)
  have c15: "reshaped_return_bonus_per_episode (logs s') =
         reshaped_return_bonus_per_episode (logs s)
         @ map (\<lambda>k. reshaped_returns s ! k + rr ! k) (finished r (j # js))"
    by (simp add: B(15) A(15) m finished_Nil finished_Cons)
  have c16: "num_frames_per_episode (logs s') =
         num_frames_per_episode (logs s)
         @ map (\<lambda>k. frames_per_episode s ! k + 1) (finished r (j # js))"
    by (simp add: B(16) A(16) m finished_Nil finished_Cons)
  have c17: "ed' = ed + int (length (finished r (j # js)))"
    by (simp add: B(17) A(17) finished_Nil finished_Cons)
  have c18: "\<forall>k \<in> set (j # js). k < length (returns s) \<and> k < length (rewards r)
           \<and> k < length (reshaped_returns s) \<and> k < length rr
           \<and> k < length (frames_per_episode s) \<and> k < length (dones r)
           \<and> k < length (obs_queue s) \<and> k < length (acts_queue s)"
    using A(18) [of j] B(18) by (auto simp: A(3-7))
  show ?thesis
    unfolding slots_post_def
    using c1 c2 c3 c8 c9 c10 c11 c12 c13 c14 c15 c16 c17 c18 by blast
qed

lemma bookkeeping_loop_post:
  assumes "bookkeeping_loop js r rr acts (s, ed) = Inr (s', ed')" and "distinct js"
  shows "slots_post js r rr acts s ed s' ed'"
  using assms
proof (induction js arbitrary: s ed)
  case Nil
  then show ?case by (simp add: slots_post_nil)
next
  case (Cons j js)
  from Cons.prems(1) obtain s1 ed1 where
    s1: "slot_bookkeeping j r rr acts (s, ed) = Inr (s1, ed1)"
    and l1: "bookkeeping_loop js r rr acts (s1, ed1) = Inr (s', ed')"
    by (auto split: sum.splits)
  from Cons.prems(2) have d: "distinct js" and n: "j \<notin> set js" by simp_all
  show ?case
    by (rule slots_post_Cons [OF slots_post_slot [OF s1] Cons.IH [OF l1 d] n])
qed

lemma stats_only_fields:
  assumes "stats_only s s'"
  shows "memory s' = memory s" "env s' = env s" "n_envs s' = n_envs s"
    "subgoals s' = subgoals s" "states s' = states s"
    "encoded_actions s' = encoded_actions s" "network s' = network s"
    "optimizer s' = optimizer s" "batch_size s' = batch_size s" "gamma s' = gamma s"
    "clip s' = clip s" "max_steps s' = max_steps s" "save_frequency s' = save_frequency s"
    "inner_counter s' = inner_counter s"
proof -
  have a: "s' = s\<lparr>logs := logs s', frames_per_episode := frames_per_episode s',
            returns := returns s', reshaped_returns := reshaped_returns s',
            obs_queue := obs_queue s', acts_queue := acts_queue s'\<rparr>"
    using assms by (simp add: stats_only_def)
  show "memory s' = memory s" "env s' = env s" "n_envs s' = n_envs s"
    "subgoals s' = subgoals s" "states s' = states s"
    "encoded_actions s' = encoded_actions s" "network s' = network s"
    "optimizer s' = optimizer s" "batch_size s' = batch_size s" "gamma s' = gamma s"
    "clip s' = clip s" "max_steps s' = max_steps s" "save_frequency s' = save_frequency s"
    "inner_counter s' = inner_counter s"
    by (subst a, simp)+
qed

lemma lists_only_fields:
  assumes "lists_only lg lg'"
  shows "loss lg' = loss lg" "entropy lg' = entropy lg" "policy_loss lg' = policy_loss lg"
    "value_loss lg' = value_loss lg" "grad_norm lg' = grad_norm lg"
    "num_frames lg' = num_frames lg" "episodes_done lg' = episodes_done lg"
proof -
  have a: "lg' = lg\<lparr>num_frames_per_episode := num_frames_per_episode lg',
              return_per_episode := return_per_episode lg',
              reshaped_return_per_episode := reshaped_return_per_episode lg',
              reshaped_return_bonus_per_episode := reshaped_return_bonus_per_episode lg'\<rparr>"
    using assms by (simp add: lists_only_def)
  show "loss lg' = loss lg" "entropy lg' = entropy lg" "policy_loss lg' = policy_loss lg"
    "value_loss lg' = value_loss lg" "grad_norm lg' = grad_norm lg"
    "num_frames lg' = num_frames lg" "episodes_done lg' = episodes_done lg"
    by (subst a, simp)+
qed

lemma bookkeeping_post:
  assumes "bookkeeping c r acts (s, ed) = Inr (s', ed')"
  shows "slots_post [0..<n_envs s] r (map (\<lambda>x. fst (reshape_reward c x)) (rewards r)) acts
           s ed s' ed'"
  using assms by (simp add: bookkeeping_def bookkeeping_loop_post)

lemma accumulate_snoc: "accumulate (xs @ [x]) = accumulate xs + x"
  by (simp add: accumulate_def)

lemma accumulate_Nil: "accumulate [] = 0"
  by (simp add: accumulate_def)

lemma rewards_since_reset_snoc:
  "rewards_since_reset j (rs @ [r]) =
     (if dones r ! j then [] else rewards_since_reset j rs @ [rewards r ! j])"
  by (simp add: rewards_since_reset_def)

lemma rewards_since_reset_Nil: "rewards_since_reset j [] = []"
  by (simp add: rewards_since_reset_def)

lemma init_fields:
  assumes "DRRNAgent_init c sgs g bs pc nc cl w0 o0 ms_max sf ms ds = Inr s0"
  shows "returns s0 = replicate (n_envs s0) 0"
    and "frames_per_episode s0 = replicate (n_envs s0) 0"
    and "reshaped_returns s0 = replicate (n_envs s0) 0"
    and "priority_pool (memory s0) = []"
    and "normal_pool (memory s0) = []"
    and "env s0 = []"
    and "n_envs s0 = length ms"
    and "encoded_actions s0 = map (map (encode c)) sgs"
    and "subgoals s0 = sgs"
  using assms by (auto simp: DRRNAgent_init_def Let_def split: if_splits)

lemma acc_inv_init:
  assumes "DRRNAgent_init c sgs g bs pc nc cl w0 o0 ms_max sf ms ds = Inr s0"
  shows "acc_inv [] s0"
  unfolding acc_inv_def
  by (simp add: init_fields(1,2) [OF assms] rewards_since_reset_Nil accumulate_Nil)

lemma acc_inv_step:
  assumes inv: "acc_inv rs s" and b: "bookkeeping c r acts (s, ed) = Inr (s', ed')"
  shows "acc_inv (rs @ [r]) s'"
proof -
  note P = slots_postD [OF bookkeeping_post [OF b]]
  have n: "n_envs s' = n_envs s" by (rule stats_only_fields(3) [OF P(1)])
  show ?thesis
    unfolding acc_inv_def n
  proof (intro allI impI)
    fix k assume k: "k < n_envs s"
    then have kin: "k \<in> set [0..<n_envs s]" by simp
    from inv k have i1: "returns s ! k = accumulate (rewards_since_reset k rs)"
      and i2: "frames_per_episode s ! k = int (length (rewards_since_reset k rs))"
      by (simp_all add: acc_inv_def)
    show "returns s' ! k = accumulate (rewards_since_reset k (rs @ [r])) \<and>
          frames_per_episode s' ! k = int (length (rewards_since_reset k (rs @ [r])))"
      using kin
      by (simp add: P(8) P(10) i1 i2 rewards_since_reset_snoc accumulate_snoc accumulate_Nil)
  qed
qed

lemma init_ex:
  "DRRNAgent_init c_ex sgs_ex (9/10) 64 0 100 5 0 0 4 1 [''m0'', ''m1''] [[''x''], [''y'']]
     = Inr s0_ex"
  by (simp add: DRRNAgent_init_def c_ex_def sgs_ex_def s0_ex_def deque_append_def
      build_state_def Let_def upt_rec)

section \<open>One tick of the rollout and the rollout loop\<close>

lemma fold_observe:
  "fold (\<lambda>(st, a, rew, nst, na, dn). observe st a rew nst na dn) xs s =
     s\<lparr>memory := fold (push False)
          (map (\<lambda>(st, a, rew, nst, na, dn).
            \<lparr>t_state = st, t_act = a, t_reward = rew, t_next_state = nst,
             t_next_acts = na, t_done = dn\<rparr>) xs) (memory s)\<rparr>"
proof (induction xs arbitrary: s)
  case Nil
  show ?case by simp
next
  case (Cons x xs)
  obtain st a rew nst na dn where x: "x = (st, a, rew, nst, na, dn)"
    by (cases x) auto
  have "fold (\<lambda>(st, a, rew, nst, na, dn). observe st a rew nst na dn) (x # xs) s
      = fold (\<lambda>(st, a, rew, nst, na, dn). observe st a rew nst na dn) xs
          (observe st a rew nst na dn s)"
    by (simp add: x)
  also have "\<dots> = (observe st a rew nst na dn s)\<lparr>memory := fold (push False)
          (map (\<lambda>(st, a, rew, nst, na, dn).
            \<lparr>t_state = st, t_act = a, t_reward = rew, t_next_state = nst,
             t_next_acts = na, t_done = dn\<rparr>) xs) (memory (observe st a rew nst na dn s))\<rparr>"
    by (rule Cons.IH)
  also have "\<dots> = s\<lparr>memory := fold (push False)
          (map (\<lambda>(st, a, rew, nst, na, dn).
            \<lparr>t_state = st, t_act = a, t_reward = rew, t_next_state = nst,
             t_next_acts = na, t_done = dn\<rparr>) (x # xs)) (memory s)\<rparr>"
    by (simp add: x observe_def)
  finally show ?case .
qed

lemma observe_all_memory:
  "observe_all sts ids rr nsts nacts dns s =
     s\<lparr>memory := fold (push False) (stored_transitions sts ids rr nsts nacts dns) (memory s)\<rparr>"
  by (simp add: observe_all_def stored_transitions_def fold_observe)

lemma tick_cases:
  assumes "tick c idxs (s, ed) = Inr (s', ed')"
  obtains action_ids actions real_a s2 ps where
    "act idxs (encoded_actions s) = Inr (action_ids, idxs)"
    "chosen_actions (subgoals s) idxs = Inr actions"
    "env_indices (subgoals s) idxs = Inr real_a"
    "bookkeeping c (env_step c (env s @ [real_a])) actions (s\<lparr>env := env s @ [real_a]\<rparr>, ed)
       = Inr (s2, ed')"
    "next_prompts c (missions (env_step c (env s @ [real_a]))) s2 = Inr ps"
    "s' = (observe_all (states s) action_ids
             (map (\<lambda>x. fst (reshape_reward c x)) (rewards (env_step c (env s @ [real_a]))))
             (build_state c ps) (encoded_actions s)
             (dones (env_step c (env s @ [real_a]))) s2)\<lparr>states := build_state c ps\<rparr>"
proof -
  from assms obtain action_ids aidx where
    a: "act idxs (encoded_actions s) = Inr (action_ids, aidx)"
    by (auto simp: tick_def split: sum.splits)
  then have e: "aidx = idxs" by (auto simp: act_def split: if_splits)
  from assms a obtain actions where
    ch: "chosen_actions (subgoals s) idxs = Inr actions"
    by (auto simp: tick_def e split: sum.splits)
  from assms a ch obtain real_a where
    ei: "env_indices (subgoals s) idxs = Inr real_a"
    by (auto simp: tick_def e split: sum.splits)
  from assms a ch ei obtain st2 where
    b: "bookkeeping c (env_step c (env s @ [real_a])) actions (s\<lparr>env := env s @ [real_a]\<rparr>, ed)
       = Inr st2"
    by (auto simp: tick_def e Let_def split: sum.splits)
  from assms a ch ei b obtain ps where
    np: "next_prompts c (missions (env_step c (env s @ [real_a]))) (fst st2) = Inr ps"
    by (auto simp: tick_def e Let_def split: sum.splits)
  from assms a ch ei b np have
    r: "s' = (observe_all (states s) action_ids
             (map (\<lambda>x. fst (reshape_reward c x)) (rewards (env_step c (env s @ [real_a]))))
             (build_state c ps) (encoded_actions s)
             (dones (env_step c (env s @ [real_a]))) (fst st2))\<lparr>states := build_state c ps\<rparr>"
    and r2: "ed' = snd st2"
    by (auto simp: tick_def e Let_def)
  show ?thesis
    using that [of action_ids actions real_a "fst st2" ps] a e ch ei b np r r2 by simp
qed

lemma push_False_priority: "priority_pool (push False t m) = priority_pool m"
  by (simp add: push_def)

lemma fold_push_False_priority:
  "priority_pool (fold (push False) ts m) = priority_pool m"
  by (induction ts arbitrary: m) (simp_all add: push_False_priority)

lemma kept_refl: "kept s s"
  by (simp add: kept_def)

lemma kept_trans: "kept s s1 \<Longrightarrow> kept s1 s2 \<Longrightarrow> kept s s2"
  by (simp add: kept_def)

lemma grown_refl: "grown lg ed lg ed"
  by (simp add: grown_def lists_only_refl)

lemma grown_trans:
  assumes a: "grown l0 e0 l1 e1" and b: "grown l1 e1 l2 e2"
  shows "grown l0 e0 l2 e2"
proof -
  have le: "e0 \<le> e1" "e1 \<le> e2" using a b by (simp_all add: grown_def)
  then have n: "nat (e1 - e0) + nat (e2 - e1) = nat (e2 - e0)" by simp
  have lo: "lists_only l0 l2"
    using a b by (auto simp: grown_def intro: lists_only_trans)
  have k: "(\<exists>xs. f l1 = f l0 @ xs \<and> length xs = nat (e1 - e0)) \<Longrightarrow>
           (\<exists>ys. f l2 = f l1 @ ys \<and> length ys = nat (e2 - e1)) \<Longrightarrow>
           (\<exists>zs. f l2 = f l0 @ zs \<and> length zs = nat (e2 - e0))"
    for f :: "'a logs_dict \<Rightarrow> 'b list"
  proof -
    assume "\<exists>xs. f l1 = f l0 @ xs \<and> length xs = nat (e1 - e0)"
      and "\<exists>ys. f l2 = f l1 @ ys \<and> length ys = nat (e2 - e1)"
    then obtain xs ys where "f l1 = f l0 @ xs" "length xs = nat (e1 - e0)"
      "f l2 = f l1 @ ys" "length ys = nat (e2 - e1)" by blast
    then have "f l2 = f l0 @ (xs @ ys) \<and> length (xs @ ys) = nat (e2 - e0)"
      using n by simp
    then show ?thesis by blast
  qed
  show ?thesis
    unfolding grown_def
    using lo le a b
    by (auto simp: grown_def intro!: k)
qed

lemma tick_effect:
  assumes t: "tick c idxs (s, ed) = Inr (s', ed')"
  shows "kept s s'" and "grown (logs s) ed (logs s') ed'"
proof -
  from t obtain action_ids actions real_a s2 ps where
    b: "bookkeeping c (env_step c (env s @ [real_a])) actions
          (s\<lparr>env := env s @ [real_a]\<rparr>, ed) = Inr (s2, ed')"
    and r: "s' = (observe_all (states s) action_ids
             (map (\<lambda>x. fst (reshape_reward c x)) (rewards (env_step c (env s @ [real_a]))))
             (build_state c ps) (encoded_actions s)
             (dones (env_step c (env s @ [real_a]))) s2)\<lparr>states := build_state c ps\<rparr>"
    by (rule tick_cases)
  note P = slots_postD [OF bookkeeping_post [OF b]]
  note F = stats_only_fields [OF P(1)]
  show "kept s s'"
    unfolding kept_def
    by (simp add: r observe_all_memory F fold_push_False_priority)
  have lg: "logs s' = logs s2" by (simp add: r observe_all_memory)
  have e: "nat (ed' - ed) = length (finished (env_step c (env s @ [real_a]))
        [0..<n_envs (s\<lparr>env := env s @ [real_a]\<rparr>)])"
    by (simp add: P(17))
  show "grown (logs s) ed (logs s') ed'"
    unfolding grown_def lg e
    using P(2) P(13) P(14) P(15) P(16) P(17) by simp
qed

lemma tick_loop_effect:
  assumes "tick_loop c sampler is (s, ed) = Inr (s', ed')"
  shows "kept s s' \<and> grown (logs s) ed (logs s') ed'"
  using assms
proof (induction "is" arbitrary: s ed)
  case Nil
  then show ?case by (simp add: kept_refl grown_refl)
next
  case (Cons i "is")
  from Cons.prems obtain s1 ed1 where
    t: "tick c (sampler i) (s, ed) = Inr (s1, ed1)"
    and l: "tick_loop c sampler is (s1, ed1) = Inr (s', ed')"
    by (auto split: sum.splits)
  show ?case
    using tick_effect [OF t] Cons.IH [OF l]
    by (blast intro: kept_trans grown_trans)
qed

lemma update_effect:
  assumes "update c sampled s = Inr (l, s2)"
  shows "logs s2 = logs s" "memory s2 = memory s" "n_envs s2 = n_envs s"
    "save_frequency s2 = save_frequency s" "inner_counter s2 = inner_counter s"
    "batch_size s2 = batch_size s" "env s2 = env s"
  using assms
  by (auto simp: update_def Let_def split: if_splits sum.splits)

lemma update_skips:
  assumes "int (len (memory s)) < batch_size s"
  shows "update c sampled s = Inr (None, s)"
  using assms by (simp add: update_def)

section \<open>The training cycle\<close>

lemma update_parameters_cases:
  assumes "update_parameters c sampler sampled d s = Inr (lg, s', d')"
  obtains s1 ed l s2 where
    "n_envs s \<noteq> 0"
    "tick_loop c sampler [0..<nat (max_steps s div int (n_envs s))] (s, 0) = Inr (s1, ed)"
    "update c sampled s1 = Inr (l, s2)"
    "save_frequency s2 \<noteq> 0"
    "s' = (case l of
             None \<Rightarrow> s2\<lparr>inner_counter := inner_counter s2 + 1\<rparr>
           | Some v \<Rightarrow> s2\<lparr>inner_counter := inner_counter s2 + 1,
                          logs := (logs s2)\<lparr>loss := v\<rparr>\<rparr>)"
    "lg = returned_logs (logs s') ed"
    "d' = (if (inner_counter s2 + 1) mod save_frequency s2 = 0
           then save (s2\<lparr>inner_counter := inner_counter s2 + 1\<rparr>) d else d)"
proof -
  from assms have n: "n_envs s \<noteq> 0"
    by (auto simp: update_parameters_def split: if_splits)
  from assms n obtain st1 where
    tl: "tick_loop c sampler [0..<nat (max_steps s div int (n_envs s))] (s, 0) = Inr st1"
    by (auto simp: update_parameters_def split: sum.splits)
  from assms n tl obtain l s2 where u: "update c sampled (fst st1) = Inr (l, s2)"
    by (auto simp: update_parameters_def split: sum.splits)
  from assms n tl u have sf: "save_frequency s2 \<noteq> 0"
    by (auto simp: update_parameters_def Let_def split: if_splits)
  from assms n tl u sf have
    r1: "s' = (case l of
             None \<Rightarrow> s2\<lparr>inner_counter := inner_counter s2 + 1\<rparr>
           | Some v \<Rightarrow> s2\<lparr>inner_counter := inner_counter s2 + 1,
                          logs := (logs s2)\<lparr>loss := v\<rparr>\<rparr>)"
    and r2: "lg = returned_logs (logs s') (snd st1)"
    and r3: "d' = (if (inner_counter s2 + 1) mod save_frequency s2 = 0
           then save (s2\<lparr>inner_counter := inner_counter s2 + 1\<rparr>) d else d)"
    by (auto simp: update_parameters_def Let_def split: option.splits)
  show ?thesis
    using that [of "fst st1" "snd st1" l s2] n tl u sf r1 r2 r3 by simp
qed

lemma py_slice_to_appended:
  "py_slice_to (l @ xs) (- int (length xs)) = (if xs = [] then [] else l)"
  by (simp add: py_slice_to_def)

lemma returned_logs_simps:
  "return_per_episode (returned_logs lg ed) = py_slice_to (return_per_episode lg) (- ed)"
  "reshaped_return_per_episode (returned_logs lg ed)
     = py_slice_to (reshaped_return_per_episode lg) (- ed)"
  "reshaped_return_bonus_per_episode (returned_logs lg ed)
     = py_slice_to (reshaped_return_bonus_per_episode lg) (- ed)"
  "num_frames_per_episode (returned_logs lg ed)
     = py_slice_to (num_frames_per_episode lg) (- ed)"
  "episodes_done (returned_logs lg ed) = ed"
  "loss (returned_logs lg ed) = loss lg"
  by (simp_all add: returned_logs_def)

lemma slice_of_grown:
  assumes "v' = v @ xs" and "length xs = nat ed" and "0 \<le> ed"
  shows "(ed = 0 \<longrightarrow> py_slice_to v' (- ed) = [])
       \<and> (0 < ed \<longrightarrow> py_slice_to v' (- ed) = v \<and> py_slice_to v' (- ed) = take (length v' - nat ed) v')"
proof -
  have e: "ed = int (length xs)" using assms(2,3) by simp
  show ?thesis
    unfolding assms(1) e py_slice_to_appended by auto
qed

text \<open>
  Claim C3. The logs that \<open>update_parameters\<close> returns hold each per-episode list of
  \<open>self.logs\<close> as \<open>v[:-episodes_done]\<close>. During the cycle every list of \<open>self.logs\<close> gets
  exactly \<open>episodes_done\<close> new entries at its end. With \<open>episodes_done = 0\<close> the returned
  lists are empty; with \<open>episodes_done > 0\<close> they are the lists as they were before the
  cycle, that is \<open>self.logs\<close> without the entries of the episodes that finished in this
  cycle.
\<close>

theorem returned_logs_slices:
  assumes "update_parameters c sampler sampled d s = Inr (lg, s', d')"
  shows "0 \<le> episodes_done lg
       \<and> (\<exists>xs. return_per_episode (logs s') = return_per_episode (logs s) @ xs
                \<and> length xs = nat (episodes_done lg))
       \<and> (\<exists>xs. reshaped_return_per_episode (logs s') = reshaped_return_per_episode (logs s) @ xs
                \<and> length xs = nat (episodes_done lg))
       \<and> (\<exists>xs. reshaped_return_bonus_per_episode (logs s')
                  = reshaped_return_bonus_per_episode (logs s) @ xs
                \<and> length xs = nat (episodes_done lg))
       \<and> (\<exists>xs. num_frames_per_episode (logs s') = num_frames_per_episode (logs s) @ xs
                \<and> length xs = nat (episodes_done lg))
       \<and> return_per_episode lg
           = py_slice_to (return_per_episode (logs s')) (- episodes_done lg)
       \<and> reshaped_return_per_episode lg
           = py_slice_to (reshaped_return_per_episode (logs s')) (- episodes_done lg)
       \<and> reshaped_return_bonus_per_episode lg
           = py_slice_to (reshaped_return_bonus_per_episode (logs s')) (- episodes_done lg)
       \<and> num_frames_per_episode lg
           = py_slice_to (num_frames_per_episode (logs s')) (- episodes_done lg)
       \<and> (episodes_done lg = 0 \<longrightarrow>
             return_per_episode lg = [] \<and> reshaped_return_per_episode lg = []
             \<and> reshaped_return_bonus_per_episode lg = [] \<and> num_frames_per_episode lg = [])
       \<and> (0 < episodes_done lg \<longrightarrow>
             return_per_episode lg = return_per_episode (logs s)
             \<and> reshaped_return_per_episode lg = reshaped_return_per_episode (logs s)
             \<and> reshaped_return_bonus_per_episode lg = reshaped_return_bonus_per_episode (logs s)
             \<and> num_frames_per_episode lg = num_frames_per_episode (logs s))"
proof -
  from assms obtain s1 ed l s2 where
    tl: "tick_loop c sampler [0..<nat (max_steps s div int (n_envs s))] (s, 0) = Inr (s1, ed)"
    and u: "update c sampled s1 = Inr (l, s2)"
    and r1: "s' = (case l of
             None \<Rightarrow> s2\<lparr>inner_counter := inner_counter s2 + 1\<rparr>
           | Some v \<Rightarrow> s2\<lparr>inner_counter := inner_counter s2 + 1,
                          logs := (logs s2)\<lparr>loss := v\<rparr>\<rparr>)"
    and r2: "lg = returned_logs (logs s') ed"
    by (rule update_parameters_cases)
  have g: "grown (logs s) 0 (logs s1) ed"
    using tick_loop_effect [OF tl] by simp
  have l2: "logs s2 = logs s1" by (rule update_effect(1) [OF u])
  have same: "return_per_episode (logs s') = return_per_episode (logs s1)"
    "reshaped_return_per_episode (logs s') = reshaped_return_per_episode (logs s1)"
    "reshaped_return_bonus_per_episode (logs s') = reshaped_return_bonus_per_episode (logs s1)"
    "num_frames_per_episode (logs s') = num_frames_per_episode (logs s1)"
    by (simp_all add: r1 l2 split: option.splits)
  have ed: "episodes_done lg = ed" by (simp add: r2 returned_logs_simps)
  have pos: "0 \<le> ed" using g by (simp add: grown_def)
  from g obtain x1 x2 x3 x4 where
    a1: "return_per_episode (logs s1) = return_per_episode (logs s) @ x1" "length x1 = nat ed"
    and a2: "reshaped_return_per_episode (logs s1) = reshaped_return_per_episode (logs s) @ x2"
      "length x2 = nat ed"
    and a3: "reshaped_return_bonus_per_episode (logs s1)
           = reshaped_return_bonus_per_episode (logs s) @ x3" "length x3 = nat ed"
    and a4: "num_frames_per_episode (logs s1) = num_frames_per_episode (logs s) @ x4"
      "length x4 = nat ed"
    unfolding grown_def by auto
  note k1 = slice_of_grown [OF a1 pos]
  note k2 = slice_of_grown [OF a2 pos]
  note k3 = slice_of_grown [OF a3 pos]
  note k4 = slice_of_grown [OF a4 pos]
  have c1: "return_per_episode lg = py_slice_to (return_per_episode (logs s1)) (- ed)"
    "reshaped_return_per_episode lg = py_slice_to (reshaped_return_per_episode (logs s1)) (- ed)"
    "reshaped_return_bonus_per_episode lg
       = py_slice_to (reshaped_return_bonus_per_episode (logs s1)) (- ed)"
    "num_frames_per_episode lg = py_slice_to (num_frames_per_episode (logs s1)) (- ed)"
    by (simp_all add: r2 returned_logs_simps same)
  show ?thesis
    unfolding ed same c1
    using pos a1 a2 a3 a4 k1 k2 k3 k4 by simp
qed

section \<open>The small run, evaluated\<close>

lemmas ex_defs = c_ex_def answer_ex_def s0_ex_def s1_ex_def sgs_ex_def
  mem1_ex_def mem_ex_def t1_ex_def t2_ex_def s3_ex_def lg_ex_def d3_ex_def d_ex_def
  sampler_ex_def s4_ex_def lg4_ex_def sgs8_ex_def s8_ex_def s9_ex_def s_up_ex_def
  batch_ex_def

lemmas run_defs = tick_def act_def chosen_actions_def env_indices_def bookkeeping_def
  slot_bookkeeping_def next_prompts_def build_state_def observe_all_def observe_def
  push_def fifo_insert_def reward_function_def deque_append_def Let_def upt_rec

lemma tick_ex1: "tick c_ex [0, 1] (s0_ex, 0) = Inr (t1_ex, 0)"
  by (simp add: ex_defs run_defs)

lemma tick_ex2: "tick c_ex [0, 0] (t1_ex, 0) = Inr (t2_ex, 1)"
  by (simp add: ex_defs run_defs)

lemma tick_loop_ex: "tick_loop c_ex sampler_ex [0..<2] (s0_ex, 0) = Inr (t2_ex, 1)"
proof -
  have u: "[0..<2] = [0, Suc 0]" by (simp add: upt_rec)
  have s: "sampler_ex 0 = [0, 1]" "sampler_ex (Suc 0) = [0, 0]" by (simp_all add: sampler_ex_def)
  show ?thesis
    unfolding u by (simp only: tick_loop.simps s tick_ex1 tick_ex2 sum.case)
qed

lemma update_ex: "update c_ex [] t2_ex = Inr (None, t2_ex)"
  by (simp add: update_def len_def ex_defs)

lemma cycle_ex: "update_parameters c_ex sampler_ex [] d_ex s0_ex = Inr (lg_ex, s3_ex, d3_ex)"
proof -
  have n: "n_envs s0_ex = 2" "max_steps s0_ex = 4" by (simp_all add: s0_ex_def)
  have k: "nat (max_steps s0_ex div int (n_envs s0_ex)) = 2" by (simp add: n)
  have f: "save_frequency t2_ex = 1" "inner_counter t2_ex = 0" by (simp_all add: ex_defs)
  have "update_parameters c_ex sampler_ex [] d_ex s0_ex
      = Inr (returned_logs (logs (t2_ex\<lparr>inner_counter := 1\<rparr>)) 1,
             t2_ex\<lparr>inner_counter := 1\<rparr>, save (t2_ex\<lparr>inner_counter := 1\<rparr>) d_ex)"
    unfolding update_parameters_def k tick_loop_ex
    by (simp add: n update_ex f Let_def)
  also have "\<dots> = Inr (lg_ex, s3_ex, d3_ex)"
    by (simp add: returned_logs_def py_slice_to_def save_def ex_defs)
  finally show ?thesis .
qed

lemma tick_ex8: "tick c_ex [7] (s8_ex, 0) = Inr (s9_ex, 0)"
  by (simp add: ex_defs run_defs)

lemma cycle_ex0: "update_parameters c_ex sampler_ex [] d3_ex s4_ex = Inr (lg4_ex, s4_ex\<lparr>inner_counter := 2\<rparr>, d3_ex)"
proof -
  have n: "n_envs s4_ex = 2" "max_steps s4_ex = 0" by (simp_all add: ex_defs)
  have k: "nat (max_steps s4_ex div int (n_envs s4_ex)) = 0" by (simp add: n)
  have f: "save_frequency s4_ex = 1" "inner_counter s4_ex = 1" by (simp_all add: ex_defs)
  have u: "update c_ex [] s4_ex = Inr (None, s4_ex)"
    by (simp add: update_def len_def ex_defs)
  have "update_parameters c_ex sampler_ex [] d3_ex s4_ex
      = Inr (returned_logs (logs (s4_ex\<lparr>inner_counter := 2\<rparr>)) 0,
             s4_ex\<lparr>inner_counter := 2\<rparr>, save (s4_ex\<lparr>inner_counter := 2\<rparr>) d3_ex)"
    unfolding update_parameters_def k
    by (simp add: n u f Let_def)
  also have "\<dots> = Inr (lg4_ex, s4_ex\<lparr>inner_counter := 2\<rparr>, d3_ex)"
    by (simp add: returned_logs_def py_slice_to_def save_def ex_defs)
  finally show ?thesis .
qed

theorem returned_logs_slices_witness:
  "update_parameters c_ex sampler_ex [] d_ex s0_ex = Inr (lg_ex, s3_ex, d3_ex)
   \<and> episodes_done lg_ex = 1
   \<and> return_per_episode (logs s0_ex) = [] \<and> return_per_episode (logs s3_ex) = [3/2]
   \<and> return_per_episode lg_ex = []
   \<and> update_parameters c_ex sampler_ex [] d3_ex s4_ex
       = Inr (lg4_ex, s4_ex\<lparr>inner_counter := 2\<rparr>, d3_ex)
   \<and> episodes_done lg4_ex = 0
   \<and> return_per_episode (logs (s4_ex\<lparr>inner_counter := 2\<rparr>)) = [3/2]
   \<and> return_per_episode lg4_ex = []"
proof -
  note A = returned_logs_slices [OF cycle_ex]
  note B = returned_logs_slices [OF cycle_ex0]
  have e: "episodes_done lg_ex = 1" "episodes_done lg4_ex = 0"
    by (simp_all add: lg_ex_def lg4_ex_def)
  have v: "return_per_episode (logs s0_ex) = []" "return_per_episode (logs s3_ex) = [3/2]"
    "return_per_episode (logs (s4_ex\<lparr>inner_counter := 2\<rparr>)) = [3/2]"
    by (simp_all add: ex_defs)
  from A have "0 < episodes_done lg_ex \<longrightarrow>
      return_per_episode lg_ex = return_per_episode (logs s0_ex)"
    by blast
  then have a: "return_per_episode lg_ex = []" by (simp add: e v)
  from B have "episodes_done lg4_ex = 0 \<longrightarrow> return_per_episode lg4_ex = []"
    by blast
  then have b: "return_per_episode lg4_ex = []" by (simp add: e)
  show ?thesis
    using cycle_ex cycle_ex0 e v a b by simp
qed

section \<open>The memory across training cycles\<close>

lemma update_parameters_kept:
  assumes "update_parameters c sampler sampled d s = Inr (lg, s', d')"
  shows "priority_pool (memory s') = priority_pool (memory s)"
proof -
  from assms obtain s1 ed l s2 where
    tl: "tick_loop c sampler [0..<nat (max_steps s div int (n_envs s))] (s, 0) = Inr (s1, ed)"
    and u: "update c sampled s1 = Inr (l, s2)"
    and r1: "s' = (case l of
             None \<Rightarrow> s2\<lparr>inner_counter := inner_counter s2 + 1\<rparr>
           | Some v \<Rightarrow> s2\<lparr>inner_counter := inner_counter s2 + 1,
                          logs := (logs s2)\<lparr>loss := v\<rparr>\<rparr>)"
    by (rule update_parameters_cases)
  have k: "kept s s1" using tick_loop_effect [OF tl] by simp
  have m: "memory s' = memory s1"
    by (simp add: r1 update_effect(2) [OF u] split: option.splits)
  show ?thesis using k by (simp add: m kept_def)
qed

lemma cycles_priority:
  assumes "cycles c inputs (s, d) = Inr (s', d')"
  shows "priority_pool (memory s') = priority_pool (memory s)"
  using assms
proof (induction inputs arbitrary: s d)
  case Nil
  then show ?case by simp
next
  case (Cons x xs)
  from Cons.prems obtain lg s1 d1 where
    u: "update_parameters c (fst x) (snd x) d s = Inr (lg, s1, d1)"
    and r: "cycles c xs (s1, d1) = Inr (s', d')"
    by (auto split: sum.splits)
  show ?case
    using Cons.IH [OF r] update_parameters_kept [OF u] by simp
qed

text \<open>
  Claim C10. \<open>observe\<close> is the only place where the agent stores a transition, and it
  pushes with the priority flag \<open>False\<close>. From the agent that \<open>__init__\<close> builds, after any
  number of training cycles, the priority pool of the memory is empty and all stored
  transitions are in the non-priority pool; a further \<open>observe\<close> puts its transition
  into the non-priority pool and leaves the priority pool empty.
\<close>

theorem priority_pool_never_used:
  assumes "DRRNAgent_init c sgs g bs pc nc cl w0 o0 ms_max sf ms ds = Inr s0"
    and "cycles c inputs (s0, d) = Inr (s', d')"
  shows "priority_pool (memory s') = []
       \<and> len (memory s') = length (normal_pool (memory s'))
       \<and> (\<forall>st a rew nst nacts dn.
             priority_pool (memory (observe st a rew nst nacts dn s')) = []
             \<and> normal_pool (memory (observe st a rew nst nacts dn s')) =
                 fifo_insert (normal_capacity (memory s')) (normal_pool (memory s'))
                   \<lparr>t_state = st, t_act = a, t_reward = rew, t_next_state = nst,
                    t_next_acts = nacts, t_done = dn\<rparr>)"
proof -
  have p: "priority_pool (memory s') = []"
    using cycles_priority [OF assms(2)] init_fields(4) [OF assms(1)] by simp
  show ?thesis
    by (simp add: p len_def observe_def push_def)
qed

text \<open>
  Claim C8. When the memory holds fewer transitions than \<open>batch_size\<close>, \<open>update\<close> returns
  no value and leaves the agent as it is (memory, network and optimizer included),
  whatever a sample would have been. When the rollout of a cycle ends in such a state,
  \<open>update_parameters\<close> returns, and \<open>logs['loss']\<close> has its previous value both in
  \<open>self.logs\<close> and in the returned logs; network and optimizer are those from before the
  cycle.
\<close>

theorem update_below_batch_size:
  assumes "int (len (memory s1)) < batch_size s1"
  shows "update c sampled s1 = Inr (None, s1)
       \<and> (\<forall>s sampler ed d.
             n_envs s \<noteq> 0 \<and> save_frequency s \<noteq> 0
             \<and> tick_loop c sampler [0..<nat (max_steps s div int (n_envs s))] (s, 0)
                 = Inr (s1, ed) \<longrightarrow>
             (\<exists>lg s' d'. update_parameters c sampler sampled d s = Inr (lg, s', d')
                \<and> loss lg = loss (logs s) \<and> loss (logs s') = loss (logs s)
                \<and> memory s' = memory s1 \<and> network s' = network s
                \<and> optimizer s' = optimizer s))"
proof -
  have u: "update c sampled s1 = Inr (None, s1)"
    by (rule update_skips [OF assms])
  have r: "\<exists>lg s' d'. update_parameters c sampler sampled d s = Inr (lg, s', d')
                \<and> loss lg = loss (logs s) \<and> loss (logs s') = loss (logs s)
                \<and> memory s' = memory s1 \<and> network s' = network s
                \<and> optimizer s' = optimizer s"
    if n: "n_envs s \<noteq> 0" and sf: "save_frequency s \<noteq> 0"
      and tl: "tick_loop c sampler [0..<nat (max_steps s div int (n_envs s))] (s, 0)
                 = Inr (s1, ed)"
    for s :: "('a, 'b, 'c) agent" and sampler ed and d :: "('a, 'b, 'c) disk"
  proof -
    have k: "kept s s1" and g: "grown (logs s) 0 (logs s1) ed"
      using tick_loop_effect [OF tl] by simp_all
    have sf1: "save_frequency s1 \<noteq> 0" using k sf by (simp add: kept_def)
    have lo: "loss (logs s1) = loss (logs s)"
      using g by (simp add: grown_def lists_only_fields(1))
    have "update_parameters c sampler sampled d s
        = Inr (returned_logs (logs s1) ed, s1\<lparr>inner_counter := inner_counter s1 + 1\<rparr>,
               if (inner_counter s1 + 1) mod save_frequency s1 = 0
               then save (s1\<lparr>inner_counter := inner_counter s1 + 1\<rparr>) d else d)"
      by (simp add: update_parameters_def n tl u sf1 Let_def)
    then show ?thesis
      using k lo by (simp add: returned_logs_simps kept_def)
  qed
  show ?thesis using u r by blast
qed

lemma cycles_ex: "cycles c_ex [(sampler_ex, [])] (s0_ex, d_ex) = Inr (s3_ex, d3_ex)"
  by (simp only: cycles.simps fst_conv snd_conv cycle_ex sum.case)

theorem priority_pool_never_used_witness:
  "DRRNAgent_init c_ex sgs_ex (9/10) 64 0 100 5 0 0 4 1 [''m0'', ''m1''] [[''x''], [''y'']]
     = Inr s0_ex
   \<and> cycles c_ex [(sampler_ex, [])] (s0_ex, d_ex) = Inr (s3_ex, d3_ex)
   \<and> priority_pool (memory s3_ex) = []
   \<and> len (memory s3_ex) = 4 \<and> length (normal_pool (memory s3_ex)) = 4"
proof -
  note T = priority_pool_never_used [OF init_ex cycles_ex]
  have l: "length (normal_pool (memory s3_ex)) = 4" by (simp add: ex_defs)
  show ?thesis using T init_ex cycles_ex l by simp
qed

theorem update_below_batch_size_witness:
  "int (len (memory t2_ex)) < batch_size t2_ex
   \<and> n_envs s0_ex \<noteq> 0 \<and> save_frequency s0_ex \<noteq> 0
   \<and> tick_loop c_ex sampler_ex [0..<nat (max_steps s0_ex div int (n_envs s0_ex))] (s0_ex, 0)
       = Inr (t2_ex, 1)
   \<and> update c_ex [] t2_ex = Inr (None, t2_ex)
   \<and> update_parameters c_ex sampler_ex [] d_ex s0_ex = Inr (lg_ex, s3_ex, d3_ex)
   \<and> loss lg_ex = loss (logs s0_ex) \<and> loss (logs s3_ex) = loss (logs s0_ex)
   \<and> memory s3_ex = memory t2_ex"
proof -
  have h: "int (len (memory t2_ex)) < batch_size t2_ex" by (simp add: len_def ex_defs)
  have n: "n_envs s0_ex \<noteq> 0" "save_frequency s0_ex \<noteq> 0" by (simp_all add: s0_ex_def)
  have k: "nat (max_steps s0_ex div int (n_envs s0_ex)) = 2" by (simp add: s0_ex_def)
  have tl: "tick_loop c_ex sampler_ex [0..<nat (max_steps s0_ex div int (n_envs s0_ex))]
              (s0_ex, 0) = Inr (t2_ex, 1)"
    unfolding k by (rule tick_loop_ex)
  note T = update_below_batch_size [OF h, of c_ex "[]"]
  from T have u: "update c_ex [] t2_ex = Inr (None, t2_ex)" by blast
  from T n tl have "\<exists>lg s' d'. update_parameters c_ex sampler_ex [] d_ex s0_ex = Inr (lg, s', d')
                \<and> loss lg = loss (logs s0_ex) \<and> loss (logs s') = loss (logs s0_ex)
                \<and> memory s' = memory t2_ex \<and> network s' = network s0_ex
                \<and> optimizer s' = optimizer s0_ex"
    by blast
  then have r: "loss lg_ex = loss (logs s0_ex) \<and> loss (logs s3_ex) = loss (logs s0_ex)
      \<and> memory s3_ex = memory t2_ex"
    by (simp add: cycle_ex)
  show ?thesis using h n tl u cycle_ex r by simp
qed

section \<open>The index cap at the environment step\<close>

lemma act_Inr:
  assumes "act idxs poss = Inr (ids, idxs')"
  shows "idxs' = idxs" and "length ids = length idxs"
    and "\<And>b. b < length idxs \<Longrightarrow>
           b < length poss \<and> idxs ! b < length (poss ! b) \<and> ids ! b = poss ! b ! (idxs ! b)"
proof -
  from assms have a: "list_all (\<lambda>(b, idx). b < length poss \<and> idx < length (poss ! b))
           (enumerate 0 idxs)"
    and i: "ids = map (\<lambda>(b, idx). poss ! b ! idx) (enumerate 0 idxs)"
    and e: "idxs' = idxs"
    by (auto simp: act_def split: if_splits)
  show "idxs' = idxs" by (rule e)
  show "length ids = length idxs" by (simp add: i)
  fix b assume b: "b < length idxs"
  then have "(b, idxs ! b) \<in> set (enumerate 0 idxs)"
    by (auto simp: in_set_enumerate_eq)
  with a have "b < length poss \<and> idxs ! b < length (poss ! b)"
    by (auto simp: list_all_iff)
  moreover have "ids ! b = poss ! b ! (idxs ! b)"
    using b by (simp add: i nth_enumerate_eq)
  ultimately show "b < length poss \<and> idxs ! b < length (poss ! b) \<and> ids ! b = poss ! b ! (idxs ! b)"
    by simp
qed

lemma env_indices_Inr:
  assumes "env_indices sgs idxs = Inr real_a"
  shows "sgs \<noteq> []"
    and "real_a = (if 6 < length (hd sgs) then map (\<lambda>a. if 6 < a then 6 else a) idxs else idxs)"
  using assms by (auto simp: env_indices_def split: list.splits if_splits)

lemma stored_transitions_length:
  "length (stored_transitions sts ids rr nsts nacts dns) =
     min (length sts) (min (length ids) (min (length rr)
       (min (length nsts) (min (length nacts) (length dns)))))"
  by (simp add: stored_transitions_def)

lemma stored_transitions_act:
  assumes "b < length (stored_transitions sts ids rr nsts nacts dns)"
  shows "t_act (stored_transitions sts ids rr nsts nacts dns ! b) = ids ! b"
  using assms by (simp add: stored_transitions_def)

lemma next_prompts_length:
  assumes "next_prompts c ms s = Inr ps"
  shows "length ps = n_envs s"
  using assms by (auto simp: next_prompts_def Let_def split: if_splits)

text \<open>
  Claim C5. In one pass of the rollout loop of \<open>update_parameters\<close>, when slot 0 has more
  than 6 candidate actions the index array handed to \<open>env.step\<close> is the sampled one with
  every index above 6 replaced by 6; with 6 candidates or fewer it is the sampled array
  itself. The transitions stored through \<open>observe\<close> in that pass carry the encoded action
  at the sampled, unclamped index: the encoded text of that action whenever
  \<open>encoded_actions\<close> are the encoded \<open>subgoals\<close>, as \<open>__init__\<close> sets them.
\<close>

theorem env_indices_clamped:
  assumes "tick c idxs (s, ed) = Inr (s', ed')"
  shows "subgoals s \<noteq> []
       \<and> env s' = env s @ [if 6 < length (hd (subgoals s))
                           then map (\<lambda>a. if 6 < a then 6 else a) idxs else idxs]
       \<and> (\<exists>ts. memory s' = fold (push False) ts (memory s)
              \<and> length ts = min (length (states s)) (min (length idxs)
                   (min (length (rewards (env_step c (env s')))) (min (n_envs s)
                   (min (length (encoded_actions s)) (length (dones (env_step c (env s'))))))))
              \<and> (\<forall>b < length ts.
                    t_act (ts ! b) = encoded_actions s ! b ! (idxs ! b)
                    \<and> (encoded_actions s = map (map (encode c)) (subgoals s) \<longrightarrow>
                         t_act (ts ! b) = encode c (subgoals s ! b ! (idxs ! b)))))"
proof -
  from assms obtain action_ids actions real_a s2 ps where
    a: "act idxs (encoded_actions s) = Inr (action_ids, idxs)"
    and ei: "env_indices (subgoals s) idxs = Inr real_a"
    and b: "bookkeeping c (env_step c (env s @ [real_a])) actions
          (s\<lparr>env := env s @ [real_a]\<rparr>, ed) = Inr (s2, ed')"
    and np: "next_prompts c (missions (env_step c (env s @ [real_a]))) s2 = Inr ps"
    and r: "s' = (observe_all (states s) action_ids
             (map (\<lambda>x. fst (reshape_reward c x)) (rewards (env_step c (env s @ [real_a]))))
             (build_state c ps) (encoded_actions s)
             (dones (env_step c (env s @ [real_a]))) s2)\<lparr>states := build_state c ps\<rparr>"
    by (rule tick_cases)
  note P = slots_postD [OF bookkeeping_post [OF b]]
  note F = stats_only_fields [OF P(1)]
  note A = act_Inr [OF a]
  note E = env_indices_Inr [OF ei]
  define ts where "ts = stored_transitions (states s) action_ids
             (map (\<lambda>x. fst (reshape_reward c x)) (rewards (env_step c (env s @ [real_a]))))
             (build_state c ps) (encoded_actions s)
             (dones (env_step c (env s @ [real_a])))"
  have env': "env s' = env s @ [real_a]"
    by (simp add: r observe_all_memory F)
  have mem': "memory s' = fold (push False) ts (memory s)"
    by (simp add: r observe_all_memory F ts_def)
  have n2: "n_envs s2 = n_envs s" by (simp add: F)
  have len: "length ts = min (length (states s)) (min (length idxs)
                   (min (length (rewards (env_step c (env s')))) (min (n_envs s)
                   (min (length (encoded_actions s)) (length (dones (env_step c (env s'))))))))"
    by (simp add: ts_def stored_transitions_length env' A(2) build_state_def
        next_prompts_length [OF np] n2)
  have acts: "t_act (ts ! b) = encoded_actions s ! b ! (idxs ! b)
        \<and> (encoded_actions s = map (map (encode c)) (subgoals s) \<longrightarrow>
             t_act (ts ! b) = encode c (subgoals s ! b ! (idxs ! b)))"
    if bl: "b < length ts" for b
  proof -
    have bi: "b < length idxs" using bl len by simp
    note Ab = A(3) [OF bi]
    have t: "t_act (ts ! b) = action_ids ! b"
      using bl unfolding ts_def by (rule stored_transitions_act)
    have 1: "t_act (ts ! b) = encoded_actions s ! b ! (idxs ! b)"
      using t Ab by simp
    have 2: "t_act (ts ! b) = encode c (subgoals s ! b ! (idxs ! b))"
      if e: "encoded_actions s = map (map (encode c)) (subgoals s)"
    proof -
      have "b < length (subgoals s)" using Ab e by (metis length_map)
      moreover then have "idxs ! b < length (subgoals s ! b)"
        using Ab e by (metis length_map nth_map)
      ultimately show ?thesis using 1 e by simp
    qed
    show ?thesis using 1 2 by blast
  qed
  show ?thesis
    using E(1) env' E(2) mem' len acts by blast
qed

theorem env_indices_clamped_witness:
  "tick c_ex [7] (s8_ex, 0) = Inr (s9_ex, 0)
   \<and> 6 < length (hd (subgoals s8_ex))
   \<and> env s9_ex = env s8_ex @ [[6]]
   \<and> map t_act (normal_pool (memory s9_ex)) = [encode c_ex ''hhhhhhhh'']
   \<and> subgoals s8_ex ! 0 ! 7 = ''hhhhhhhh''
   \<and> tick c_ex [0, 1] (s0_ex, 0) = Inr (t1_ex, 0)
   \<and> \<not> 6 < length (hd (subgoals s0_ex))
   \<and> env t1_ex = env s0_ex @ [[0, 1]]"
proof -
  note A = env_indices_clamped [OF tick_ex8]
  note B = env_indices_clamped [OF tick_ex1]
  have l: "6 < length (hd (subgoals s8_ex))" "\<not> 6 < length (hd (subgoals s0_ex))"
    by (simp_all add: ex_defs)
  from A l(1) have a: "env s9_ex = env s8_ex @ [[6]]" by simp
  from B l(2) have b: "env t1_ex = env s0_ex @ [[0, 1]]" by simp
  have m: "map t_act (normal_pool (memory s9_ex)) = [encode c_ex ''hhhhhhhh'']"
    "subgoals s8_ex ! 0 ! 7 = ''hhhhhhhh''"
    by (simp_all add: ex_defs)
  show ?thesis using tick_ex8 tick_ex1 l a b m by simp
qed

section \<open>Loading checkpoints\<close>

text \<open>
  Claim C9. \<open>DRRNAgent.load\<close> goes on after a failure to restore the replay memory or
  the optimizer: it prints a message, keeps the agent's own memory and optimizer when the
  memory cannot be read (the optimizer is then not attempted), keeps the agent's own
  optimizer when only the optimizer cannot be read, and restores the network. These are
  the empty memory and the new optimizer of \<open>__init__\<close> when \<open>load\<close> is called on a new
  agent. A failure to restore the network from model.checkpoint is not caught: \<open>load\<close>
  ends with the exception, whatever became of memory and optimizer.
\<close>

theorem load_failures:
  "(model_checkpoint d = None \<longrightarrow> load d s = Inl LoadError)
   \<and> (\<forall>w. model_checkpoint d = Some w \<longrightarrow>
         (\<exists>s' out. load d s = Inr (s', out) \<and> network s' = w
            \<and> (memory_pkl d = None \<longrightarrow>
                  memory s' = memory s \<and> optimizer s' = optimizer s \<and> out = [load_message])
            \<and> (\<forall>m. memory_pkl d = Some m \<and> optimizer_checkpoint d = None \<longrightarrow>
                  memory s' = m \<and> optimizer s' = optimizer s \<and> out = [load_message])
            \<and> (\<forall>m ost. memory_pkl d = Some m \<and> optimizer_checkpoint d = Some ost \<longrightarrow>
                  memory s' = m \<and> optimizer s' = ost \<and> out = [])))
   \<and> (\<forall>sgs g bs pc nc cl w0 o0 ms_max sf ms ds.
         DRRNAgent_init c sgs g bs pc nc cl w0 o0 ms_max sf ms ds = Inr s \<longrightarrow>
         memory s = \<lparr>priority_pool = [], normal_pool = [], priority_capacity = pc,
                     normal_capacity = nc\<rparr> \<and> optimizer s = o0)"
proof -
  have 1: "model_checkpoint d = None \<longrightarrow> load d s = Inl LoadError"
    by (simp add: load_def Let_def)
  have 2: "\<exists>s' out. load d s = Inr (s', out) \<and> network s' = w
            \<and> (memory_pkl d = None \<longrightarrow>
                  memory s' = memory s \<and> optimizer s' = optimizer s \<and> out = [load_message])
            \<and> (\<forall>m. memory_pkl d = Some m \<and> optimizer_checkpoint d = None \<longrightarrow>
                  memory s' = m \<and> optimizer s' = optimizer s \<and> out = [load_message])
            \<and> (\<forall>m ost. memory_pkl d = Some m \<and> optimizer_checkpoint d = Some ost \<longrightarrow>
                  memory s' = m \<and> optimizer s' = ost \<and> out = [])"
    if "model_checkpoint d = Some w" for w
    using that by (cases "memory_pkl d"; cases "optimizer_checkpoint d") (simp_all add: load_def)
  have 3: "memory s = \<lparr>priority_pool = [], normal_pool = [], priority_capacity = pc,
                     normal_capacity = nc\<rparr> \<and> optimizer s = o0"
    if "DRRNAgent_init c sgs g bs pc nc cl w0 o0 ms_max sf ms ds = Inr s"
    for sgs g bs pc nc cl w0 o0 ms_max sf ms ds
    using that by (auto simp: DRRNAgent_init_def Let_def split: if_splits)
  show ?thesis using 1 2 3 by blast
qed

theorem load_failures_witness:
  "DRRNAgent_init c_ex sgs_ex (9/10) 64 0 100 5 0 0 4 1 [''m0'', ''m1''] [[''x''], [''y'']]
     = Inr s0_ex
   \<and> model_checkpoint da_ex = Some 7 \<and> memory_pkl da_ex = None
   \<and> load da_ex s0_ex = Inr (s0_ex\<lparr>network := 7\<rparr>, [load_message])
   \<and> memory s0_ex = \<lparr>priority_pool = [], normal_pool = [], priority_capacity = 0,
                      normal_capacity = 100\<rparr>
   \<and> optimizer s0_ex = 0
   \<and> model_checkpoint db_ex = None \<and> load db_ex s0_ex = Inl LoadError
   \<and> load dc_ex s0_ex = Inr (s0_ex\<lparr>memory := mem_ex, network := 7\<rparr>, [load_message])"
proof -
  note A = load_failures [of da_ex s0_ex c_ex]
  note B = load_failures [of db_ex s0_ex c_ex]
  have h: "model_checkpoint da_ex = Some 7" "memory_pkl da_ex = None"
    "model_checkpoint db_ex = None"
    by (simp_all add: da_ex_def db_ex_def)
  from B h(3) have b: "load db_ex s0_ex = Inl LoadError" by blast
  from A init_ex have i: "memory s0_ex = \<lparr>priority_pool = [], normal_pool = [],
      priority_capacity = 0, normal_capacity = 100\<rparr> \<and> optimizer s0_ex = 0"
    by blast
  have a: "load da_ex s0_ex = Inr (s0_ex\<lparr>network := 7\<rparr>, [load_message])"
    by (simp add: load_def da_ex_def)
  have c: "load dc_ex s0_ex = Inr (s0_ex\<lparr>memory := mem_ex, network := 7\<rparr>, [load_message])"
    by (simp add: load_def dc_ex_def)
  show ?thesis using init_ex h a b c i by simp
qed

section \<open>The two checkpoint generations of the PPO path\<close>

lemma copy_tree_Inr:
  assumes "copy_tree src dest = Inr r"
  shows "\<exists>sd. src = Some sd \<and> r = Some ((case dest of None \<Rightarrow> Map.empty | Some dd \<Rightarrow> dd) ++ sd)"
  using assms by (auto simp: copy_tree_def split: option.splits)

lemma load_generation_Inr:
  assumes "load_generation c dir u = Inr u'"
  shows "\<exists>b w ost. dir = Some b \<and> b ''model.checkpoint'' = Some (ModelState w)
           \<and> b ''optimizer.checkpoint'' = Some (OptimizerState ost)
           \<and> u' = u\<lparr>llm_module := w,
                      ppo_optimizer := Some (load_optimizer_state c (default_adam c w) ost),
                      is_loaded := True\<rparr>"
  using assms
  by (auto simp: load_generation_def load_model_def load_optimizer_def
      split: sum.splits option.splits ckpt_file.splits)

lemma perform_update_load_branch:
  assumes "kw_load_fine_tuned_version kw = Some True" and "\<not> is_loaded u"
    and "kw_load_embedding kw \<noteq> Some True \<or> is_embedding_loaded u"
  shows "perform_update c contexts candidates kw u fs
       = bind_err (load_fine_tuned c u fs) (\<lambda>(u', fs'). Inr (None, u', fs'))"
  using assms by (auto simp: perform_update_def init_optimizer_def bind_err_def)

text \<open>
  Claim C6. \<open>perform_update\<close> is called with \<open>load_fine_tuned_version\<close> set (the updater
  not loaded yet, no embedding to load first), and restoring the generation \<open>last\<close>, the
  model checkpoint and then the optimizer checkpoint, raises. If restoring \<open>backup\<close>
  raises too, that exception leaves \<open>perform_update\<close>. Otherwise the model and the
  optimizer are those of \<open>backup\<close>, and afterwards every file of \<open>backup\<close> has been copied
  over \<open>last\<close>.
\<close>

theorem fine_tuned_fallback:
  assumes "kw_load_fine_tuned_version kw = Some True" and "\<not> is_loaded u"
    and "kw_load_embedding kw \<noteq> Some True \<or> is_embedding_loaded u"
    and "load_generation c (last_dir fs) u = Inl e"
  shows "(\<forall>e'. load_generation c (backup_dir fs) u = Inl e' \<longrightarrow>
            perform_update c contexts candidates kw u fs = Inl e')
       \<and> (\<forall>u'. load_generation c (backup_dir fs) u = Inr u' \<longrightarrow>
            (\<exists>b w ost. backup_dir fs = Some b
               \<and> b ''model.checkpoint'' = Some (ModelState w)
               \<and> b ''optimizer.checkpoint'' = Some (OptimizerState ost)
               \<and> llm_module u' = w
               \<and> ppo_optimizer u' = Some (load_optimizer_state c (default_adam c w) ost)
               \<and> is_loaded u'
               \<and> perform_update c contexts candidates kw u fs =
                   Inr (None, u',
                        fs\<lparr>last_dir :=
                             Some ((case last_dir fs of None \<Rightarrow> Map.empty | Some l \<Rightarrow> l) ++ b)\<rparr>)))"
proof -
  note pu = perform_update_load_branch [OF assms(1-3), of c contexts candidates fs]
  have 1: "perform_update c contexts candidates kw u fs = Inl e'"
    if "load_generation c (backup_dir fs) u = Inl e'" for e'
    using that assms(4) by (simp add: pu load_fine_tuned_def bind_err_def)
  have 2: "\<exists>b w ost. backup_dir fs = Some b
               \<and> b ''model.checkpoint'' = Some (ModelState w)
               \<and> b ''optimizer.checkpoint'' = Some (OptimizerState ost)
               \<and> llm_module u' = w
               \<and> ppo_optimizer u' = Some (load_optimizer_state c (default_adam c w) ost)
               \<and> is_loaded u'
               \<and> perform_update c contexts candidates kw u fs =
                   Inr (None, u',
                        fs\<lparr>last_dir :=
                             Some ((case last_dir fs of None \<Rightarrow> Map.empty | Some l \<Rightarrow> l) ++ b)\<rparr>)"
    if g: "load_generation c (backup_dir fs) u = Inr u'" for u'
  proof -
    from load_generation_Inr [OF g] obtain b w ost where
      b: "backup_dir fs = Some b" "b ''model.checkpoint'' = Some (ModelState w)"
        "b ''optimizer.checkpoint'' = Some (OptimizerState ost)"
      and u': "u' = u\<lparr>llm_module := w,
                      ppo_optimizer := Some (load_optimizer_state c (default_adam c w) ost),
                      is_loaded := True\<rparr>"
      by blast
    have "perform_update c contexts candidates kw u fs =
                   Inr (None, u',
                        fs\<lparr>last_dir :=
                             Some ((case last_dir fs of None \<Rightarrow> Map.empty | Some l \<Rightarrow> l) ++ b)\<rparr>)"
      using g assms(4) by (simp add: pu load_fine_tuned_def bind_err_def copy_tree_def b(1))
    then show ?thesis using b u' by simp
  qed
  show ?thesis using 1 2 by blast
qed

lemmas ppo_ex_defs = pc_ex_def u_ex_def fs_bad_ex_def fs_lost_ex_def kw_load_ex_def
  ta_ex_def kw_train_ex_def u_tr_ex_def fs_tr_ex_def sb_ex_def u_tr2_ex_def fs_tr2_ex_def

lemma map_add_covered: "dom b \<subseteq> dom l \<Longrightarrow> b ++ l = l"
  by (auto simp: map_add_def fun_eq_iff split: option.splits)

theorem fine_tuned_fallback_witness:
  "kw_load_fine_tuned_version kw_load_ex = Some True \<and> \<not> is_loaded u_ex
   \<and> kw_load_embedding kw_load_ex \<noteq> Some True
   \<and> load_generation pc_ex (last_dir fs_bad_ex) u_ex = Inl LoadError
   \<and> load_generation pc_ex (backup_dir fs_bad_ex) u_ex
       = Inr (u_ex\<lparr>llm_module := 5, ppo_optimizer := Some 6, is_loaded := True\<rparr>)
   \<and> perform_update pc_ex [] None kw_load_ex u_ex fs_bad_ex
       = Inr (None, u_ex\<lparr>llm_module := 5, ppo_optimizer := Some 6, is_loaded := True\<rparr>,
              fs_bad_ex\<lparr>last_dir := backup_dir fs_bad_ex\<rparr>)
   \<and> load_generation pc_ex (last_dir fs_lost_ex) u_ex = Inl LoadError
   \<and> load_generation pc_ex (backup_dir fs_lost_ex) u_ex = Inl LoadError
   \<and> perform_update pc_ex [] None kw_load_ex u_ex fs_lost_ex = Inl LoadError"
proof -
  have h: "kw_load_fine_tuned_version kw_load_ex = Some True" "\<not> is_loaded u_ex"
    "kw_load_embedding kw_load_ex \<noteq> Some True \<or> is_embedding_loaded u_ex"
    by (simp_all add: ppo_ex_defs)
  have l1: "load_generation pc_ex (last_dir fs_bad_ex) u_ex = Inl LoadError"
    and l2: "load_generation pc_ex (last_dir fs_lost_ex) u_ex = Inl LoadError"
    by (simp_all add: load_generation_def load_model_def ppo_ex_defs)
  have b1: "load_generation pc_ex (backup_dir fs_bad_ex) u_ex
       = Inr (u_ex\<lparr>llm_module := 5, ppo_optimizer := Some 6, is_loaded := True\<rparr>)"
    by (simp add: load_generation_def load_model_def load_optimizer_def ppo_ex_defs)
  have b2: "load_generation pc_ex (backup_dir fs_lost_ex) u_ex = Inl LoadError"
    by (simp add: load_generation_def load_model_def ppo_ex_defs)
  note A = fine_tuned_fallback [OF h l1, of "[]" None]
  note B = fine_tuned_fallback [OF h l2, of "[]" None]
  from B b2 have r2: "perform_update pc_ex [] None kw_load_ex u_ex fs_lost_ex = Inl LoadError"
    by blast
  from A b1 obtain b where bb: "backup_dir fs_bad_ex = Some b"
    and p: "perform_update pc_ex [] None kw_load_ex u_ex fs_bad_ex
       = Inr (None, u_ex\<lparr>llm_module := 5, ppo_optimizer := Some 6, is_loaded := True\<rparr>,
              fs_bad_ex\<lparr>last_dir :=
                 Some ((case last_dir fs_bad_ex of None \<Rightarrow> Map.empty | Some l \<Rightarrow> l) ++ b)\<rparr>)"
    by blast
  have be: "b = [''model.checkpoint'' \<mapsto> ModelState 5,
                 ''optimizer.checkpoint'' \<mapsto> OptimizerState 6]"
    using bb by (simp add: fs_bad_ex_def)
  have m: "(case last_dir fs_bad_ex of None \<Rightarrow> Map.empty | Some l \<Rightarrow> l) ++ b = b"
    by (rule map_add_covered) (simp add: fs_bad_ex_def be)
  have r1: "perform_update pc_ex [] None kw_load_ex u_ex fs_bad_ex
       = Inr (None, u_ex\<lparr>llm_module := 5, ppo_optimizer := Some 6, is_loaded := True\<rparr>,
              fs_bad_ex\<lparr>last_dir := backup_dir fs_bad_ex\<rparr>)"
    using p unfolding m bb by simp
  show ?thesis using h(1,2) l1 l2 b1 b2 r1 r2 by (simp add: kw_load_ex_def)
qed

lemma write_distrib_dirs:
  assumes "write_distrib c ta candidates u fs = Inr fs1"
  shows "last_dir fs1 = last_dir fs" and "backup_dir fs1 = backup_dir fs"
  using assms
  by (auto simp: write_distrib_def split: if_splits option.splits list.splits)

lemma save_last_Inr:
  assumes "save_last u fs = Inr fs'"
  shows "\<exists>l ost. last_dir fs = Some l \<and> ppo_optimizer u = Some ost
           \<and> fs' = fs\<lparr>last_dir := Some (l(''model.checkpoint'' \<mapsto> ModelState (llm_module u),
                                           ''optimizer.checkpoint'' \<mapsto> OptimizerState ost))\<rparr>"
  using assms
  by (auto simp: save_last_def torch_save_def split: option.splits sum.splits)

lemma save_checkpoint_Inr:
  assumes "save_checkpoint c ta u fs = Inr fs'"
    and "process_index c = 1" and "lm_server_update_first_call ta"
  shows "\<exists>l ost. last_dir fs = Some l \<and> ppo_optimizer u = Some ost
           \<and> backup_dir fs' =
               Some ((case backup_dir fs of None \<Rightarrow> Map.empty | Some b \<Rightarrow> b) ++ l)
           \<and> last_dir fs' = Some (l(''model.checkpoint'' \<mapsto> ModelState (llm_module u),
                                     ''optimizer.checkpoint'' \<mapsto> OptimizerState ost))"
proof -
  from assms obtain b where
    ct: "copy_tree (last_dir fs) (backup_dir fs) = Inr b"
    and sl: "save_last u (fs\<lparr>backup_dir := b\<rparr>) = Inr fs'"
    by (auto simp: save_checkpoint_def split: sum.splits)
  from copy_tree_Inr [OF ct] obtain l where
    l: "last_dir fs = Some l"
    and b: "b = Some ((case backup_dir fs of None \<Rightarrow> Map.empty | Some b \<Rightarrow> b) ++ l)"
    by blast
  from save_last_Inr [OF sl] l obtain ost where
    o: "ppo_optimizer u = Some ost"
    and f: "fs' = fs\<lparr>backup_dir := b,
               last_dir := Some (l(''model.checkpoint'' \<mapsto> ModelState (llm_module u),
                                   ''optimizer.checkpoint'' \<mapsto> OptimizerState ost))\<rparr>"
    by auto
  show ?thesis using l o b f by simp
qed

lemma training_step_Inr:
  assumes "training_step c contexts candidates ta u fs = Inr (res, u', fs')"
  shows "\<exists>fs1. write_distrib c ta candidates u fs = Inr fs1
           \<and> save_checkpoint c ta u' fs1 = Inr fs'"
  using assms
  by (auto simp: training_step_def bind_err_def Let_def
      split: sum.splits option.splits prod.splits)

lemma perform_update_train_branch:
  assumes "kw_load_embedding kw = None" and "kw_load_fine_tuned_version kw = None"
    and "kw_save_first_last kw = None" and "kw_train kw = Some ta"
  shows "perform_update c contexts candidates kw u fs
       = bind_err (init_optimizer c kw u) (\<lambda>u1. training_step c contexts candidates ta u1 fs)"
  using assms by (simp add: perform_update_def)

text \<open>
  Claim C7. A training call of \<open>perform_update\<close> on process 1 with the first-call flag set,
  when it returns, has copied every file of \<open>last\<close> to \<open>backup\<close> before writing the two
  checkpoints of the updated model and optimizer into \<open>last\<close>. So \<open>backup\<close> holds the
  files of \<open>last\<close> as they were before this call (and is that directory exactly when it
  held no other file names), and \<open>last\<close> holds the new checkpoints.
\<close>

theorem backup_before_save:
  assumes "kw_load_embedding kw = None" and "kw_load_fine_tuned_version kw = None"
    and "kw_save_first_last kw = None" and "kw_train kw = Some ta"
    and "process_index c = 1" and "lm_server_update_first_call ta"
    and "perform_update c contexts candidates kw u fs = Inr (res, u', fs')"
  shows "\<exists>l ost'. last_dir fs = Some l \<and> ppo_optimizer u' = Some ost'
       \<and> backup_dir fs' =
           Some ((case backup_dir fs of None \<Rightarrow> Map.empty | Some b \<Rightarrow> b) ++ l)
       \<and> (\<forall>name x. l name = Some x \<longrightarrow>
             (\<exists>b'. backup_dir fs' = Some b' \<and> b' name = Some x))
       \<and> ((\<forall>b. backup_dir fs = Some b \<longrightarrow> dom b \<subseteq> dom l) \<longrightarrow> backup_dir fs' = Some l)
       \<and> last_dir fs' = Some (l(''model.checkpoint'' \<mapsto> ModelState (llm_module u'),
                                 ''optimizer.checkpoint'' \<mapsto> OptimizerState ost'))"
proof -
  from assms(7) obtain u1 where
    ts: "training_step c contexts candidates ta u1 fs = Inr (res, u', fs')"
    unfolding perform_update_train_branch [OF assms(1-4)]
    by (auto simp: bind_err_def split: sum.splits)
  from training_step_Inr [OF ts] obtain fs1 where
    wd: "write_distrib c ta candidates u1 fs = Inr fs1"
    and sc: "save_checkpoint c ta u' fs1 = Inr fs'"
    by blast
  note D = write_distrib_dirs [OF wd]
  from save_checkpoint_Inr [OF sc assms(5,6)] obtain l ost' where
    l: "last_dir fs = Some l" and o: "ppo_optimizer u' = Some ost'"
    and b: "backup_dir fs' =
               Some ((case backup_dir fs of None \<Rightarrow> Map.empty | Some b \<Rightarrow> b) ++ l)"
    and n: "last_dir fs' = Some (l(''model.checkpoint'' \<mapsto> ModelState (llm_module u'),
                                     ''optimizer.checkpoint'' \<mapsto> OptimizerState ost'))"
    unfolding D by blast
  have p: "\<forall>name x. l name = Some x \<longrightarrow>
             (\<exists>b'. backup_dir fs' = Some b' \<and> b' name = Some x)"
    by (simp add: b map_add_def)
  have q: "(\<forall>b. backup_dir fs = Some b \<longrightarrow> dom b \<subseteq> dom l) \<longrightarrow> backup_dir fs' = Some l"
    by (cases "backup_dir fs") (simp_all add: b map_add_covered)
  show ?thesis using l o b n p q by blast
qed

lemma losses_ex:
  "ppo_losses pc_ex ta_ex [] (Some [[''go forward'']]) w = Inr (- 1/2, 0, - 1, 1)"
  by (simp add: ppo_losses_def policy_loss_of_def value_loss_of_def surr1_def surr2_def
      ratio_def sum_last_dim_def broadcast2_def bind_err_def mean_def clamp_def ppo_ex_defs Let_def)

lemma distrib_ex:
  "write_distrib pc_ex ta_ex (Some [[''go forward'']]) u_tr_ex fs_tr_ex
     = Inr (fs_tr_ex\<lparr>distrib_csv := [[0]]\<rparr>)"
  by (simp add: write_distrib_def ppo_ex_defs)

lemma save_checkpoint_ex:
  "save_checkpoint pc_ex ta_ex u_tr2_ex (fs_tr_ex\<lparr>distrib_csv := [[0]]\<rparr>) = Inr fs_tr2_ex"
proof -
  have m: "[''model.checkpoint'' \<mapsto> ModelState 3, ''optimizer.checkpoint'' \<mapsto> OptimizerState 2,
            ''model.checkpoint'' \<mapsto> ModelState 5, ''optimizer.checkpoint'' \<mapsto> OptimizerState 6]
        = [''model.checkpoint'' \<mapsto> ModelState (5::nat),
           ''optimizer.checkpoint'' \<mapsto> OptimizerState (6::nat)]"
    by (auto simp: fun_eq_iff)
  have k: "[''model.checkpoint'' \<mapsto> ModelState 5, ''optimizer.checkpoint'' \<mapsto> OptimizerState 6,
            ''model.checkpoint'' \<mapsto> ModelState 6, ''optimizer.checkpoint'' \<mapsto> OptimizerState 7]
         = [''model.checkpoint'' \<mapsto> ModelState (6::nat),
            ''optimizer.checkpoint'' \<mapsto> OptimizerState (7::nat)]"
    by (auto simp: fun_eq_iff)
  show ?thesis
    by (simp add: save_checkpoint_def copy_tree_def save_last_def torch_save_def ppo_ex_defs m k)
qed

lemma training_ex:
  "perform_update pc_ex [] (Some [[''go forward'']]) kw_train_ex u_tr_ex fs_tr_ex
     = Inr (Some (Losses (- 1/2) 0 (- 1) 1 0), u_tr2_ex, fs_tr2_ex)"
proof -
  have i: "init_optimizer pc_ex kw_train_ex u_tr_ex = Inr u_tr_ex"
    by (simp add: init_optimizer_def ppo_ex_defs)
  have u: "ppo_optimizer u_tr_ex = Some 6" "llm_module u_tr_ex = 5" by (simp_all add: u_tr_ex_def)
  have st: "u_tr_ex\<lparr>llm_module := snd (ppo_optimizer_step pc_ex 6 g 5),
            ppo_optimizer := Some (fst (ppo_optimizer_step pc_ex 6 g 5))\<rparr> = u_tr2_ex" for g
    by (simp add: pc_ex_def u_tr2_ex_def)
  have gn: "ppo_grad_norm pc_ex g = 0" for g by (simp add: pc_ex_def)
  have t: "training_step pc_ex [] (Some [[''go forward'']]) ta_ex u_tr_ex fs_tr_ex
     = Inr (Some (Losses (- 1/2) 0 (- 1) 1 0), u_tr2_ex, fs_tr2_ex)"
    unfolding training_step_def distrib_ex losses_ex
    by (simp add: bind_err_def u Let_def st gn save_checkpoint_ex)
  have kwf: "kw_load_embedding kw_train_ex = None"
    "kw_load_fine_tuned_version kw_train_ex = None"
    "kw_save_first_last kw_train_ex = None" "kw_train kw_train_ex = Some ta_ex"
    by (simp_all add: kw_train_ex_def)
  show ?thesis
    by (simp add: perform_update_train_branch [OF kwf] i bind_err_def t)
qed

theorem backup_before_save_witness:
  "kw_load_embedding kw_train_ex = None \<and> kw_load_fine_tuned_version kw_train_ex = None
   \<and> kw_save_first_last kw_train_ex = None \<and> kw_train kw_train_ex = Some ta_ex
   \<and> process_index pc_ex = 1 \<and> lm_server_update_first_call ta_ex
   \<and> perform_update pc_ex [] (Some [[''go forward'']]) kw_train_ex u_tr_ex fs_tr_ex
       = Inr (Some (Losses (- 1/2) 0 (- 1) 1 0), u_tr2_ex, fs_tr2_ex)
   \<and> backup_dir fs_tr2_ex = last_dir fs_tr_ex
   \<and> last_dir fs_tr2_ex = Some [''model.checkpoint'' \<mapsto> ModelState 6,
                                 ''optimizer.checkpoint'' \<mapsto> OptimizerState 7]"
proof -
  have h: "kw_load_embedding kw_train_ex = None" "kw_load_fine_tuned_version kw_train_ex = None"
    "kw_save_first_last kw_train_ex = None" "kw_train kw_train_ex = Some ta_ex"
    "process_index pc_ex = 1" "lm_server_update_first_call ta_ex"
    by (simp_all add: kw_train_ex_def pc_ex_def ta_ex_def)
  from backup_before_save [OF h training_ex] obtain l where
    l: "last_dir fs_tr_ex = Some l"
    and c: "(\<forall>b. backup_dir fs_tr_ex = Some b \<longrightarrow> dom b \<subseteq> dom l) \<longrightarrow>
            backup_dir fs_tr2_ex = Some l"
    by blast
  have le: "l = [''model.checkpoint'' \<mapsto> ModelState 5,
                 ''optimizer.checkpoint'' \<mapsto> OptimizerState 6]"
    using l by (simp add: fs_tr_ex_def)
  have d: "\<forall>b. backup_dir fs_tr_ex = Some b \<longrightarrow> dom b \<subseteq> dom l"
    by (auto simp: fs_tr_ex_def le)
  from c d l have r: "backup_dir fs_tr2_ex = last_dir fs_tr_ex" by simp
  have n: "last_dir fs_tr2_ex = Some [''model.checkpoint'' \<mapsto> ModelState 6,
                                 ''optimizer.checkpoint'' \<mapsto> OptimizerState 7]"
    by (simp add: fs_tr2_ex_def)
  show ?thesis using h training_ex r n by simp
qed

section \<open>The DRRN update against the specification\<close>

lemma those_ok_tensor_max:
  assumes "\<forall>v \<in> set outs. v \<noteq> []"
  shows "those_ok (map tensor_max outs) = Inr (map spec_next_Q_max outs)"
  using assms
proof (induction outs)
  case Nil
  show ?case by simp
next
  case (Cons v outs)
  then obtain x xs where v: "v = x # xs" by (cases v) auto
  have m: "tensor_max v = Inr (spec_next_Q_max v)"
    by (simp only: v tensor_max_def spec_next_Q_max_def list.case Max.set_eq_fold)
  show ?case using Cons by (simp add: m)
qed

lemma concat_singletons:
  assumes "\<forall>v \<in> set xs. length v = 1"
  shows "concat xs = map hd xs"
  using assms
proof (induction xs)
  case Nil
  show ?case by simp
next
  case (Cons v xs)
  then obtain x where "v = [x]" by (cases v) auto
  then show ?case using Cons by simp
qed

lemma contract_next:
  assumes "network_contract c" and "\<forall>t \<in> set batch. t_next_acts t \<noteq> []"
  shows "length (forward c w (map t_next_state batch) (map t_next_acts batch)) = length batch"
    and "\<forall>v \<in> set (forward c w (map t_next_state batch) (map t_next_acts batch)). v \<noteq> []"
proof -
  let ?outs = "forward c w (map t_next_state batch) (map t_next_acts batch)"
  from assms(1) have l: "length ?outs = length batch"
    and e: "\<forall>i < length batch. length (?outs ! i) = length (t_next_acts (batch ! i))"
    unfolding network_contract_def
    by (metis length_map, metis (no_types, lifting) length_map nth_map)
  show "length ?outs = length batch" by (rule l)
  show "\<forall>v \<in> set ?outs. v \<noteq> []"
  proof
    fix v assume "v \<in> set ?outs"
    then obtain i where i: "i < length ?outs" "v = ?outs ! i" by (auto simp: in_set_conv_nth)
    with l e have "length v = length (t_next_acts (batch ! i))" by simp
    moreover have "t_next_acts (batch ! i) \<noteq> []" using assms(2) i l by simp
    ultimately show "v \<noteq> []" by auto
  qed
qed

lemma contract_taken:
  assumes "network_contract c"
  shows "length (forward c w (map t_state batch) (map (\<lambda>t. [t_act t]) batch)) = length batch"
    and "\<forall>v \<in> set (forward c w (map t_state batch) (map (\<lambda>t. [t_act t]) batch)). length v = 1"
proof -
  let ?outs = "forward c w (map t_state batch) (map (\<lambda>t. [t_act t]) batch)"
  from assms(1) have l: "length ?outs = length batch"
    and e: "\<forall>i < length batch. length (?outs ! i) = length [t_act (batch ! i)]"
    unfolding network_contract_def
    by (metis length_map, metis (no_types, lifting) length_map nth_map)
  show "length ?outs = length batch" by (rule l)
  show "\<forall>v \<in> set ?outs. length v = 1"
  proof
    fix v assume "v \<in> set ?outs"
    then obtain i where i: "i < length ?outs" "v = ?outs ! i" by (auto simp: in_set_conv_nth)
    with l e show "length v = 1" by simp
  qed
qed

lemma targets_spec:
  assumes "network_contract c" and "\<forall>t \<in> set batch. t_next_acts t \<noteq> []"
  shows "targets c w g batch = Inr (spec_targets c w g batch)"
proof -
  let ?outs = "forward c w (map t_next_state batch) (map t_next_acts batch)"
  note C = contract_next [OF assms, of w]
  have t: "those_ok (map tensor_max ?outs) = Inr (map spec_next_Q_max ?outs)"
    by (rule those_ok_tensor_max [OF C(2)])
  show ?thesis
    unfolding targets_def t spec_targets_def
    apply (simp add: broadcast2_same C(1))
    apply (rule nth_equalityI)
     apply (simp_all add: C(1))
    done
qed

lemma qvals_taken_spec:
  assumes "network_contract c"
  shows "qvals_taken c w batch = spec_predictions c w batch"
    and "length (spec_predictions c w batch) = length batch"
  using contract_taken [OF assms, of w batch]
  by (simp_all add: qvals_taken_def spec_predictions_def concat_singletons)

lemma spec_targets_length:
  assumes "network_contract c" and "\<forall>t \<in> set batch. t_next_acts t \<noteq> []"
  shows "length (spec_targets c w g batch) = length batch"
  using contract_next(1) [OF assms, of w] by (simp add: spec_targets_def)

lemma smooth_l1_spec:
  assumes "length xs = length ys" and "xs \<noteq> []"
  shows "smooth_l1_loss xs ys = Inr (spec_huber_loss xs ys)"
proof -
  have h: "(\<lambda>(x, y). huber (x - y)) =
           (\<lambda>(p, t). if \<bar>p - t\<bar> < 1 then (p - t)\<^sup>2 / 2 else \<bar>p - t\<bar> - 1 / 2)"
    by (auto simp: huber_def fun_eq_iff power2_eq_square)
  show ?thesis
    using assms by (auto simp: smooth_l1_loss_def broadcast2_same mean_def spec_huber_loss_def h)
qed

text \<open>
  Claim C2. With a memory of at least \<open>batch_size\<close> transitions, a network that returns one
  value per candidate action, and a sampled batch that is not empty and whose transitions
  have candidate next actions, \<open>DRRNAgent.update\<close> returns the scalar Huber loss between
  the network's values of the taken actions (each the sole candidate) and the targets
  \<open>reward + gamma * next_Q_max\<close>, where \<open>next_Q_max\<close> is the maximum over the stored next
  candidates and counts as zero exactly where \<open>done\<close> is true. The gradient is that of
  this loss in the parameters with the targets held fixed; it is clipped with the bound
  \<open>self.clip\<close>, and the optimizer steps with the clipped gradient. Numbers are elements
  of an ordered field.
\<close>

theorem drrn_update_step:
  assumes "network_contract c" and "\<not> int (len (memory s)) < batch_size s"
    and "sampled \<noteq> []" and "\<forall>t \<in> set sampled. t_next_acts t \<noteq> []"
  shows "update c sampled s =
     Inr (Some (spec_huber_loss (spec_predictions c (network s) sampled)
                  (spec_targets c (network s) (gamma s) sampled)),
          s\<lparr>network := snd (optimizer_step c (optimizer s)
               (clip_grad_norm c (clip s)
                  (autograd c
                     (\<lambda>w. spec_huber_loss (spec_predictions c w sampled)
                             (spec_targets c (network s) (gamma s) sampled))
                     (network s)))
               (network s)),
            optimizer := fst (optimizer_step c (optimizer s)
               (clip_grad_norm c (clip s)
                  (autograd c
                     (\<lambda>w. spec_huber_loss (spec_predictions c w sampled)
                             (spec_targets c (network s) (gamma s) sampled))
                     (network s)))
               (network s))\<rparr>)"
proof -
  let ?tg = "spec_targets c (network s) (gamma s) sampled"
  have tg: "targets c (network s) (gamma s) sampled = Inr ?tg"
    by (rule targets_spec [OF assms(1,4)])
  have lt: "length ?tg = length sampled"
    by (rule spec_targets_length [OF assms(1,4)])
  have lo: "smooth_l1_loss (qvals_taken c w sampled) ?tg
          = Inr (spec_huber_loss (spec_predictions c w sampled) ?tg)" for w
  proof -
    note Q = qvals_taken_spec [OF assms(1), of w sampled]
    have "spec_predictions c w sampled \<noteq> []" using Q(2) assms(3) by auto
    then show ?thesis
      unfolding Q(1) by (intro smooth_l1_spec) (simp_all add: Q(2) lt)
  qed
  show ?thesis
    using assms(2,3) by (simp add: update_def tg lo Let_def)
qed

lemma contract_ex: "network_contract c_ex"
  by (simp add: network_contract_def c_ex_def)

theorem drrn_update_step_witness:
  "network_contract c_ex \<and> \<not> int (len (memory s_up_ex)) < batch_size s_up_ex
   \<and> batch_ex \<noteq> [] \<and> map t_next_acts batch_ex = [[[10], [9]], [[10], [9]]]
   \<and> spec_targets c_ex (network s_up_ex) (gamma s_up_ex) batch_ex = [20, 10]
   \<and> spec_predictions c_ex (network s_up_ex) batch_ex = [0, 0]
   \<and> update c_ex batch_ex s_up_ex
       = Inr (Some (29/2), s_up_ex\<lparr>network := 1, optimizer := 1\<rparr>)"
proof -
  have h2: "\<not> int (len (memory s_up_ex)) < batch_size s_up_ex"
    by (simp add: len_def ex_defs)
  have h3: "batch_ex \<noteq> []" by (simp add: batch_ex_def)
  have h4: "\<forall>t \<in> set batch_ex. t_next_acts t \<noteq> []" by (simp add: batch_ex_def)
  note T = drrn_update_step [OF contract_ex h2 h3 h4]
  have f: "network s_up_ex = 0" "optimizer s_up_ex = 0" "gamma s_up_ex = 9/10"
    by (simp_all add: ex_defs)
  have tg: "spec_targets c_ex 0 (9/10) batch_ex = [20, 10]"
    by (simp add: spec_targets_def spec_next_Q_max_def c_ex_def batch_ex_def)
  have pr: "spec_predictions c_ex w batch_ex = [0, 0]" for w
    by (simp add: spec_predictions_def c_ex_def batch_ex_def)
  have l: "spec_huber_loss [0, 0] [20, 10] = (29/2 :: real)"
    by (simp add: spec_huber_loss_def)
  have st: "optimizer_step c_ex 0 (clip_grad_norm c_ex b (autograd c_ex g 0)) 0 = (1, 1)" for b g
    by (simp add: c_ex_def)
  from T have u: "update c_ex batch_ex s_up_ex
       = Inr (Some (29/2), s_up_ex\<lparr>network := 1, optimizer := 1\<rparr>)"
    unfolding f tg pr l st by simp
  have na: "map t_next_acts batch_ex = [[[10], [9]], [[10], [9]]]"
    by (simp add: batch_ex_def)
  show ?thesis using contract_ex h2 h3 na u tg pr by (simp add: f)
qed

section \<open>Episode statistics of the two drivers\<close>

lemma same_accumulators_refl: "same_accumulators s s"
  by (simp add: same_accumulators_def)

lemma acc_inv_same:
  assumes "same_accumulators s s'" and "acc_inv rs s"
  shows "acc_inv rs s'"
  using assms by (simp add: same_accumulators_def acc_inv_def)

lemma tick_bookkeeping:
  assumes "tick c idxs (s, ed) = Inr (s', ed')"
  shows "\<exists>acts s1 s2. same_accumulators s s1 \<and> logs s1 = logs s
           \<and> bookkeeping c (env_step c (env s')) acts (s1, ed) = Inr (s2, ed')
           \<and> same_accumulators s2 s' \<and> logs s' = logs s2"
proof -
  from assms obtain action_ids actions real_a s2 ps where
    b: "bookkeeping c (env_step c (env s @ [real_a])) actions
          (s\<lparr>env := env s @ [real_a]\<rparr>, ed) = Inr (s2, ed')"
    and r: "s' = (observe_all (states s) action_ids
             (map (\<lambda>x. fst (reshape_reward c x)) (rewards (env_step c (env s @ [real_a]))))
             (build_state c ps) (encoded_actions s)
             (dones (env_step c (env s @ [real_a]))) s2)\<lparr>states := build_state c ps\<rparr>"
    by (rule tick_cases)
  note P = slots_postD [OF bookkeeping_post [OF b]]
  note F = stats_only_fields [OF P(1)]
  have env': "env s' = env s @ [real_a]"
    by (simp add: r observe_all_memory F)
  have 1: "same_accumulators s (s\<lparr>env := env s @ [real_a]\<rparr>)"
    "logs (s\<lparr>env := env s @ [real_a]\<rparr>) = logs s"
    by (simp_all add: same_accumulators_def)
  have 2: "same_accumulators s2 s'" "logs s' = logs s2"
    by (simp_all add: same_accumulators_def r observe_all_memory)
  show ?thesis
    using 1 2 b unfolding env' by blast
qed

lemma trajectory_pass_bookkeeping:
  assumes "trajectory_pass c lsetup dict_modifier idxs (s, ed) = Inr (s', ed')"
  shows "\<exists>acts s1 s2. same_accumulators s s1 \<and> logs s1 = logs s
           \<and> bookkeeping c (env_step c (env s')) acts (s1, ed) = Inr (s2, ed')
           \<and> same_accumulators s2 s' \<and> logs s' = logs s2"
proof -
  from assms obtain ps where
    p: "trajectory_prompts c lsetup dict_modifier (obs s) s = Inr ps"
    by (auto simp: trajectory_pass_def split: sum.splits)
  define s1 where "s1 = s\<lparr>states := build_state c ps\<rparr>"
  have f1: "encoded_actions s1 = encoded_actions s" "subgoals s1 = subgoals s"
    "env s1 = env s"
    by (simp_all add: s1_def)
  from assms p obtain action_ids aidx where
    a: "act idxs (encoded_actions s) = Inr (action_ids, aidx)"
    by (auto simp: trajectory_pass_def Let_def split: sum.splits)
  then have e: "aidx = idxs" by (auto simp: act_def split: if_splits)
  from assms p a obtain actions where
    ch: "chosen_actions (subgoals s) idxs = Inr actions"
    by (auto simp: trajectory_pass_def e Let_def split: sum.splits)
  from assms p a ch obtain real_a where
    ei: "env_indices (subgoals s) idxs = Inr real_a"
    by (auto simp: trajectory_pass_def e Let_def split: sum.splits)
  from assms p a ch ei obtain st2 where
    b: "bookkeeping c (env_step c (env s @ [real_a])) actions
          (s1\<lparr>env := env s @ [real_a]\<rparr>, ed) = Inr st2"
    by (auto simp: trajectory_pass_def e Let_def s1_def split: sum.splits)
  from assms p a ch ei b obtain nps where
    r: "s' = (fst st2)\<lparr>obs := missions (env_step c (env s @ [real_a])),
                       states := build_state c nps\<rparr>"
    and r2: "ed' = snd st2"
    by (auto simp: trajectory_pass_def e Let_def s1_def split: sum.splits)
  from b r2 have b': "bookkeeping c (env_step c (env s @ [real_a])) actions
          (s1\<lparr>env := env s @ [real_a]\<rparr>, ed) = Inr (fst st2, ed')" by simp
  note P = slots_postD [OF bookkeeping_post [OF b']]
  note F = stats_only_fields [OF P(1)]
  have env': "env s' = env s @ [real_a]"
    by (simp add: r F)
  have 1: "same_accumulators s (s1\<lparr>env := env s @ [real_a]\<rparr>)"
    "logs (s1\<lparr>env := env s @ [real_a]\<rparr>) = logs s"
    by (simp_all add: same_accumulators_def s1_def)
  have 2: "same_accumulators (fst st2) s'" "logs s' = logs (fst st2)"
    by (simp_all add: same_accumulators_def r)
  show ?thesis
    using 1 2 b' unfolding env' by blast
qed

lemma reached_acc_inv:
  assumes "reached c s rs"
  shows "acc_inv rs s"
  using assms
proof (induction rule: reached.induct)
  case reached_init
  then show ?case by (rule acc_inv_init)
next
  case (reached_tick s rs idxs ed s' ed')
  from tick_bookkeeping [OF reached_tick.hyps(2)] obtain acts s1 s2 where
    a: "same_accumulators s s1"
    and b: "bookkeeping c (env_step c (env s')) acts (s1, ed) = Inr (s2, ed')"
    and d: "same_accumulators s2 s'"
    by blast
  show ?case
    by (rule acc_inv_same [OF d acc_inv_step [OF acc_inv_same [OF a reached_tick.IH] b]])
next
  case (reached_pass s rs lsetup dict_modifier idxs ed s' ed')
  from trajectory_pass_bookkeeping [OF reached_pass.hyps(2)] obtain acts s1 s2 where
    a: "same_accumulators s s1"
    and b: "bookkeeping c (env_step c (env s')) acts (s1, ed) = Inr (s2, ed')"
    and d: "same_accumulators s2 s'"
    by blast
  show ?case
    by (rule acc_inv_same [OF d acc_inv_step [OF acc_inv_same [OF a reached_pass.IH] b]])
next
  case (reached_other s rs s')
  then show ?case by (simp add: acc_inv_same)
qed

lemma bookkeeping_statistics:
  assumes inv: "acc_inv rs s" and b: "bookkeeping c r acts (s, ed) = Inr (s', ed')"
  shows "return_per_episode (logs s') =
           return_per_episode (logs s)
           @ map (\<lambda>j. accumulate (rewards_since_reset j rs @ [rewards r ! j]))
               (finished r [0..<n_envs s])
       \<and> num_frames_per_episode (logs s') =
           num_frames_per_episode (logs s)
           @ map (\<lambda>j. int (length (rewards_since_reset j rs @ [rewards r ! j])))
               (finished r [0..<n_envs s])
       \<and> (\<forall>j < n_envs s. dones r ! j \<longrightarrow>
             returns s' ! j = 0 \<and> reshaped_returns s' ! j = 0 \<and> frames_per_episode s' ! j = 0
             \<and> obs_queue s' ! j = [] \<and> acts_queue s' ! j = [])"
proof -
  note P = slots_postD [OF bookkeeping_post [OF b]]
  have m1: "map (\<lambda>k. returns s ! k + rewards r ! k) (finished r [0..<n_envs s])
          = map (\<lambda>j. accumulate (rewards_since_reset j rs @ [rewards r ! j]))
               (finished r [0..<n_envs s])"
    by (rule map_finished_cong) (use inv in \<open>simp add: acc_inv_def accumulate_snoc\<close>)
  have m2: "map (\<lambda>k. frames_per_episode s ! k + 1) (finished r [0..<n_envs s])
          = map (\<lambda>j. int (length (rewards_since_reset j rs @ [rewards r ! j])))
               (finished r [0..<n_envs s])"
    by (rule map_finished_cong) (use inv in \<open>simp add: acc_inv_def\<close>)
  have z: "\<forall>j < n_envs s. dones r ! j \<longrightarrow>
             returns s' ! j = 0 \<and> reshaped_returns s' ! j = 0 \<and> frames_per_episode s' ! j = 0
             \<and> obs_queue s' ! j = [] \<and> acts_queue s' ! j = []"
    by (simp add: P(8) P(9) P(10) P(11) P(12))
  show ?thesis
    using P(13) P(16) m1 m2 z by simp
qed

text \<open>
  Claim C1. Let the agent \<open>s\<close> come from \<open>__init__\<close> by any passes of the rollout loop of
  \<open>update_parameters\<close> and of the loop of \<open>generate_trajectories\<close> (and updates in
  between), and let the environment have answered \<open>rs\<close> on the way. One more pass of
  either loop, with the answer \<open>r = env_step c (env s')\<close>, appends for every slot \<open>j\<close>
  whose done flag is set in \<open>r\<close>, in the order of the slots, to \<open>return_per_episode\<close> what
  \<open>+=\<close> from 0 makes of the raw rewards slot \<open>j\<close> received since its last reset, this
  pass included, and to \<open>num_frames_per_episode\<close> their number; afterwards the slot's
  return, reshaped return and frame count are 0 and its two history deques are empty.
\<close>

theorem episode_statistics:
  assumes "reached c s rs"
    and "tick c idxs (s, ed) = Inr (s', ed')
         \<or> trajectory_pass c lsetup dict_modifier idxs (s, ed) = Inr (s', ed')"
  shows "return_per_episode (logs s') =
           return_per_episode (logs s)
           @ map (\<lambda>j. accumulate
                        (rewards_since_reset j rs @ [rewards (env_step c (env s')) ! j]))
               (finished (env_step c (env s')) [0..<n_envs s])
       \<and> num_frames_per_episode (logs s') =
           num_frames_per_episode (logs s)
           @ map (\<lambda>j. int (length
                        (rewards_since_reset j rs @ [rewards (env_step c (env s')) ! j])))
               (finished (env_step c (env s')) [0..<n_envs s])
       \<and> (\<forall>j < n_envs s. dones (env_step c (env s')) ! j \<longrightarrow>
             returns s' ! j = 0 \<and> reshaped_returns s' ! j = 0 \<and> frames_per_episode s' ! j = 0
             \<and> obs_queue s' ! j = [] \<and> acts_queue s' ! j = [])"
proof -
  from assms(2) tick_bookkeeping trajectory_pass_bookkeeping obtain acts s1 s2 where
    a: "same_accumulators s s1" and l1: "logs s1 = logs s"
    and b: "bookkeeping c (env_step c (env s')) acts (s1, ed) = Inr (s2, ed')"
    and d: "same_accumulators s2 s'" and l2: "logs s' = logs s2"
    by blast
  have inv: "acc_inv rs s1"
    by (rule acc_inv_same [OF a reached_acc_inv [OF assms(1)]])
  have n: "n_envs s1 = n_envs s" using a by (simp add: same_accumulators_def)
  have f: "returns s' = returns s2" "reshaped_returns s' = reshaped_returns s2"
    "frames_per_episode s' = frames_per_episode s2" "obs_queue s' = obs_queue s2"
    "acts_queue s' = acts_queue s2"
    using d by (simp_all add: same_accumulators_def)
  show ?thesis
    using bookkeeping_statistics [OF inv b] unfolding n l1 l2 f by simp
qed

lemma pass_ex:
  "trajectory_pass c_ex (language_setup c_ex ''english'' t1_ex) [] [0, 0] (t1_ex, 0)
     = Inr (t2_ex\<lparr>memory := mem1_ex\<rparr>, 1)"
  by (simp add: trajectory_pass_def trajectory_prompts_def language_setup_def ex_defs run_defs)

lemma reached_ex: "reached c_ex t1_ex [answer_ex [[0, 1]]]"
proof -
  have e: "env_step c_ex (env t1_ex) = answer_ex [[0, 1]]"
    by (simp add: c_ex_def t1_ex_def)
  have "reached c_ex t1_ex ([] @ [env_step c_ex (env t1_ex)])"
    by (rule reached_tick [OF reached_init [OF init_ex] tick_ex1])
  then show ?thesis by (simp only: e append_Nil)
qed

theorem episode_statistics_witness:
  "reached c_ex t1_ex [answer_ex [[0, 1]]]
   \<and> tick c_ex [0, 0] (t1_ex, 0) = Inr (t2_ex, 1)
   \<and> return_per_episode (logs t2_ex) = [1/2 + 1]
   \<and> num_frames_per_episode (logs t2_ex) = [2]
   \<and> returns t2_ex ! 0 = 0 \<and> reshaped_returns t2_ex ! 0 = 0
   \<and> frames_per_episode t2_ex ! 0 = 0 \<and> obs_queue t2_ex ! 0 = []
   \<and> acts_queue t2_ex ! 0 = []
   \<and> trajectory_pass c_ex (language_setup c_ex ''english'' t1_ex) [] [0, 0] (t1_ex, 0)
       = Inr (t2_ex\<lparr>memory := mem1_ex\<rparr>, 1)
   \<and> return_per_episode (logs (t2_ex\<lparr>memory := mem1_ex\<rparr>)) = [1/2 + 1]"
proof -
  have t: "tick c_ex [0, 0] (t1_ex, 0) = Inr (t2_ex, 1)
         \<or> trajectory_pass c_ex lsetup dm [0, 0] (t1_ex, 0) = Inr (t2_ex, 1)" for lsetup dm
    using tick_ex2 by simp
  have p: "tick c_ex [0, 0] (t1_ex, 0) = Inr (t2_ex\<lparr>memory := mem1_ex\<rparr>, 1)
         \<or> trajectory_pass c_ex (language_setup c_ex ''english'' t1_ex) [] [0, 0] (t1_ex, 0)
             = Inr (t2_ex\<lparr>memory := mem1_ex\<rparr>, 1)"
    using pass_ex by simp
  note A = episode_statistics [OF reached_ex t]
  note B = episode_statistics [OF reached_ex p]
  have r: "env_step c_ex (env t2_ex) = answer_ex [[0, 1], [0, 0]]"
    "env_step c_ex (env (t2_ex\<lparr>memory := mem1_ex\<rparr>)) = answer_ex [[0, 1], [0, 0]]"
    by (simp_all add: c_ex_def t2_ex_def)
  have d: "dones (answer_ex [[0, 1], [0, 0]]) ! 0" by (simp add: answer_ex_def)
  have n: "n_envs t1_ex = 2" by (simp add: ex_defs)
  have f: "finished (answer_ex [[0, 1], [0, 0]]) [0..<n_envs t1_ex] = [0]"
    by (simp add: n finished_def answer_ex_def upt_rec)
  have l: "return_per_episode (logs t1_ex) = []" "num_frames_per_episode (logs t1_ex) = []"
    by (simp_all add: ex_defs)
  have a: "accumulate (rewards_since_reset 0 [answer_ex [[0, 1]]]
             @ [rewards (answer_ex [[0, 1], [0, 0]]) ! 0]) = 1/2 + 1"
    by (simp add: accumulate_def rewards_since_reset_def answer_ex_def)
  have b: "int (length (rewards_since_reset 0 [answer_ex [[0, 1]]]
             @ [rewards (answer_ex [[0, 1], [0, 0]]) ! 0])) = 2"
    by (simp add: rewards_since_reset_def answer_ex_def)
  from A have r1: "return_per_episode (logs t2_ex) = [1/2 + 1]"
    and m1: "num_frames_per_episode (logs t2_ex) = [2]"
    unfolding r f l using a b by simp_all
  from A d n have z: "returns t2_ex ! 0 = 0 \<and> reshaped_returns t2_ex ! 0 = 0
     \<and> frames_per_episode t2_ex ! 0 = 0 \<and> obs_queue t2_ex ! 0 = []
     \<and> acts_queue t2_ex ! 0 = []"
    unfolding r by simp
  from B have r2: "return_per_episode (logs (t2_ex\<lparr>memory := mem1_ex\<rparr>)) = [1/2 + 1]"
    unfolding r f l using a by simp
  show ?thesis using reached_ex tick_ex2 pass_ex r1 m1 z r2 by simp
qed

end
